(* ===== verification/Prelude.thy ===== *)
theory Prelude
  imports Main
begin

text \<open>
  The vocabulary every component shares: Go's multi-value returns as sums, fact collections
  that the component theories fill, and generic lemmas on lists, options and finite maps.
  Nothing here models a line of the program.
\<close>

named_theorems wf_intros \<open>well-formedness facts: introduction rules\<close>
named_theorems preserved \<open>an operation keeps an invariant or leaves a field alone\<close>
named_theorems branch_simps \<open>behaviour of an operation on one of its branches\<close>

section \<open>Results\<close>

text \<open>
  A Go function that returns \<open>(T, error)\<close> becomes a function into \<open>'e + 'a\<close>: \<^term>\<open>Inl e\<close> is a
  non-nil error and \<^term>\<open>Inr x\<close> the value beside a nil one.
\<close>

definition res_bind :: "'e + 'a \<Rightarrow> ('a \<Rightarrow> 'e + 'b) \<Rightarrow> 'e + 'b" where
  "res_bind r f = (case r of Inl e \<Rightarrow> Inl e | Inr x \<Rightarrow> f x)"

definition is_ok :: "'e + 'a \<Rightarrow> bool" where
  "is_ok r \<longleftrightarrow> (case r of Inl _ \<Rightarrow> False | Inr _ \<Rightarrow> True)"

definition is_err :: "'e + 'a \<Rightarrow> bool" where
  "is_err r \<longleftrightarrow> (case r of Inl _ \<Rightarrow> True | Inr _ \<Rightarrow> False)"

lemma res_bind_simps [simp]:
  "res_bind (Inl e) f = Inl e"
  "res_bind (Inr x) f = f x"
  by (simp_all add: res_bind_def)

lemma is_ok_simps [simp]: "\<not> is_ok (Inl e)" "is_ok (Inr x)"
  by (simp_all add: is_ok_def)

lemma is_err_simps [simp]: "is_err (Inl e)" "\<not> is_err (Inr x)"
  by (simp_all add: is_err_def)

lemma res_bind_eq_Inr: "res_bind r f = Inr y \<longleftrightarrow> (\<exists>x. r = Inr x \<and> f x = Inr y)"
  by (cases r) auto

lemma res_bind_eq_Inl: "res_bind r f = Inl e \<longleftrightarrow> r = Inl e \<or> (\<exists>x. r = Inr x \<and> f x = Inl e)"
  by (cases r) auto

lemma not_is_ok_iff: "\<not> is_ok r \<longleftrightarrow> (\<exists>e. r = Inl e)"
  by (cases r) auto

lemma is_ok_iff: "is_ok r \<longleftrightarrow> (\<exists>x. r = Inr x)"
  by (cases r) auto

lemma not_is_err [simp]: "\<not> is_err r \<longleftrightarrow> is_ok r"
  by (cases r) auto

text \<open>What a Go call may end in beside returning: a run-time panic.\<close>

datatype 'a call = Return 'a | Panic string

section \<open>Lists\<close>

lemma dropWhile_append_if:
  "dropWhile P (xs @ ys) = (if \<forall>x \<in> set xs. P x then dropWhile P ys else dropWhile P xs @ ys)"
  by (induction xs) auto

lemma dropWhile_id: "xs = [] \<or> \<not> P (hd xs) \<Longrightarrow> dropWhile P xs = xs"
  by (cases xs) auto

lemma hd_dropWhile_not: "dropWhile P xs \<noteq> [] \<Longrightarrow> \<not> P (hd (dropWhile P xs))"
  by (induction xs) auto

lemma list_all_dropWhile: "list_all Q xs \<Longrightarrow> list_all Q (dropWhile P xs)"
  by (induction xs) auto

lemma find_SomeD: "List.find P xs = Some x \<Longrightarrow> x \<in> set xs \<and> P x"
  by (induction xs) (auto split: if_splits)

lemma find_NoneD: "List.find P xs = None \<Longrightarrow> x \<in> set xs \<Longrightarrow> \<not> P x"
  by (induction xs) (auto split: if_splits)

lemma filter_eq_single:
  "distinct (map k xs) \<Longrightarrow> x \<in> set xs \<Longrightarrow> filter (\<lambda>y. k y = k x) xs = [x]"
proof (induction xs)
  case Nil
  then show ?case by simp
next
  case (Cons y ys)
  show ?case
  proof (cases "x = y")
    case True
    with Cons.prems have "filter (\<lambda>z. k z = k x) ys = []"
      by (auto simp: filter_empty_conv image_iff dest: sym)
    with True show ?thesis by simp
  next
    case False
    with Cons show ?thesis by (auto simp: image_iff dest: sym)
  qed
qed

lemma map_idem_keys: "(\<And>x. k (f x) = k x) \<Longrightarrow> map k (map f xs) = map k xs"
  by simp

section \<open>Finite maps\<close>

lemma map_upd_dom_subset: "dom (m(k \<mapsto> v)) \<subseteq> insert k (dom m)"
  by auto

lemma map_delete_dom: "dom (m(k := None)) = dom m - {k}"
  by auto

lemma map_delete_le: "(m(k := None)) \<subseteq>\<^sub>m m"
  by (simp add: map_le_def)

section \<open>Components as machines\<close>

text \<open>
  A component is a set of states with operations on it. \<open>machine\<close> is the contract of one that keeps
  an invariant whatever operation runs; \<open>history_machine\<close> adds an order on states along which every
  operation moves, so that facts about one operation become facts about any sequence of them.
\<close>

locale machine =
  fixes step :: "'op \<Rightarrow> 's \<Rightarrow> 's" and inv :: "'s \<Rightarrow> bool"
  assumes step_inv: "inv s \<Longrightarrow> inv (step op s)"
begin

lemma run_inv: "inv s \<Longrightarrow> inv (fold step ops s)"
  by (induction ops arbitrary: s) (simp_all add: step_inv)

end

locale history_machine = machine +
  fixes before :: "'a \<Rightarrow> 'a \<Rightarrow> bool"
  assumes before_refl: "before s s"
    and before_trans: "before s t \<Longrightarrow> before t u \<Longrightarrow> before s u"
    and step_before: "inv s \<Longrightarrow> before s (step op s)"
begin

lemma run_before: "inv s \<Longrightarrow> before s (fold step ops s)"
  by (induction ops arbitrary: s) (auto intro: before_refl before_trans step_before step_inv)

lemma run_split: "inv s \<Longrightarrow> before (fold step ops s) (fold step (ops @ more) s)"
  by (simp add: run_before run_inv)

end

section \<open>Stores of one-time and short-lived values\<close>

text \<open>
  What the panel expects of the map of pending challenges and of the map of sessions: an entry is
  there exactly when it was put and not deleted since.
\<close>

datatype ('k, 'v) store_op = Put 'k 'v | Del 'k

locale kv_store =
  fixes lookup :: "'s \<Rightarrow> 'k \<Rightarrow> 'v option"
    and put :: "'k \<Rightarrow> 'v \<Rightarrow> 's \<Rightarrow> 's"
    and del :: "'k \<Rightarrow> 's \<Rightarrow> 's"
  assumes lookup_put: "lookup (put k v s) x = (if x = k then Some v else lookup s x)"
    and lookup_del: "lookup (del k s) x = (if x = k then None else lookup s x)"
begin

fun do_op :: "('k, 'v) store_op \<Rightarrow> 's \<Rightarrow> 's" where
  "do_op (Put k v) s = put k v s"
| "do_op (Del k) s = del k s"

lemma lookup_do_op:
  "lookup (do_op op s) x =
     (case op of Put k v \<Rightarrow> if x = k then Some v else lookup s x | Del k \<Rightarrow> if x = k then None else lookup s x)"
  by (cases op) (simp_all add: lookup_put lookup_del)

lemma absent_until_put:
  "lookup s k = None \<Longrightarrow> (\<And>v. Put k v \<notin> set ops) \<Longrightarrow> lookup (fold do_op ops s) k = None"
proof (induction ops arbitrary: s)
  case Nil
  then show ?case by simp
next
  case (Cons op ops)
  have "lookup (do_op op s) k = None"
    using Cons.prems(1) Cons.prems(2) by (cases op) (auto simp: lookup_put lookup_del)
  with Cons.IH [of "do_op op s"] Cons.prems(2) show ?case by simp
qed

lemma present_was_put:
  assumes "lookup (fold do_op ops s) k = Some v"
  shows "lookup s k = Some v \<or> Put k v \<in> set ops"
  using assms
proof (induction ops arbitrary: s)
  case Nil
  then show ?case by simp
next
  case (Cons op ops)
  then have "lookup (do_op op s) k = Some v \<or> Put k v \<in> set ops" by simp
  then show ?case
    by (cases op) (auto simp: lookup_put lookup_del split: if_splits)
qed

lemma gone_after_del:
  "(\<And>v. Put k v \<notin> set ops) \<Longrightarrow> lookup (fold do_op ops (del k s)) k = None"
  by (rule absent_until_put) (simp_all add: lookup_del)

end

section \<open>Where something comes from\<close>

text \<open>
  A thing that only some operations make is either there from the start or was made by one of the
  operations that ran.
\<close>

locale provenance =
  fixes step :: "'op \<Rightarrow> 's \<Rightarrow> 's" and has :: "'s \<Rightarrow> 'x \<Rightarrow> bool" and made :: "'op \<Rightarrow> 's \<Rightarrow> 'x \<Rightarrow> bool"
  assumes has_step: "has (step op s) x \<Longrightarrow> has s x \<or> made op s x"
begin

lemma origin:
  assumes "has (fold step ops s) x" "\<not> has s x"
  obtains before op after where "ops = before @ op # after" "made op (fold step before s) x"
proof -
  from assms(1) have "has s x \<or> (\<exists>before op after. ops = before @ op # after \<and> made op (fold step before s) x)"
  proof (induction ops arbitrary: s)
    case Nil
    then show ?case by simp
  next
    case (Cons op ops)
    then have "has (step op s) x \<or>
        (\<exists>before o' after. ops = before @ o' # after \<and> made o' (fold step before (step op s)) x)" by simp
    then show ?case
    proof (elim disjE exE conjE)
      assume "has (step op s) x"
      then have "has s x \<or> made op s x" by (rule has_step)
      then show ?thesis by (metis append_Nil fold_simps(1))
    next
      fix before o' after
      assume "ops = before @ o' # after" "made o' (fold step before (step op s)) x"
      then show ?thesis by (metis append_Cons fold_simps(2))
    qed
  qed
  with assms(2) that show ?thesis by blast
qed

end

end
