(* ===== verification/Base64_Url.thy ===== *)
theory Base64_Url
  imports Go_Strings
begin

text \<open>
  Go's \<open>base64.RawURLEncoding\<close>, the text form of every device id, key, signature, challenge and
  session token: the URL-safe alphabet without padding. The decoder skips carriage returns and line
  feeds and, being non-strict, ignores the unused bits of a last partial group.
\<close>

section \<open>Codecs as an interface\<close>

text \<open>
  An encoder and a decoder that inverts it on the values satisfying \<open>ok\<close>. The clients use only
  these laws; codecs compose.
\<close>

locale codec =
  fixes enc :: "'a \<Rightarrow> 'b" and dec :: "'b \<Rightarrow> 'a option" and ok :: "'a \<Rightarrow> bool"
  assumes dec_enc: "ok x \<Longrightarrow> dec (enc x) = Some x"
begin

lemma enc_inject: "ok x \<Longrightarrow> ok y \<Longrightarrow> enc x = enc y \<longleftrightarrow> x = y"
  by (metis dec_enc option.inject)

lemma inj_on_enc: "inj_on enc {x. ok x}"
  by (rule inj_onI) (simp add: enc_inject)

end

locale codec_pair = inner: codec enc1 dec1 ok1 + outer: codec enc2 dec2 ok2
  for enc1 :: "'a \<Rightarrow> 'b" and dec1 ok1 and enc2 :: "'b \<Rightarrow> 'c" and dec2 ok2 +
  assumes inner_ok: "ok1 x \<Longrightarrow> ok2 (enc1 x)"
begin

lemma composed: "codec (\<lambda>x. enc2 (enc1 x)) (\<lambda>y. Option.bind (dec2 y) dec1) ok1"
  by unfold_locales (simp add: inner.dec_enc outer.dec_enc inner_ok)

end

section \<open>The alphabet\<close>

definition enc6 :: "nat \<Rightarrow> char" where
  "enc6 n = (if n < 26 then char_of (65 + n)
     else if n < 52 then char_of (97 + (n - 26))
     else if n < 62 then char_of (48 + (n - 52))
     else if n = 62 then CHR ''-'' else CHR ''_'')"

definition dec6 :: "char \<Rightarrow> nat option" where
  "dec6 c = (if is_upper c then Some (ord c - 65)
     else if is_lower c then Some (ord c - 97 + 26)
     else if is_digit c then Some (ord c - 48 + 52)
     else if c = CHR ''-'' then Some 62
     else if c = CHR ''_'' then Some 63 else None)"

lemma ord_enc6: "n < 64 \<Longrightarrow> ord (enc6 n) =
    (if n < 26 then 65 + n else if n < 52 then 71 + n else if n < 62 then n - 4
     else if n = 62 then 45 else 95)"
  by (auto simp: enc6_def ord_char_of)

lemma dec6_enc6 [simp]:
  assumes "n < 64"
  shows "dec6 (enc6 n) = Some n"
proof -
  consider "n < 26" | "26 \<le> n" "n < 52" | "52 \<le> n" "n < 62" | "n = 62" | "n = 63"
    using assms by linarith
  then show ?thesis
    by cases (auto simp: dec6_def is_upper_def is_lower_def is_digit_def ord_enc6 char_eq_iff_ord)
qed

lemma dec6_less: "dec6 c = Some n \<Longrightarrow> n < 64"
  by (auto simp: dec6_def is_upper_def is_lower_def is_digit_def split: if_splits)

lemma enc6_plain:
  assumes "n < 64"
  shows "\<not> is_space (enc6 n)" "ord (enc6 n) \<noteq> 10" "ord (enc6 n) \<noteq> 13" "32 < ord (enc6 n)"
    "ord (enc6 n) < 128" "enc6 n \<noteq> CHR 0x22" "enc6 n \<noteq> CHR 0x5C"
    "ord (enc6 n) \<noteq> 34" "ord (enc6 n) \<noteq> 92" "ord (enc6 n) \<noteq> 60" "ord (enc6 n) \<noteq> 62" "ord (enc6 n) \<noteq> 38"
  using assms by (auto simp: is_space_def ord_enc6 char_eq_iff_ord)

section \<open>Encoding\<close>

fun sextets :: "bytes \<Rightarrow> nat list" where
  "sextets [] = []"
| "sextets [a] = [ord a div 4, (ord a mod 4) * 16]"
| "sextets [a, b] = [ord a div 4, (ord a mod 4) * 16 + ord b div 16, (ord b mod 16) * 4]"
| "sextets (a # b # c # r) =
     [ord a div 4, (ord a mod 4) * 16 + ord b div 16, (ord b mod 16) * 4 + ord c div 64, ord c mod 64]
     @ sextets r"

fun unsextets :: "nat list \<Rightarrow> bytes option" where
  "unsextets [] = Some []"
| "unsextets [x] = None"
| "unsextets [x, y] = Some [char_of (x * 4 + y div 16)]"
| "unsextets [x, y, z] = Some [char_of (x * 4 + y div 16), char_of ((y mod 16) * 16 + z div 4)]"
| "unsextets (w # x # y # z # r) =
     map_option (\<lambda>bs. char_of (w * 4 + x div 16) # char_of ((x mod 16) * 16 + y div 4)
                      # char_of ((y mod 4) * 64 + z) # bs) (unsextets r)"

definition EncodeToString :: "bytes \<Rightarrow> string" where
  "EncodeToString bs = map enc6 (sextets bs)"

fun decode_chars :: "string \<Rightarrow> nat list option" where
  "decode_chars [] = Some []"
| "decode_chars (c # s) =
     (case dec6 c of None \<Rightarrow> None | Some n \<Rightarrow> map_option (Cons n) (decode_chars s))"

definition is_newline :: "char \<Rightarrow> bool" where
  "is_newline c \<longleftrightarrow> ord c = 10 \<or> ord c = 13"

definition DecodeString :: "string \<Rightarrow> bytes option" where
  "DecodeString s = Option.bind (decode_chars (filter (\<lambda>c. \<not> is_newline c) s)) unsextets"

lemma ord_div_bounds: "ord a div 4 < 64" "ord a div 16 < 16" "ord a div 64 < 4"
  by (rule less_mult_imp_div_less, simp)+

lemma sextet_mid: "x < 4 \<Longrightarrow> x * 16 + ord b div 16 < 64" "x < 16 \<Longrightarrow> x * 4 + ord b div 64 < 64"
  using ord_div_bounds [of b] by linarith+

lemma sextets_less: "n \<in> set (sextets bs) \<Longrightarrow> n < 64"
proof (induction bs rule: sextets.induct)
  case (2 a)
  then show ?case by (auto simp: ord_div_bounds)
next
  case (3 a b)
  then show ?case by (auto simp: ord_div_bounds sextet_mid)
next
  case (4 a b c r)
  then show ?case by (auto simp: ord_div_bounds sextet_mid)
qed simp

lemma char_of_join1: "char_of ((ord a div 4) * 4 + ((ord a mod 4) * 16 + y) div 16) = a" if "y < 16"
proof -
  have "(ord a div 4) * 4 + ((ord a mod 4) * 16 + y) div 16 = ord a"
    using that by (simp add: div_mult_mod_eq)
  then show ?thesis by simp
qed

lemma char_of_join2:
  "char_of ((((x :: nat) * 16 + ord b div 16) mod 16) * 16 + ((ord b mod 16) * 4 + z) div 4) = b" if "z < 4"
proof -
  have "ord b div 16 < 16" by (rule ord_div_bounds)
  then have "((x * 16 + ord b div 16) mod 16) * 16 + ((ord b mod 16) * 4 + z) div 4 = ord b"
    using that by (simp add: div_mult_mod_eq)
  then show ?thesis by simp
qed

lemma char_of_join3:
  "char_of ((((x :: nat) * 4 + ord c div 64) mod 4) * 64 + ord c mod 64) = c"
proof -
  have "ord c div 64 < 4" by (rule ord_div_bounds)
  then have "((x * 4 + ord c div 64) mod 4) * 64 + ord c mod 64 = ord c"
    by (simp add: div_mult_mod_eq)
  then show ?thesis by simp
qed

lemma unsextets_sextets: "unsextets (sextets bs) = Some bs"
proof (induction bs rule: sextets.induct)
  case (2 a)
  show ?case using char_of_join1 [of 0 a] by simp
next
  case (3 a b)
  have "ord b div 16 < 16" by (rule ord_div_bounds)
  then show ?case
    using char_of_join1 [of "ord b div 16" a] char_of_join2 [of 0 "ord a mod 4" b] by simp
next
  case (4 a b c r)
  have "ord b div 16 < 16" "ord c div 64 < 4"
    by (rule ord_div_bounds)+
  with 4 show ?case
    using char_of_join1 [of "ord b div 16" a] char_of_join2 [of "ord c div 64" "ord a mod 4" b]
      char_of_join3 [of "ord b mod 16" c] by simp
qed simp

lemma decode_chars_enc: "\<forall>n \<in> set ns. n < 64 \<Longrightarrow> decode_chars (map enc6 ns) = Some ns"
  by (induction ns) simp_all

lemma filter_newline_enc:
  "\<forall>n \<in> set ns. n < 64 \<Longrightarrow> filter (\<lambda>c. \<not> is_newline c) (map enc6 ns) = map enc6 ns"
  by (auto simp: filter_id_conv is_newline_def enc6_plain)

interpretation b64: codec EncodeToString DecodeString "\<lambda>_. True"
  by unfold_locales
    (simp add: EncodeToString_def DecodeString_def filter_newline_enc decode_chars_enc
      unsextets_sextets sextets_less)

section \<open>Shape of encoded text\<close>

lemma EncodeToString_plain:
  assumes "c \<in> set (EncodeToString bs)"
  shows "\<not> is_space c" "32 < ord c" "ord c < 128"
    "ord c \<noteq> 34" "ord c \<noteq> 92" "ord c \<noteq> 60" "ord c \<noteq> 62" "ord c \<noteq> 38"
  using assms by (auto simp: EncodeToString_def enc6_plain dest!: sextets_less)

lemma TrimSpace_EncodeToString [simp]: "TrimSpace (EncodeToString bs) = EncodeToString bs"
  by (rule TrimSpace_no_space) (simp add: EncodeToString_plain)

lemma length_sextets: "length (sextets bs) = (4 * length bs + 2) div 3"
  by (induction bs rule: sextets.induct) auto

lemma length_EncodeToString: "length (EncodeToString bs) = (4 * length bs + 2) div 3"
  by (simp add: EncodeToString_def length_sextets)

lemma EncodeToString_eq_Nil [simp]: "EncodeToString bs = [] \<longleftrightarrow> bs = []"
  by (cases bs rule: sextets.cases) (simp_all add: EncodeToString_def)

lemma DecodeString_Encode [simp]: "DecodeString (EncodeToString bs) = Some bs"
  by (rule b64.dec_enc) simp

lemma EncodeToString_inject [simp]: "EncodeToString a = EncodeToString b \<longleftrightarrow> a = b"
  by (rule b64.enc_inject) simp_all

lemma EncodeToString_Nil_iff [simp]: "EncodeToString bs = [] \<longleftrightarrow> bs = []"
proof
  assume "EncodeToString bs = []"
  then have "(4 * length bs + 2) div 3 = 0" using length_EncodeToString [of bs] by simp
  then show "bs = []" by (cases bs) simp_all
qed (simp add: EncodeToString_def)

end
