(* ===== verification/Json.thy ===== *)
theory Json
  imports Base64_Url
begin

text \<open>
  JSON as the program's two sides exchange it: Go's \<open>encoding/json\<close> and JavaScript's \<open>JSON\<close>
  object. A number is kept as the text of its literal. Bytes above 127 stand for themselves, so
  text is valid UTF-8 when its producer's was; the encoder's rewriting of U+2028, U+2029 and of
  invalid UTF-8 is not modelled.
\<close>

datatype json =
    JNull | JBool bool | JNum string | JStr string
  | JArr "json list" | JObj "(string \<times> json) list"

section \<open>Printing\<close>

definition hex_digit :: "nat \<Rightarrow> char" where
  "hex_digit n = (if n < 10 then char_of (48 + n) else char_of (87 + n))"

definition hex_val :: "char \<Rightarrow> nat option" where
  "hex_val c = (if is_digit c then Some (ord c - 48)
     else if 97 \<le> ord c \<and> ord c \<le> 102 then Some (ord c - 87)
     else if 65 \<le> ord c \<and> ord c \<le> 70 then Some (ord c - 55) else None)"

definition esc_u :: "char \<Rightarrow> string" where
  "esc_u c = [CHR 0x5C, CHR ''u'', CHR ''0'', CHR ''0'', hex_digit (ord c div 16), hex_digit (ord c mod 16)]"

text \<open>
  The escape of one byte. \<open>html\<close> is Go's default (\<open>SetEscapeHTML(true)\<close>), which also escapes
  \<open><\<close>, \<open>>\<close> and \<open>&\<close>; \<open>JSON.stringify\<close> does not.
\<close>

definition esc_char :: "bool \<Rightarrow> char \<Rightarrow> string" where
  "esc_char html c =
     (if ord c = 34 then [CHR 0x5C, CHR 0x22]
      else if ord c = 92 then [CHR 0x5C, CHR 0x5C]
      else if ord c = 8 then [CHR 0x5C, CHR ''b'']
      else if ord c = 12 then [CHR 0x5C, CHR ''f'']
      else if ord c = 10 then [CHR 0x5C, CHR ''n'']
      else if ord c = 13 then [CHR 0x5C, CHR ''r'']
      else if ord c = 9 then [CHR 0x5C, CHR ''t'']
      else if ord c < 32 \<or> html \<and> (ord c = 60 \<or> ord c = 62 \<or> ord c = 38) then esc_u c
      else [c])"

definition print_str :: "bool \<Rightarrow> string \<Rightarrow> string" where
  "print_str html s = CHR 0x22 # concat (map (esc_char html) s) @ [CHR 0x22]"

fun print_json :: "bool \<Rightarrow> json \<Rightarrow> string"
  and print_items :: "bool \<Rightarrow> json list \<Rightarrow> string"
  and print_fields :: "bool \<Rightarrow> (string \<times> json) list \<Rightarrow> string" where
  "print_json html JNull = ''null''"
| "print_json html (JBool b) = (if b then ''true'' else ''false'')"
| "print_json html (JNum lit) = lit"
| "print_json html (JStr s) = print_str html s"
| "print_json html (JArr vs) = CHR ''['' # print_items html vs"
| "print_json html (JObj fs) = CHR ''{'' # print_fields html fs"
| "print_items html [] = '']''"
| "print_items html [v] = print_json html v @ '']''"
| "print_items html (v # w # vs) = print_json html v @ '','' @ print_items html (w # vs)"
| "print_fields html [] = ''}''"
| "print_fields html [(k, v)] = print_str html k @ '':'' @ print_json html v @ ''}''"
| "print_fields html ((k, v) # f # fs) =
     print_str html k @ '':'' @ print_json html v @ '','' @ print_fields html (f # fs)"

definition Marshal :: "json \<Rightarrow> bytes" where
  "Marshal v = print_json True v"

definition stringify :: "json \<Rightarrow> string" where
  "stringify v = print_json False v"

section \<open>Parsing\<close>

definition json_ws :: "char \<Rightarrow> bool" where
  "json_ws c \<longleftrightarrow> ord c \<in> {9, 10, 13, 32}"

definition skip_ws :: "string \<Rightarrow> string" where
  "skip_ws s = dropWhile json_ws s"

fun hex4 :: "string \<Rightarrow> (nat \<times> string) option" where
  "hex4 (a # b # c # d # s) =
     (case (hex_val a, hex_val b, hex_val c, hex_val d) of
        (Some w, Some x, Some y, Some z) \<Rightarrow> Some (w * 4096 + x * 256 + y * 16 + z, s)
      | _ \<Rightarrow> None)"
| "hex4 _ = None"

text \<open>UTF-8 of a code point below 0x110000.\<close>

definition utf8 :: "nat \<Rightarrow> bytes" where
  "utf8 n = (if n < 128 then [char_of n]
     else if n < 2048 then [char_of (192 + n div 64), char_of (128 + n mod 64)]
     else if n < 65536 then [char_of (224 + n div 4096), char_of (128 + (n div 64) mod 64), char_of (128 + n mod 64)]
     else [char_of (240 + n div 262144), char_of (128 + (n div 4096) mod 64),
           char_of (128 + (n div 64) mod 64), char_of (128 + n mod 64)])"

text \<open>
  After \<open>\u\<close>: one code unit, or a surrogate pair; a lone surrogate becomes U+FFFD.
\<close>

definition unescape_u :: "string \<Rightarrow> (bytes \<times> string) option" where
  "unescape_u s = (case hex4 s of None \<Rightarrow> None | Some (n, r) \<Rightarrow>
     if 0xD800 \<le> n \<and> n < 0xDC00 then
       (case r of b # u # r' \<Rightarrow>
            if b = CHR 0x5C \<and> u = CHR ''u'' then
              (case hex4 r' of
                 Some (m, r'') \<Rightarrow>
                   if 0xDC00 \<le> m \<and> m < 0xE000
                   then Some (utf8 (0x10000 + (n - 0xD800) * 1024 + (m - 0xDC00)), r'')
                   else Some (utf8 0xFFFD, r)
               | None \<Rightarrow> Some (utf8 0xFFFD, r))
            else Some (utf8 0xFFFD, r)
        | _ \<Rightarrow> Some (utf8 0xFFFD, r))
     else if 0xDC00 \<le> n \<and> n < 0xE000 then Some (utf8 0xFFFD, r)
     else Some (utf8 n, r))"

definition unescape :: "string \<Rightarrow> (bytes \<times> string) option" where
  "unescape s = (case s of [] \<Rightarrow> None | e # r \<Rightarrow>
     if e = CHR 0x22 \<or> e = CHR 0x5C \<or> e = CHR ''/'' then Some ([e], r)
     else if e = CHR ''b'' then Some ([CHR 0x08], r)
     else if e = CHR ''f'' then Some ([CHR 0x0C], r)
     else if e = CHR ''n'' then Some ([CHR 0x0A], r)
     else if e = CHR ''r'' then Some ([CHR 0x0D], r)
     else if e = CHR ''t'' then Some ([CHR 0x09], r)
     else if e = CHR ''u'' then unescape_u r
     else None)"

lemma hex4_length: "hex4 s = Some (n, r) \<Longrightarrow> length s = length r + 4"
  by (cases s rule: hex4.cases) (auto split: option.splits)

lemma unescape_u_length: "unescape_u s = Some (b, r) \<Longrightarrow> length r < length s"
  by (fastforce simp: unescape_u_def dest!: hex4_length split: option.splits if_splits list.splits prod.splits)

lemma unescape_length: "unescape s = Some (b, r) \<Longrightarrow> length r < length s"
  by (auto simp: unescape_def split: list.splits if_splits dest: unescape_u_length)

text \<open>The body of a string literal, after the opening quote, up to and including the closing one.\<close>

function parse_str :: "string \<Rightarrow> (string \<times> string) option" where
  "parse_str s = (case s of [] \<Rightarrow> None | c # r \<Rightarrow>
     if c = CHR 0x22 then Some ([], r)
     else if c = CHR 0x5C then
       (case unescape r of None \<Rightarrow> None
        | Some (b, r') \<Rightarrow> map_option (\<lambda>(t, r''). (b @ t, r'')) (parse_str r'))
     else if ord c < 32 then None
     else map_option (\<lambda>(t, r'). (c # t, r')) (parse_str r))"
  by pat_completeness auto
termination
  by (relation "measure length") (auto dest!: unescape_length)

declare parse_str.simps [simp del]

definition num_char :: "char \<Rightarrow> bool" where
  "num_char c \<longleftrightarrow> is_digit c \<or> c \<in> set ''+-.eE''"

fun valid_exp :: "string \<Rightarrow> bool" where
  "valid_exp [] = False"
| "valid_exp (c # s) =
     (let r = (if c = CHR ''+'' \<or> c = CHR ''-'' then s else c # s)
      in r \<noteq> [] \<and> list_all is_digit r)"

definition valid_frac :: "string \<Rightarrow> bool" where
  "valid_frac s =
     (let e = dropWhile is_digit s
      in case e of [] \<Rightarrow> True
         | c # r \<Rightarrow> (c = CHR ''e'' \<or> c = CHR ''E'') \<and> valid_exp r)"

text \<open>The JSON number grammar: no leading zero, no bare sign or point.\<close>

definition valid_num :: "string \<Rightarrow> bool" where
  "valid_num lit =
     (let u = TrimPrefix lit ''-'';
          i = takeWhile is_digit u;
          f = dropWhile is_digit u
      in i \<noteq> [] \<and> (length i = 1 \<or> hd i \<noteq> CHR ''0'')
         \<and> (case f of [] \<Rightarrow> True
            | c # r \<Rightarrow> if c = CHR ''.'' then r \<noteq> [] \<and> is_digit (hd r) \<and> valid_frac r
                       else (c = CHR ''e'' \<or> c = CHR ''E'') \<and> valid_exp r))"

definition parse_num :: "string \<Rightarrow> (json \<times> string) option" where
  "parse_num s =
     (let lit = takeWhile num_char s
      in if valid_num lit then Some (JNum lit, dropWhile num_char s) else None)"

definition parse_lit :: "string \<Rightarrow> json \<Rightarrow> string \<Rightarrow> (json \<times> string) option" where
  "parse_lit w v s = (if HasPrefix s w then Some (v, drop (length w) s) else None)"

text \<open>
  The value, element and member parsers share a fuel that bounds the number of nested calls; one
  more than the length of the input is enough, because every call is on a shorter input.
\<close>

fun parse_value :: "nat \<Rightarrow> string \<Rightarrow> (json \<times> string) option"
  and parse_items :: "nat \<Rightarrow> string \<Rightarrow> (json list \<times> string) option"
  and parse_fields :: "nat \<Rightarrow> string \<Rightarrow> ((string \<times> json) list \<times> string) option" where
  "parse_value 0 s = None"
| "parse_value (Suc n) s =
     (case skip_ws s of [] \<Rightarrow> None | c # r \<Rightarrow>
        if c = CHR 0x22 then map_option (\<lambda>(t, r'). (JStr t, r')) (parse_str r)
        else if c = CHR ''['' then
          (if HasPrefix (skip_ws r) '']'' then Some (JArr [], drop 1 (skip_ws r))
           else map_option (\<lambda>(vs, r'). (JArr vs, r')) (parse_items n r))
        else if c = CHR ''{'' then
          (if HasPrefix (skip_ws r) ''}'' then Some (JObj [], drop 1 (skip_ws r))
           else map_option (\<lambda>(fs, r'). (JObj fs, r')) (parse_fields n r))
        else if c = CHR ''t'' then parse_lit ''true'' (JBool True) (c # r)
        else if c = CHR ''f'' then parse_lit ''false'' (JBool False) (c # r)
        else if c = CHR ''n'' then parse_lit ''null'' JNull (c # r)
        else parse_num (c # r))"
| "parse_items 0 s = None"
| "parse_items (Suc n) s =
     (case parse_value n s of None \<Rightarrow> None | Some (v, r) \<Rightarrow>
        (case skip_ws r of [] \<Rightarrow> None | c # r' \<Rightarrow>
           if c = CHR '']'' then Some ([v], r')
           else if c = CHR '','' then map_option (\<lambda>(vs, r''). (v # vs, r'')) (parse_items n r')
           else None))"
| "parse_fields 0 s = None"
| "parse_fields (Suc n) s =
     (case skip_ws s of [] \<Rightarrow> None | q # s' \<Rightarrow>
        if q \<noteq> CHR 0x22 then None
        else (case parse_str s' of None \<Rightarrow> None | Some (k, r) \<Rightarrow>
          (case skip_ws r of [] \<Rightarrow> None | c # r' \<Rightarrow>
             if c \<noteq> CHR '':'' then None
             else (case parse_value n r' of None \<Rightarrow> None | Some (v, r2) \<Rightarrow>
               (case skip_ws r2 of [] \<Rightarrow> None | d # r3 \<Rightarrow>
                  if d = CHR ''}'' then Some ([(k, v)], r3)
                  else if d = CHR '','' then map_option (\<lambda>(fs, r4). ((k, v) # fs, r4)) (parse_fields n r3)
                  else None)))))"

text \<open>\<open>Decoder.Decode\<close> reads the first value of a stream; \<open>Unmarshal\<close> and \<open>JSON.parse\<close> want nothing after it.\<close>

definition parse_first :: "string \<Rightarrow> json option" where
  "parse_first s = map_option fst (parse_value (Suc (length s)) s)"

definition Unmarshal :: "string \<Rightarrow> json option" where
  "Unmarshal s = (case parse_value (Suc (length s)) s of
     Some (v, r) \<Rightarrow> if skip_ws r = [] then Some v else None
   | None \<Rightarrow> None)"

section \<open>The parsers consume input and have fuel enough\<close>

lemma skip_ws_length: "length (skip_ws s) \<le> length s"
  by (simp add: skip_ws_def length_dropWhile_le)

lemma skip_ws_Cons: "skip_ws s = c # r \<Longrightarrow> length r < length s"
  using skip_ws_length [of s] by simp

lemma parse_str_Nil [simp]: "parse_str [] = None"
  by (subst parse_str.simps) simp

lemma parse_str_quote [simp]: "parse_str (CHR 0x22 # r) = Some ([], r)"
  by (subst parse_str.simps) simp

lemma parse_str_esc [simp]:
  "parse_str (CHR 0x5C # r) =
     (case unescape r of None \<Rightarrow> None
      | Some (b, r') \<Rightarrow> map_option (\<lambda>(t, r''). (b @ t, r'')) (parse_str r'))"
  by (subst parse_str.simps) simp

lemma parse_str_plain:
  "\<lbrakk>c \<noteq> CHR 0x22; c \<noteq> CHR 0x5C\<rbrakk> \<Longrightarrow>
   parse_str (c # r) =
     (if ord c < 32 then None else map_option (\<lambda>(t, r'). (c # t, r')) (parse_str r))"
  by (subst parse_str.simps) simp

lemma parse_str_length: "parse_str s = Some (t, r) \<Longrightarrow> length r < length s"
proof (induction "length s" arbitrary: s t r rule: less_induct)
  case less
  show ?case
  proof (cases s)
    case Nil
    with less.prems show ?thesis by simp
  next
    case (Cons c s')
    consider "c = CHR 0x22" | "c = CHR 0x5C" | "c \<noteq> CHR 0x22" "c \<noteq> CHR 0x5C" by blast
    then show ?thesis
    proof cases
      case 1
      with Cons less.prems show ?thesis by simp
    next
      case 2
      with Cons less.prems obtain b s'' u where
        u: "unescape s' = Some (b, s'')" and p: "parse_str s'' = Some (u, r)"
        by (auto split: option.splits)
      from unescape_length [OF u] Cons have "length s'' < length s" by simp
      from less.hyps [OF this p] this show ?thesis by simp
    next
      case 3
      with Cons less.prems obtain u where p: "parse_str s' = Some (u, r)"
        by (auto simp: parse_str_plain split: if_splits)
      from Cons have "length s' < length s" by simp
      from less.hyps [OF this p] this show ?thesis by simp
    qed
  qed
qed

lemma parse_lit_length: "parse_lit w v s = Some (x, r) \<Longrightarrow> w \<noteq> [] \<Longrightarrow> length r < length s"
  by (auto simp: parse_lit_def HasPrefix_def prefix_def split: if_splits)

lemma valid_num_Nil [simp]: "\<not> valid_num []"
  by (simp add: valid_num_def TrimPrefix_def HasPrefix_def)

lemma parse_num_length:
  assumes "parse_num s = Some (x, r)"
  shows "length r < length s"
proof -
  from assms have r: "r = dropWhile num_char s" and "takeWhile num_char s \<noteq> []"
    by (auto simp: parse_num_def Let_def split: if_splits)
  then have "num_char (hd s)" "s \<noteq> []" by (cases s; auto split: if_splits)+
  with r show ?thesis
    by (cases s) (auto simp: le_imp_less_Suc length_dropWhile_le)
qed

lemma parse_length:
  "parse_value n s = Some (v, r) \<Longrightarrow> length r < length s"
  "parse_items n s = Some (vs, r) \<Longrightarrow> length r < length s"
  "parse_fields n s = Some (fs, r) \<Longrightarrow> length r < length s"
proof (induction n s and n s and n s arbitrary: v r and vs r and fs r
    rule: parse_value_parse_items_parse_fields.induct)
  case (2 n s)
  obtain c s' where s: "skip_ws s = c # s'" and l: "length s' < length s"
    using "2.prems" skip_ws_Cons by (auto split: list.splits)
  have lw: "length (skip_ws s') \<le> length s'" by (rule skip_ws_length)
  have "length r < Suc (length s')"
    using "2.prems" "2.IH" [OF s] lw unfolding parse_value.simps s
    by (auto split: if_splits dest!: parse_str_length parse_lit_length parse_num_length
        simp: less_Suc_eq)
  with l s skip_ws_length [of s] show ?case by simp
next
  case (4 n s)
  then show ?case
    by (fastforce split: option.splits prod.splits list.splits if_splits dest!: skip_ws_Cons)
next
  case (6 n s)
  obtain q s' where s: "skip_ws s = q # s'" "length s' < length s"
    using "6.prems" skip_ws_Cons by (auto split: list.splits)
  with "6.prems" obtain k a where k: "q = CHR 0x22" "parse_str s' = Some (k, a)" "length a < length s'"
    by (auto split: if_splits option.splits dest: parse_str_length)
  with "6.prems" s obtain a' where a: "skip_ws a = CHR '':'' # a'" "length a' < length a"
    using skip_ws_Cons by (auto split: if_splits list.splits)
  with "6.prems" s k obtain v b where v: "parse_value n a' = Some (v, b)"
    by (auto split: option.splits)
  from "6.IH"(1) [OF s(1) _ k(2) _ a(1) _ v] k(1) have b: "length b < length a'" by simp
  with "6.prems" s k a v obtain d c where d: "skip_ws b = d # c" "length c < length b"
    using skip_ws_Cons by (auto split: list.splits)
  have "length r \<le> length c"
    using "6.prems" "6.IH"(2) [OF s(1) _ k(2) _ a(1) _ v _ d(1)] s(1) k a(1) v d(1)
    by (force split: if_splits dest: less_imp_le)
  with s k a b d show ?case by simp
qed simp_all

section \<open>Printed values parse back\<close>

lemma hex_val_hex_digit [simp]: "n < 16 \<Longrightarrow> hex_val (hex_digit n) = Some n"
  by (auto simp: hex_val_def hex_digit_def is_digit_def ord_char_of)

lemma hex_val_zero [simp]: "hex_val CHR ''0'' = Some 0"
  by (simp add: hex_val_def is_digit_def)

lemma unescape_esc_u:
  assumes "ord c < 128"
  shows "unescape (tl (esc_u c) @ r) = Some ([c], r)"
proof -
  have "ord c div 16 < 16" by (rule ord_div_bounds)
  then have "hex4 (CHR ''0'' # CHR ''0'' # hex_digit (ord c div 16) # hex_digit (ord c mod 16) # r)
      = Some (ord c, r)"
    by simp
  with assms show ?thesis
    by (simp add: unescape_def esc_u_def unescape_u_def utf8_def)
qed

lemma ord_eq_char: "ord d = n \<Longrightarrow> ord c = n \<longleftrightarrow> c = d"
  by auto

lemma ord_special:
  "ord c = 34 \<longleftrightarrow> c = CHR 0x22" "ord c = 92 \<longleftrightarrow> c = CHR 0x5C" "ord c = 8 \<longleftrightarrow> c = CHR 0x08"
  "ord c = 12 \<longleftrightarrow> c = CHR 0x0C" "ord c = 10 \<longleftrightarrow> c = CHR 0x0A" "ord c = 13 \<longleftrightarrow> c = CHR 0x0D"
  "ord c = 9 \<longleftrightarrow> c = CHR 0x09"
  by (rule ord_eq_char, simp)+

lemma parse_esc_char:
  "parse_str (esc_char html c @ r) = map_option (\<lambda>(t, r'). (c # t, r')) (parse_str r)"
proof -
  have u: "parse_str (esc_u c @ r) = map_option (\<lambda>(t, r'). (c # t, r')) (parse_str r)"
    if "ord c < 128"
  proof -
    have eq: "esc_u c @ r = CHR 0x5C # tl (esc_u c) @ r" by (simp add: esc_u_def)
    show ?thesis
      unfolding eq parse_str_esc unescape_esc_u [OF that] by simp
  qed
  consider "c = CHR 0x22" | "c = CHR 0x5C" | "c = CHR 0x08" | "c = CHR 0x0C" | "c = CHR 0x0A"
    | "c = CHR 0x0D" | "c = CHR 0x09"
    | (plain) "c \<notin> {CHR 0x22, CHR 0x5C, CHR 0x08, CHR 0x0C, CHR 0x0A, CHR 0x0D, CHR 0x09}" by blast
  then show ?thesis
  proof cases
    case plain
    then have ne: "c \<noteq> CHR 0x22" "c \<noteq> CHR 0x5C" by auto
    show ?thesis
      using plain u by (auto simp: esc_char_def ord_special parse_str_plain [OF ne])
  qed (simp_all add: esc_char_def unescape_def)
qed

lemma parse_str_print:
  "parse_str (concat (map (esc_char html) s) @ CHR 0x22 # r) = Some (s, r)"
  by (induction s) (simp_all add: parse_esc_char)

lemma parse_print_str: "parse_str (tl (print_str html s) @ r) = Some (s, r)"
  by (simp add: print_str_def parse_str_print)

definition wf_num :: "string \<Rightarrow> bool" where
  "wf_num lit \<longleftrightarrow> valid_num lit \<and> list_all num_char lit"

fun wf_json :: "json \<Rightarrow> bool" where
  "wf_json (JNum lit) \<longleftrightarrow> wf_num lit"
| "wf_json (JArr vs) \<longleftrightarrow> (\<forall>v \<in> set vs. wf_json v)"
| "wf_json (JObj fs) \<longleftrightarrow> (\<forall>f \<in> set fs. wf_json (snd f))"
| "wf_json _ \<longleftrightarrow> True"

definition no_num :: "string \<Rightarrow> bool" where
  "no_num r \<longleftrightarrow> (case r of [] \<Rightarrow> True | c # _ \<Rightarrow> \<not> num_char c)"

lemma no_num_simps [simp]:
  "no_num []" "no_num (CHR '','' # r)" "no_num (CHR '']'' # r)" "no_num (CHR ''}'' # r)"
  by (simp_all add: no_num_def num_char_def is_digit_def)

lemma takeWhile_num: "list_all num_char lit \<Longrightarrow> no_num r \<Longrightarrow>
    takeWhile num_char (lit @ r) = lit \<and> dropWhile num_char (lit @ r) = r"
  by (induction lit) (auto simp: no_num_def split: list.splits)

lemma parse_num_print: "wf_num lit \<Longrightarrow> no_num r \<Longrightarrow> parse_num (lit @ r) = Some (JNum lit, r)"
  by (simp add: parse_num_def wf_num_def takeWhile_num)

lemma skip_ws_not [simp]: "\<not> json_ws c \<Longrightarrow> skip_ws (c # r) = c # r"
  by (simp add: skip_ws_def)

lemma json_ws_false [simp]:
  "\<not> json_ws CHR 0x22" "\<not> json_ws CHR '',''" "\<not> json_ws CHR '']''" "\<not> json_ws CHR ''}''"
  "\<not> json_ws CHR ''[''" "\<not> json_ws CHR ''{''" "\<not> json_ws CHR '':''" "\<not> json_ws CHR ''t''"
  "\<not> json_ws CHR ''f''" "\<not> json_ws CHR ''n''"
  by (simp_all add: json_ws_def)

lemma wf_num_hd:
  assumes "wf_num lit"
  shows "lit \<noteq> []" "num_char (hd lit)"
  using assms by (cases lit; auto simp: wf_num_def)+

lemma num_char_cases:
  assumes "num_char c"
  shows "\<not> json_ws c" "c \<notin> set (CHR 0x22 # ''[{tfn'')"
  using assms by (auto simp: num_char_def is_digit_def json_ws_def)

lemma parse_value_num:
  assumes "num_char c"
  shows "parse_value (Suc n) (c # r) = parse_num (c # r)"
  using num_char_cases [OF assms] by simp

lemma print_json_hd:
  assumes "wf_json v"
  shows "\<exists>c l. print_json html v = c # l \<and> \<not> json_ws c \<and> c \<noteq> CHR '']''"
proof (cases v)
  case (JNum lit)
  with assms obtain c l where "lit = c # l" "num_char c"
    using wf_num_hd [of lit] by (cases lit) auto
  moreover from this have "c \<noteq> CHR '']''" by (auto simp: num_char_def is_digit_def)
  ultimately show ?thesis using JNum num_char_cases [of c] by simp
qed (simp_all add: print_str_def)

lemma print_items_hd:
  assumes "\<forall>v \<in> set vs. wf_json v" "vs \<noteq> []"
  shows "\<exists>c l. print_items html vs = c # l \<and> \<not> json_ws c \<and> c \<noteq> CHR '']''"
proof -
  obtain v ws where vs: "vs = v # ws" using assms(2) by (cases vs) auto
  with assms(1) print_json_hd [of v html] show ?thesis by (cases ws) auto
qed

lemma print_fields_hd:
  "fs \<noteq> [] \<Longrightarrow> \<exists>l. print_fields html fs = CHR 0x22 # l"
  by (cases "(html, fs)" rule: print_fields.cases) (auto simp: print_str_def)

lemma HasPrefix_Cons [simp]: "HasPrefix (c # s) [d] \<longleftrightarrow> c = d"
  by (auto simp: HasPrefix_def)

lemma parse_value_print:
  "\<lbrakk>wf_json v; no_num r; length (print_json html v) < n\<rbrakk> \<Longrightarrow>
     parse_value n (print_json html v @ r) = Some (v, r)"
  "\<lbrakk>\<forall>v \<in> set vs. wf_json v; vs \<noteq> []; length (print_items html vs) < n\<rbrakk> \<Longrightarrow>
     parse_items n (print_items html vs @ r) = Some (vs, r)"
  "\<lbrakk>\<forall>f \<in> set fs. wf_json (snd f); fs \<noteq> []; length (print_fields html fs) < n\<rbrakk> \<Longrightarrow>
     parse_fields n (print_fields html fs @ r) = Some (fs, r)"
proof (induction html v and html vs and html fs arbitrary: n r and n r and n r
    rule: print_json_print_items_print_fields.induct)
  case (1 html)
  then show ?case by (cases n) (simp_all add: parse_lit_def HasPrefix_def)
next
  case (2 html b)
  then show ?case by (cases n) (auto simp: parse_lit_def HasPrefix_def)
next
  case (3 html lit)
  then obtain c l where lit: "lit = c # l" "num_char c"
    using wf_num_hd [of lit] by (cases lit) auto
  with 3 obtain m where "n = Suc m" by (cases n) auto
  with 3 lit show ?case
    using parse_value_num [OF lit(2), of m "l @ r"] parse_num_print [of lit r] by simp
next
  case (4 html s)
  then obtain m where "n = Suc m" by (cases n) auto
  then show ?case
    using parse_print_str [of html s r] by (simp add: print_str_def)
next
  case (5 html vs)
  then obtain m where m: "n = Suc m" "length (print_items html vs) < m" by (cases n) auto
  show ?case
  proof (cases "vs = []")
    case False
    with 5 obtain c l where "print_items html vs = c # l" "\<not> json_ws c" "c \<noteq> CHR '']''"
      using print_items_hd [of vs html] by auto
    then have "\<not> HasPrefix (skip_ws (print_items html vs @ r)) '']''" by simp
    with False 5 m show ?thesis by simp
  qed (use m in simp)
next
  case (6 html fs)
  then obtain m where m: "n = Suc m" "length (print_fields html fs) < m" by (cases n) auto
  show ?case
  proof (cases "fs = []")
    case False
    with print_fields_hd [of fs html] have "\<not> HasPrefix (skip_ws (print_fields html fs @ r)) ''}''"
      by auto
    with False 6 m show ?thesis by simp
  qed (use m in simp)
next
  case (8 html v)
  then obtain m where "n = Suc m" by (cases n) auto
  with 8 show ?case by simp
next
  case (9 html v w vs)
  then obtain m where "n = Suc m" by (cases n) auto
  with 9 show ?case by simp
next
  case (11 html k v)
  then obtain m where "n = Suc m" by (cases n) auto
  with 11 show ?case
    using parse_print_str [of html k] by (simp add: print_str_def)
next
  case (12 html k v f fs)
  then obtain m where "n = Suc m" by (cases n) auto
  with 12 show ?case
    using parse_print_str [of html k] by (simp add: print_str_def)
qed simp_all

lemma parse_first_print:
  "wf_json v \<Longrightarrow> no_num r \<Longrightarrow> parse_first (print_json html v @ r) = Some v"
  by (simp add: parse_first_def parse_value_print del: parse_value.simps)

lemma Unmarshal_print:
  assumes "wf_json v" "list_all json_ws r"
  shows "Unmarshal (print_json html v @ r) = Some v"
proof -
  have "no_num r"
    using assms(2) num_char_cases(1) by (cases r) (auto simp: no_num_def)
  moreover have "skip_ws r = []" using assms(2) by (simp add: skip_ws_def list_all_iff)
  ultimately show ?thesis using assms(1) by (simp add: Unmarshal_def parse_value_print del: parse_value.simps)
qed

interpretation go_json: codec Marshal Unmarshal wf_json
  by unfold_locales (use Unmarshal_print [of _ "[]"] in \<open>simp add: Marshal_def\<close>)

interpretation js_json: codec stringify Unmarshal wf_json
  by unfold_locales (use Unmarshal_print [of _ "[]"] in \<open>simp add: stringify_def\<close>)

section \<open>Integers\<close>

lemma show_nat_hd_zero: "hd (show_nat n) = CHR ''0'' \<longleftrightarrow> n = 0"
proof (induction n rule: show_nat.induct)
  case (1 n)
  show ?case
  proof (cases "n < 10")
    case True
    then show ?thesis
      by (subst show_nat.simps) (auto simp: char_eq_iff_ord ord_digit_char)
  next
    case False
    with 1 show ?thesis
      by (subst show_nat.simps) (simp add: hd_append)
  qed
qed

lemma show_nat_one: "n < 10 \<Longrightarrow> length (show_nat n) = 1"
  by (subst show_nat.simps) simp

lemma takeWhile_all: "list_all P xs \<Longrightarrow> takeWhile P xs = xs"
  by (simp add: list_all_iff)

lemma valid_num_show_nat:
  assumes "u = show_nat n"
  shows "takeWhile is_digit u = u" "dropWhile is_digit u = []" "u \<noteq> []"
    "length u = 1 \<or> hd u \<noteq> CHR ''0''"
  using assms show_nat_digits [of n] show_nat_hd_zero [of n] show_nat_one [of n]
  by (auto simp: takeWhile_all list_all_iff)

lemma wf_num_Itoa [simp, wf_intros]: "wf_num (Itoa i)"
proof (cases "i < 0")
  case True
  then show ?thesis
    using valid_num_show_nat(4) [OF refl, of "nat (- i)"] show_nat_digits [of "nat (- i)"]
    by (simp add: wf_num_def valid_num_def Itoa_def TrimPrefix_def num_char_def list_all_iff Let_def
        valid_num_show_nat(1-3) [OF refl])
next
  case False
  have "hd (show_nat (nat i)) \<noteq> CHR ''-''"
    using show_nat_hd_digit [of "nat i"] by auto
  then have "\<not> HasPrefix (show_nat (nat i)) ''-''"
    by (cases "show_nat (nat i)") auto
  with False show ?thesis
    using valid_num_show_nat(4) [OF refl, of "nat i"] show_nat_digits [of "nat i"]
    by (simp add: wf_num_def valid_num_def Itoa_def TrimPrefix_def num_char_def list_all_iff Let_def
        valid_num_show_nat(1-3) [OF refl])
qed

definition JInt :: "int \<Rightarrow> json" where
  "JInt i = JNum (Itoa i)"

lemma wf_JInt [simp]: "wf_json (JInt i)"
  by (simp add: JInt_def)

section \<open>Sizes\<close>

definition plain_str :: "string \<Rightarrow> bool" where
  "plain_str s \<longleftrightarrow> list_all (\<lambda>c. esc_char True c = [c]) s"

lemma print_plain: "plain_str s \<Longrightarrow> print_str True s = CHR 0x22 # s @ [CHR 0x22]"
proof -
  assume "plain_str s"
  then have "concat (map (esc_char True) s) = s"
    by (induction s) (simp_all add: plain_str_def)
  then show ?thesis by (simp add: print_str_def)
qed

lemma plain_EncodeToString [simp]: "plain_str (EncodeToString bs)"
proof -
  have "esc_char True c = [c]" if "c \<in> set (EncodeToString bs)" for c
    using EncodeToString_plain [OF that] by (simp add: esc_char_def)
  then show ?thesis by (simp add: plain_str_def list_all_iff)
qed

lemma plain_Nil [simp]: "plain_str []"
  by (simp add: plain_str_def)

lemma length_show_nat: "n < 10 ^ Suc k \<Longrightarrow> length (show_nat n) \<le> Suc k"
proof (induction k arbitrary: n)
  case 0
  then show ?case by (simp add: show_nat_eval)
next
  case (Suc k)
  show ?case
  proof (cases "n < 10")
    case False
    have "n div 10 < 10 ^ Suc k" using Suc.prems by (simp add: less_mult_imp_div_less mult.commute)
    with Suc.IH [of "n div 10"] False show ?thesis by (simp add: show_nat_eval)
  qed (simp add: show_nat_eval)
qed

lemma length_Itoa:
  assumes "min_int64 \<le> i" "i \<le> max_int64"
  shows "length (Itoa i) \<le> 20"
proof -
  have "nat i < 10 ^ Suc 18" "nat (- i) < 10 ^ Suc 18"
    using assms by (auto simp: min_int64_def max_int64_def)
  from this [THEN length_show_nat] show ?thesis by (auto simp: Itoa_def)
qed

end
