(* ===== verification/Errors.thy ===== *)
theory Errors
  imports Go_Strings
begin

text \<open>
  \<open>internal/errors/errors.go\<close>: the classified error type, its rendering, the walks along a chain of
  causes and the mapping to process exit codes. Errors of the standard library enter as
  \<open>StdErr\<close>, tagged with what \<open>os.IsNotExist\<close> and \<open>os.IsPermission\<close> answer on them;
  \<open>FmtErr\<close> is \<open>fmt.Errorf\<close> with a \<open>%w\<close> verb.
\<close>

section \<open>Kinds\<close>

datatype Kind =
    KindUnknown | KindUsage | KindConfig | KindValidation | KindPermission
  | KindNotFound | KindStorage | KindUnsupported | KindInternal

fun Kind_String :: "Kind \<Rightarrow> string" where
  "Kind_String KindUsage = ''usage''"
| "Kind_String KindConfig = ''config''"
| "Kind_String KindValidation = ''validation''"
| "Kind_String KindPermission = ''permission''"
| "Kind_String KindNotFound = ''not_found''"
| "Kind_String KindStorage = ''storage''"
| "Kind_String KindUnsupported = ''unsupported''"
| "Kind_String KindInternal = ''internal''"
| "Kind_String KindUnknown = ''unknown''"

lemma Kind_String_inject: "Kind_String j = Kind_String k \<longleftrightarrow> j = k"
  by (cases j; cases k) simp_all

section \<open>Errors\<close>

datatype os_class = NotExist | PermDenied | OtherOS

datatype go_error =
    StdErr os_class string
  | FmtErr string go_error
  | IPErr (err_Op: string) (err_Kind: Kind) (err_Msg: string) (err_Err: "go_error option")

definition err_fallback :: "string \<Rightarrow> string \<Rightarrow> string" where
  "err_fallback s dflt = (if s = [] then dflt else s)"

fun Error :: "go_error \<Rightarrow> string" where
  "Error (StdErr _ m) = m"
| "Error (FmtErr m _) = m"
| "Error (IPErr op k m c) =
     (case c of
        None \<Rightarrow> (if m = [] then ''unspecified error in '' @ err_fallback op ''unknown operation'' else m)
      | Some e \<Rightarrow> (if m = [] then Error e else m @ '': '' @ Error e))"

definition New :: "Kind \<Rightarrow> string \<Rightarrow> string \<Rightarrow> go_error" where
  "New k op m = IPErr op k m None"

text \<open>\<open>Wrap\<close> and \<open>Wrapf\<close> return nil on a nil cause.\<close>

definition Wrap :: "Kind \<Rightarrow> string \<Rightarrow> string \<Rightarrow> go_error option \<Rightarrow> go_error option" where
  "Wrap k op m c = (case c of None \<Rightarrow> None | Some e \<Rightarrow> Some (IPErr op k m (Some e)))"

abbreviation wrap_err :: "Kind \<Rightarrow> string \<Rightarrow> string \<Rightarrow> go_error \<Rightarrow> go_error" where
  "wrap_err k op m e \<equiv> IPErr op k m (Some e)"

fun IsNotExist :: "go_error \<Rightarrow> bool" where
  "IsNotExist (StdErr NotExist _) = True"
| "IsNotExist _ = False"

fun IsPermission :: "go_error \<Rightarrow> bool" where
  "IsPermission (StdErr PermDenied _) = True"
| "IsPermission _ = False"

text \<open>\<open>errors.As(err, &e)\<close> with \<open>e *Error\<close>: the outermost InfraPilot error of the chain.\<close>

fun as_Error :: "go_error \<Rightarrow> go_error option" where
  "as_Error (StdErr _ _) = None"
| "as_Error (FmtErr _ e) = as_Error e"
| "as_Error (IPErr op k m c) = Some (IPErr op k m c)"

lemma as_Error_Some:
  "as_Error err = Some e \<Longrightarrow> \<exists>op k m c. e = IPErr op k m c \<and> size e \<le> size err"
  by (induction err) (force split: option.splits)+

lemma as_Error_cause_smaller:
  assumes "as_Error err = Some e" "err_Err e = Some c"
  shows "size c < size err"
proof -
  from as_Error_Some [OF assms(1)] obtain op k m c' where
    e: "e = IPErr op k m c'" and le: "size e \<le> size err" by blast
  with assms(2) have "size c < size e" by simp
  with le show ?thesis by simp
qed

section \<open>Walking the chain\<close>

function KindOf :: "go_error option \<Rightarrow> Kind" where
  "KindOf None = KindUnknown"
| "KindOf (Some err) =
     (case as_Error err of
        None \<Rightarrow> KindUnknown
      | Some e \<Rightarrow> if err_Kind e \<noteq> KindUnknown then err_Kind e else KindOf (err_Err e))"
  by pat_completeness auto
termination
proof (relation "measure (\<lambda>x. case x of None \<Rightarrow> 0 | Some e \<Rightarrow> Suc (size e))", goal_cases)
  case (2 err e)
  then show ?case
    using as_Error_cause_smaller by (auto split: option.splits)
qed simp

definition IsKind :: "go_error option \<Rightarrow> Kind \<Rightarrow> bool" where
  "IsKind err k \<longleftrightarrow> KindOf err = k"

definition OpOf :: "go_error option \<Rightarrow> string" where
  "OpOf err = (case err of None \<Rightarrow> []
     | Some e \<Rightarrow> (case as_Error e of None \<Rightarrow> [] | Some x \<Rightarrow> err_Op x))"

function chain_ops :: "go_error option \<Rightarrow> string list" where
  "chain_ops None = []"
| "chain_ops (Some err) =
     (case as_Error err of
        None \<Rightarrow> []
      | Some e \<Rightarrow> (if err_Op e \<noteq> [] then [err_Op e] else []) @ chain_ops (err_Err e))"
  by pat_completeness auto
termination
proof (relation "measure (\<lambda>x. case x of None \<Rightarrow> 0 | Some e \<Rightarrow> Suc (size e))", goal_cases)
  case (2 err e)
  then show ?case
    using as_Error_cause_smaller by (auto split: option.splits)
qed simp

definition Chain :: "go_error option \<Rightarrow> string" where
  "Chain err = Join (chain_ops err) '' <- ''"

section \<open>Exit codes\<close>

definition ExitOK :: int where "ExitOK = 0"
definition ExitFailure :: int where "ExitFailure = 1"
definition ExitUsage :: int where "ExitUsage = 2"

definition ExitCode :: "go_error option \<Rightarrow> int" where
  "ExitCode err =
     (if err = None then ExitOK
      else if IsKind err KindUsage then ExitUsage else ExitFailure)"

lemmas exit_codes = ExitOK_def ExitFailure_def ExitUsage_def

section \<open>Lemmas\<close>

lemma KindOf_New [simp]: "KindOf (Some (IPErr op k m None)) = k"
  by simp

lemma KindOf_wrap [simp]:
  "KindOf (Some (IPErr op k m (Some e))) = (if k \<noteq> KindUnknown then k else KindOf (Some e))"
  by simp

lemma KindOf_StdErr [simp]: "KindOf (Some (StdErr c m)) = KindUnknown"
  by simp

declare KindOf.simps(2) [simp del]

lemma KindOf_FmtErr [simp]: "KindOf (Some (FmtErr m e)) = KindOf (Some e)"
  by (simp add: KindOf.simps(2))

lemma KindOf_New' [simp]: "KindOf (Some (New k op m)) = k"
  by (simp add: New_def)

lemma chain_ops_IPErr [simp]:
  "chain_ops (Some (IPErr op k m c)) = (if op \<noteq> [] then [op] else []) @ chain_ops c"
  by simp

lemma chain_ops_StdErr [simp]: "chain_ops (Some (StdErr c m)) = []"
  by simp

declare chain_ops.simps(2) [simp del]

lemma chain_ops_FmtErr [simp]: "chain_ops (Some (FmtErr m e)) = chain_ops (Some e)"
  by (simp add: chain_ops.simps(2))

lemma Error_New [simp]: "m \<noteq> [] \<Longrightarrow> Error (New k op m) = m"
  by (simp add: New_def)

lemma Wrap_None [simp]: "Wrap k op m None = None"
  by (simp add: Wrap_def)

lemma ExitCode_range: "ExitCode err \<in> {ExitOK, ExitFailure, ExitUsage}"
  by (simp add: ExitCode_def)

lemma ExitCode_zero_iff: "ExitCode err = ExitOK \<longleftrightarrow> err = None"
  by (auto simp: ExitCode_def exit_codes)

text \<open>Two errors that differ only in the operations they record.\<close>

fun same_but_ops :: "go_error \<Rightarrow> go_error \<Rightarrow> bool" where
  "same_but_ops (StdErr c m) e' \<longleftrightarrow> e' = StdErr c m"
| "same_but_ops (FmtErr m e) e' \<longleftrightarrow> (\<exists>e2. e' = FmtErr m e2 \<and> same_but_ops e e2)"
| "same_but_ops (IPErr op k m None) e' \<longleftrightarrow> (\<exists>op'. e' = IPErr op' k m None)"
| "same_but_ops (IPErr op k m (Some e)) e' \<longleftrightarrow>
     (\<exists>op' e2. e' = IPErr op' k m (Some e2) \<and> same_but_ops e e2)"

text \<open>No node of the chain is an InfraPilot error with neither a message nor a cause.\<close>

fun has_message :: "go_error \<Rightarrow> bool" where
  "has_message (StdErr c m) \<longleftrightarrow> True"
| "has_message (FmtErr m e) \<longleftrightarrow> True"
| "has_message (IPErr op k m None) \<longleftrightarrow> m \<noteq> []"
| "has_message (IPErr op k m (Some e)) \<longleftrightarrow> has_message e"

lemma Error_ignores_ops:
  "same_but_ops e e' \<Longrightarrow> has_message e \<Longrightarrow> Error e = Error e'"
  by (induction e e' rule: same_but_ops.induct) auto

lemma KindOf_ignores_ops: "same_but_ops e e' \<Longrightarrow> KindOf (Some e) = KindOf (Some e')"
  by (induction e e' rule: same_but_ops.induct) auto

text \<open>A chain of wraps, outermost first, around a base error.\<close>

fun wrap_all :: "(Kind \<times> string \<times> string) list \<Rightarrow> go_error \<Rightarrow> go_error" where
  "wrap_all [] e = e"
| "wrap_all ((k, op, m) # ws) e = wrap_err k op m (wrap_all ws e)"

lemma KindOf_wrap_all:
  "KindOf (Some (wrap_all ws e)) =
     (case List.find (\<lambda>k. k \<noteq> KindUnknown) (map fst ws) of Some k \<Rightarrow> k | None \<Rightarrow> KindOf (Some e))"
  by (induction ws e rule: wrap_all.induct) auto

lemma chain_ops_wrap_all:
  "chain_ops (Some (wrap_all ws e)) =
     filter (\<lambda>op. op \<noteq> []) (map (fst \<circ> snd) ws) @ chain_ops (Some e)"
  by (induction ws e rule: wrap_all.induct) auto

section \<open>Properties\<close>

text \<open>
  Wrapping never hides what failed: the kind of a chain of wraps is the outermost kind that says anything,
  else that of the base error; the process exits 2 exactly when that kind is a usage error; and the log
  chain lists the recorded operations from the outermost in.
\<close>

theorem wrapping_keeps_classification:
  "KindOf (Some (wrap_all ws e)) =
     (case List.find (\<lambda>k. k \<noteq> KindUnknown) (map fst ws) of Some k \<Rightarrow> k | None \<Rightarrow> KindOf (Some e))
   \<and> (ExitCode (Some (wrap_all ws e)) = ExitUsage \<longleftrightarrow> KindOf (Some (wrap_all ws e)) = KindUsage)
   \<and> Chain (Some (wrap_all ws e)) =
       Join (filter (\<lambda>op. op \<noteq> []) (map (fst \<circ> snd) ws) @ chain_ops (Some e)) '' <- ''"
  by (simp add: KindOf_wrap_all ExitCode_def IsKind_def Chain_def chain_ops_wrap_all exit_codes)

text \<open>
  What a user sees of an error does not depend on the internal operation names it records, nor does its
  kind, as long as each InfraPilot error of the chain has a message or a cause to show.
\<close>

theorem error_text_hides_operations:
  assumes "same_but_ops e e'" "has_message e"
  shows "Error e = Error e' \<and> KindOf (Some e) = KindOf (Some e') \<and> ExitCode (Some e) = ExitCode (Some e')"
  using Error_ignores_ops [OF assms] KindOf_ignores_ops [OF assms(1)] by (simp add: ExitCode_def IsKind_def)

theorem error_text_hides_operations_witness:
  "Error (wrap_err KindConfig ''a'' ''m'' (StdErr OtherOS ''x'')) = Error (wrap_err KindConfig ''b'' ''m'' (StdErr OtherOS ''x''))"
  using error_text_hides_operations [of "wrap_err KindConfig ''a'' ''m'' (StdErr OtherOS ''x'')"
      "wrap_err KindConfig ''b'' ''m'' (StdErr OtherOS ''x'')"] by simp

end
