(* ===== verification/Paths.thy ===== *)
theory Paths
  imports Errors
begin

text \<open>
  \<open>internal/system/paths.go\<close> over the part of \<open>path/filepath\<close> it uses: where configuration and
  state live, and the guard that keeps a configured file name inside the data directory.
\<close>

section \<open>Package filepath\<close>

definition IsAbs :: "string \<Rightarrow> bool" where
  "IsAbs p \<longleftrightarrow> HasPrefix p ''/''"

text \<open>The components of a path, without empty ones and \<open>.\<close>.\<close>

definition path_comps :: "string \<Rightarrow> string list" where
  "path_comps p = filter (\<lambda>c. c \<noteq> [] \<and> c \<noteq> ''.'') (Split p CHR ''/'')"

text \<open>\<open>..\<close> pops a component; at a root it is dropped, at a relative start it stays. The stack is reversed.\<close>

fun clean_stack :: "bool \<Rightarrow> string list \<Rightarrow> string list \<Rightarrow> string list" where
  "clean_stack rooted st [] = st"
| "clean_stack rooted st (c # cs) =
     (if c = ''..'' then
        (case st of
           t # st' \<Rightarrow> if t = ''..'' then clean_stack rooted (c # st) cs else clean_stack rooted st' cs
         | [] \<Rightarrow> if rooted then clean_stack rooted [] cs else clean_stack rooted [c] cs)
      else clean_stack rooted (c # st) cs)"

definition clean_comps :: "string \<Rightarrow> string list" where
  "clean_comps p = rev (clean_stack (IsAbs p) [] (path_comps p))"

definition Clean :: "string \<Rightarrow> string" where
  "Clean p =
     (if IsAbs p then ''/'' @ Join (clean_comps p) ''/''
      else if clean_comps p = [] then ''.'' else Join (clean_comps p) ''/'')"

definition join_path :: "string \<Rightarrow> string \<Rightarrow> string" where
  "join_path a b =
     (if a \<noteq> [] then Clean (a @ ''/'' @ b) else if b \<noteq> [] then Clean b else [])"

definition Dir :: "string \<Rightarrow> string" where
  "Dir p = Clean (rev (dropWhile (\<lambda>c. c \<noteq> CHR ''/'') (rev p)))"

definition Base :: "string \<Rightarrow> string" where
  "Base p =
     (if p = [] then ''.''
      else (let q = rev (dropWhile (\<lambda>c. c = CHR ''/'') (rev p))
            in if q = [] then ''/'' else rev (takeWhile (\<lambda>c. c \<noteq> CHR ''/'') (rev q))))"

section \<open>Quoting\<close>

definition quote_char :: "char \<Rightarrow> string" where
  "quote_char c =
     (if ord c = 34 \<or> ord c = 92 then [CHR 0x5C, c]
      else if ord c = 7 then [CHR 0x5C, CHR ''a''] else if ord c = 8 then [CHR 0x5C, CHR ''b'']
      else if ord c = 12 then [CHR 0x5C, CHR ''f''] else if ord c = 10 then [CHR 0x5C, CHR ''n'']
      else if ord c = 13 then [CHR 0x5C, CHR ''r''] else if ord c = 9 then [CHR 0x5C, CHR ''t'']
      else if ord c = 11 then [CHR 0x5C, CHR ''v'']
      else [c])"

text \<open>\<open>strconv.Quote\<close> and the \<open>%q\<close> verb on printable text and the named control characters.\<close>

definition Quote :: "string \<Rightarrow> string" where
  "Quote s = CHR 0x22 # concat (map quote_char s) @ [CHR 0x22]"

section \<open>Resolved locations\<close>

record Paths_t =
  ConfigFile :: string
  DataDir :: string
  DevMode :: bool

definition SystemConfigDir :: string where "SystemConfigDir = ''/etc/infrapilot''"
definition SystemDataDir :: string where "SystemDataDir = ''/var/lib/infrapilot''"
definition ConfigFileName :: string where "ConfigFileName = ''config.yaml''"
definition ServiceUser :: string where "ServiceUser = ''infrapilot''"
definition DevModeEnv :: string where "DevModeEnv = ''INFRAPILOT_DEV''"
definition ConfigPathEnv :: string where "ConfigPathEnv = ''INFRAPILOT_CONFIG''"
definition DataDirEnv :: string where "DataDirEnv = ''INFRAPILOT_DATA_DIR''"
definition PIDFileName :: string where "PIDFileName = ''agent.pid''"

lemmas path_constants = SystemConfigDir_def SystemDataDir_def ConfigFileName_def ServiceUser_def
  DevModeEnv_def ConfigPathEnv_def DataDirEnv_def PIDFileName_def

definition PIDFile :: "Paths_t \<Rightarrow> string" where
  "PIDFile p = (if DataDir p = [] then [] else join_path (DataDir p) PIDFileName)"

text \<open>The process environment; \<open>os.Getenv\<close> reads an unset variable as empty.\<close>

type_synonym environ = "string \<rightharpoonup> string"

definition Getenv :: "environ \<Rightarrow> string \<Rightarrow> string" where
  "Getenv env k = (case env k of None \<Rightarrow> [] | Some v \<Rightarrow> v)"

definition truthy :: "string \<Rightarrow> bool" where
  "truthy v = (ToLower (TrimSpace v) \<notin> {'''', ''0'', ''false'', ''no'', ''off''})"

definition DevModeEnabled :: "environ \<Rightarrow> bool" where
  "DevModeEnabled env = truthy (Getenv env DevModeEnv)"

definition UserConfigDir :: "environ \<Rightarrow> go_error + string" where
  "UserConfigDir env =
     (let dir = Getenv env ''XDG_CONFIG_HOME'' in
      if dir = [] then
        (let home = Getenv env ''HOME'' in
         if home = [] then Inl (StdErr OtherOS ''neither $XDG_CONFIG_HOME nor $HOME are defined'')
         else Inr (home @ ''/.config''))
      else if \<not> IsAbs dir then Inl (StdErr OtherOS ''path in $XDG_CONFIG_HOME is relative'')
      else Inr dir)"

definition UserHomeDir :: "environ \<Rightarrow> go_error + string" where
  "UserHomeDir env =
     (if Getenv env ''HOME'' = [] then Inl (StdErr OtherOS ''$HOME is not defined'')
      else Inr (Getenv env ''HOME''))"

definition devDirs :: "environ \<Rightarrow> go_error + (string \<times> string)" where
  "devDirs env =
     (case UserConfigDir env of
        Inl err \<Rightarrow> Inl (wrap_err KindConfig ''system.devDirs''
          ''cannot determine the user configuration directory for development mode'' err)
      | Inr userConfig \<Rightarrow>
          (case UserHomeDir env of
             Inl err \<Rightarrow> Inl (wrap_err KindConfig ''system.devDirs''
               ''cannot determine the home directory for development mode'' err)
           | Inr home \<Rightarrow>
               (let dataHome0 = TrimSpace (Getenv env ''XDG_DATA_HOME'');
                    dataHome = (if dataHome0 = [] \<or> \<not> IsAbs dataHome0
                                then join_path (join_path home ''.local'') ''share'' else dataHome0)
                in Inr (join_path userConfig ''infrapilot'', join_path dataHome ''infrapilot''))))"

definition override_err :: "string \<Rightarrow> string \<Rightarrow> go_error" where
  "override_err var val = New KindValidation ''system.ResolvePaths''
     (var @ '' must be an absolute path, got '' @ Quote val)"

definition ResolvePaths :: "environ \<Rightarrow> go_error + Paths_t" where
  "ResolvePaths env =
     (let dev = DevModeEnabled env in
      res_bind (if dev then devDirs env else Inr (SystemConfigDir, SystemDataDir)) (\<lambda>(configDir, dataDir).
        let paths = \<lparr>ConfigFile = join_path configDir ConfigFileName, DataDir = dataDir, DevMode = dev\<rparr>;
            c = TrimSpace (Getenv env ConfigPathEnv);
            d = TrimSpace (Getenv env DataDirEnv)
        in if c \<noteq> [] \<and> \<not> IsAbs c then Inl (override_err ConfigPathEnv c)
           else (let paths1 = (if c \<noteq> [] then paths\<lparr>ConfigFile := Clean c\<rparr> else paths) in
             if d \<noteq> [] \<and> \<not> IsAbs d then Inl (override_err DataDirEnv d)
             else Inr (if d \<noteq> [] then paths1\<lparr>DataDir := Clean d\<rparr> else paths1))))"

section \<open>The traversal guard\<close>

definition resolve_err :: "string \<Rightarrow> go_error" where
  "resolve_err m = New KindValidation ''system.ResolveInDir'' m"

definition ResolveInDir :: "string \<Rightarrow> string \<Rightarrow> go_error + string" where
  "ResolveInDir dir name =
     (if dir = [] then Inl (resolve_err ''base directory is empty'')
      else if \<not> IsAbs dir then Inl (resolve_err (''base directory must be absolute, got '' @ Quote dir))
      else if name = [] then Inl (resolve_err ''file name is empty'')
      else if IsAbs name then
        Inl (resolve_err (''file name must be relative to '' @ dir @ '', got absolute path '' @ Quote name))
      else (let base = Clean dir; joined = join_path base name in
        if joined \<noteq> base \<and> \<not> HasPrefix joined (base @ ''/'') then
          Inl (resolve_err (''file name '' @ Quote name @ '' resolves outside the base directory '' @ base))
        else Inr joined))"

section \<open>Clean paths\<close>

definition plain_comp :: "string \<Rightarrow> bool" where
  "plain_comp c \<longleftrightarrow> c \<noteq> [] \<and> c \<noteq> ''.'' \<and> CHR ''/'' \<notin> set c"

definition down_comp :: "string \<Rightarrow> bool" where
  "down_comp c \<longleftrightarrow> plain_comp c \<and> c \<noteq> ''..''"

lemma plain_path_comps: "c \<in> set (path_comps p) \<Longrightarrow> plain_comp c"
  by (auto simp: path_comps_def plain_comp_def dest: Split_no_sep)

lemma clean_stack_down:
  "\<lbrakk>\<forall>c \<in> set cs. plain_comp c; \<forall>c \<in> set st. down_comp c\<rbrakk>
   \<Longrightarrow> \<forall>c \<in> set (clean_stack True st cs). down_comp c"
proof (induction cs arbitrary: st)
  case (Cons c cs)
  show ?case
  proof (cases "c = ''..''")
    case True
    show ?thesis
    proof (cases st)
      case Nil
      with True Cons.IH [of "[]"] Cons.prems show ?thesis by simp
    next
      case (Cons t st')
      with Cons.prems(2) have "t \<noteq> ''..''" by (auto simp: down_comp_def)
      with True Cons Cons.IH [of st'] Cons.prems show ?thesis by simp
    qed
  next
    case False
    with Cons.prems have "down_comp c" by (simp add: down_comp_def)
    with False Cons.IH [of "c # st"] Cons.prems show ?thesis by simp
  qed
qed simp

lemma clean_comps_down: "IsAbs p \<Longrightarrow> c \<in> set (clean_comps p) \<Longrightarrow> down_comp c"
  using clean_stack_down [of "path_comps p" "[]"] plain_path_comps by (auto simp: clean_comps_def)

lemma Split_Join:
  "\<lbrakk>cs \<noteq> []; \<forall>c \<in> set cs. CHR ''/'' \<notin> set c\<rbrakk> \<Longrightarrow> Split (Join cs ''/'') CHR ''/'' = cs"
proof (induction cs)
  case Nil
  then show ?case by simp
next
  case (Cons c cs)
  show ?case
  proof (cases cs)
    case Nil
    with Cons.prems show ?thesis by (simp add: Split_absent)
  next
    case (Cons d ds)
    with Cons.IH Cons.prems show ?thesis by (simp add: Split_append_sep)
  qed
qed

lemma path_comps_slash: "path_comps (CHR ''/'' # s) = path_comps s"
  by (simp add: path_comps_def)

lemma Split_slash: "Split (a @ ''/'' @ b) CHR ''/'' = Split a CHR ''/'' @ Split b CHR ''/''"
  by (induction a) (auto split: list.splits simp: Cons_eq_append_conv)

lemma path_comps_join: "path_comps (a @ ''/'' @ b) = path_comps a @ path_comps b"
  by (simp only: path_comps_def Split_slash filter_append)


lemma path_comps_Join:
  assumes "\<forall>c \<in> set cs. plain_comp c"
  shows "path_comps (Join cs ''/'') = cs"
proof (cases "cs = []")
  case False
  with assms have "Split (Join cs ''/'') CHR ''/'' = cs"
    by (intro Split_Join) (auto simp: plain_comp_def)
  with assms show ?thesis by (auto simp: path_comps_def plain_comp_def filter_id_conv)
qed (simp add: path_comps_def)

lemma IsAbs_slash [simp]: "IsAbs (CHR ''/'' # s)"
  by (simp add: IsAbs_def HasPrefix_def)

lemma IsAbs_append: "IsAbs p \<Longrightarrow> IsAbs (p @ q)"
  by (auto simp: IsAbs_def HasPrefix_def prefix_def)

lemma IsAbs_Clean: "IsAbs p \<Longrightarrow> IsAbs (Clean p)"
  by (simp add: Clean_def)

lemma path_comps_Clean: "IsAbs p \<Longrightarrow> path_comps (Clean p) = clean_comps p"
  using clean_comps_down [of p]
  by (simp add: Clean_def path_comps_slash path_comps_Join down_comp_def)

lemma clean_stack_plain:
  "\<forall>c \<in> set cs. down_comp c \<Longrightarrow> clean_stack r st cs = rev cs @ st"
  by (induction cs arbitrary: st) (auto simp: down_comp_def)

lemma clean_comps_Clean: "IsAbs p \<Longrightarrow> clean_comps (Clean p) = clean_comps p"
  using clean_comps_down [of p]
  by (simp add: clean_comps_def [of "Clean p"] path_comps_Clean clean_stack_plain)

lemma Clean_idem: "IsAbs p \<Longrightarrow> Clean (Clean p) = Clean p"
  using IsAbs_Clean [of p] clean_comps_Clean [of p] by (simp add: Clean_def [of "Clean p"] Clean_def)

lemma clean_stack_append: "clean_stack r st (cs @ ds) = clean_stack r (clean_stack r st cs) ds"
  by (induction r st cs rule: clean_stack.induct) (auto split: list.splits)

lemma clean_comps_join:
  assumes "IsAbs base"
  shows "clean_comps (join_path base name) = rev (clean_stack True (rev (clean_comps base)) (path_comps name))"
proof -
  have "base \<noteq> []" using assms by (auto simp: IsAbs_def HasPrefix_def)
  moreover have "IsAbs (base @ ''/'' @ name)" using assms by (rule IsAbs_append)
  ultimately show ?thesis
    using assms by (simp only: join_path_def if_True simp_thms not_False_eq_True clean_comps_Clean)
      (simp add: clean_comps_def path_comps_join [simplified] clean_stack_append)
qed

lemma IsAbs_join: "IsAbs base \<Longrightarrow> IsAbs (join_path base name)"
  using IsAbs_append [of base "''/'' @ name"]
  by (auto simp: join_path_def IsAbs_def HasPrefix_def intro!: IsAbs_Clean [unfolded IsAbs_def HasPrefix_def])

lemma Join_prefix_comps:
  assumes "prefix (Join cs ''/'' @ ''/'') (Join ds ''/'')" "cs \<noteq> []"
    "\<forall>c \<in> set cs. CHR ''/'' \<notin> set c" "\<forall>d \<in> set ds. plain_comp d"
  shows "prefix cs ds"
proof -
  from assms(1) obtain r where r: "Join ds ''/'' = Join cs ''/'' @ ''/'' @ r"
    by (auto simp: prefix_def)
  have "path_comps (Join ds ''/'') = path_comps (Join cs ''/'') @ path_comps r"
    unfolding r by (rule path_comps_join)
  moreover have "path_comps (Join ds ''/'') = ds" using assms(4) by (rule path_comps_Join)
  moreover have "Split (Join ds ''/'') CHR ''/'' = ds"
  proof -
    have "ds \<noteq> []" using r by (cases ds) auto
    with assms(4) show ?thesis by (intro Split_Join) (auto simp: plain_comp_def)
  qed
  moreover have "Split (Join cs ''/'' @ ''/'' @ r) CHR ''/'' = cs @ Split r CHR ''/''"
    by (simp only: Split_slash Split_Join [OF assms(2,3)])
  ultimately show ?thesis using r by (metis prefixI)
qed

lemma Join_append:
  "cs \<noteq> [] \<Longrightarrow> ds \<noteq> [] \<Longrightarrow> Join (cs @ ds) sep = Join cs sep @ sep @ Join ds sep"
proof (induction cs)
  case (Cons c cs)
  then show ?case by (cases cs; cases ds) auto
qed simp

lemma Clean_join: "IsAbs base \<Longrightarrow> Clean (join_path base name) = join_path base name"
proof -
  assume "IsAbs base"
  then have "base \<noteq> []" "IsAbs (base @ ''/'' @ name)"
    by (auto simp: IsAbs_def HasPrefix_def intro: IsAbs_append [unfolded IsAbs_def HasPrefix_def])
  then show ?thesis unfolding join_path_def by (simp del: append.simps add: Clean_idem)
qed

text \<open>
  Where the joined path leads, as components: the base's, then the name's with \<open>..\<close> applied. The
  guard compares texts; it accepts exactly when the base's components are a prefix.
\<close>

definition resolved_comps :: "string \<Rightarrow> string \<Rightarrow> string list" where
  "resolved_comps dir name = rev (clean_stack True (rev (clean_comps dir)) (path_comps name))"

lemma join_Clean_comps:
  assumes "IsAbs dir"
  shows "join_path (Clean dir) name = ''/'' @ Join (resolved_comps dir name) ''/''"
    and "\<forall>c \<in> set (resolved_comps dir name). down_comp c"
proof -
  let ?j = "join_path (Clean dir) name"
  have abs: "IsAbs (Clean dir)" "IsAbs ?j"
    using assms IsAbs_Clean IsAbs_join by blast+
  have cc: "clean_comps ?j = resolved_comps dir name"
    using abs(1) assms by (simp add: clean_comps_join clean_comps_Clean resolved_comps_def)
  with abs(2) clean_comps_down [of ?j] show "\<forall>c \<in> set (resolved_comps dir name). down_comp c"
    by auto
  have "Clean ?j = ?j" using abs(1) by (rule Clean_join)
  with abs(2) cc show "?j = ''/'' @ Join (resolved_comps dir name) ''/''"
    by (simp add: Clean_def)
qed

lemma down_no_slash: "down_comp c \<Longrightarrow> CHR ''/'' \<notin> set c"
  by (simp add: down_comp_def plain_comp_def)

lemma Join_inject:
  assumes "\<forall>c \<in> set cs. down_comp c" "\<forall>c \<in> set ds. down_comp c"
  shows "Join cs ''/'' = Join ds ''/'' \<longleftrightarrow> cs = ds"
  using assms by (metis path_comps_Join down_comp_def)

lemma guard_iff_prefix:
  assumes cs: "\<forall>c \<in> set cs. down_comp c" "cs \<noteq> []" and ds: "\<forall>d \<in> set ds. down_comp d"
  shows "(ds = cs \<or> HasPrefix (''/'' @ Join ds ''/'') ((''/'' @ Join cs ''/'') @ ''/'')) \<longleftrightarrow> prefix cs ds"
proof
  assume "ds = cs \<or> HasPrefix (''/'' @ Join ds ''/'') ((''/'' @ Join cs ''/'') @ ''/'')"
  then show "prefix cs ds"
  proof
    assume "HasPrefix (''/'' @ Join ds ''/'') ((''/'' @ Join cs ''/'') @ ''/'')"
    then have "prefix (Join cs ''/'' @ ''/'') (Join ds ''/'')" by (simp add: HasPrefix_def)
    then show ?thesis
      using cs ds by (intro Join_prefix_comps) (auto simp: down_comp_def plain_comp_def)
  qed simp
next
  assume "prefix cs ds"
  then obtain r where r: "ds = cs @ r" by (auto simp: prefix_def)
  show "ds = cs \<or> HasPrefix (''/'' @ Join ds ''/'') ((''/'' @ Join cs ''/'') @ ''/'')"
  proof (cases "r = []")
    case False
    with cs(2) have "Join ds ''/'' = (Join cs ''/'' @ ''/'') @ Join r ''/''"
      by (simp add: r Join_append)
    then show ?thesis by (simp add: HasPrefix_def)
  qed (simp add: r)
qed

lemma ResolveInDir_iff:
  assumes "IsAbs dir" "clean_comps dir \<noteq> []" "name \<noteq> []" "\<not> IsAbs name"
  shows "is_ok (ResolveInDir dir name) \<longleftrightarrow> prefix (clean_comps dir) (resolved_comps dir name)"
    and "ResolveInDir dir name = Inr p \<Longrightarrow> p = ''/'' @ Join (resolved_comps dir name) ''/''"
proof -
  have ne: "dir \<noteq> []" using assms(1) by (auto simp: IsAbs_def HasPrefix_def)
  have base: "Clean dir = ''/'' @ Join (clean_comps dir) ''/''"
    using assms(1) by (simp add: Clean_def)
  have down: "\<forall>c \<in> set (clean_comps dir). down_comp c"
    using clean_comps_down [OF assms(1)] by blast
  note j = join_Clean_comps [OF assms(1), of name]
  have eq: "join_path (Clean dir) name = Clean dir \<longleftrightarrow> resolved_comps dir name = clean_comps dir"
    using Join_inject [OF j(2) down] by (subst j(1), subst base) simp
  have "is_ok (ResolveInDir dir name) \<longleftrightarrow>
      join_path (Clean dir) name = Clean dir \<or> HasPrefix (join_path (Clean dir) name) (Clean dir @ ''/'')"
    using ne assms by (auto simp: ResolveInDir_def Let_def)
  also have "\<dots> \<longleftrightarrow> prefix (clean_comps dir) (resolved_comps dir name)"
    unfolding eq unfolding j(1) unfolding base by (rule guard_iff_prefix [OF down assms(2) j(2)])
  finally show "is_ok (ResolveInDir dir name) \<longleftrightarrow> prefix (clean_comps dir) (resolved_comps dir name)" .
  show "p = ''/'' @ Join (resolved_comps dir name) ''/''" if "ResolveInDir dir name = Inr p"
    using that ne assms by (auto simp: ResolveInDir_def Let_def j(1) split: if_splits)
qed

lemma ResolveInDir_InrD:
  assumes "ResolveInDir dir name = Inr p"
  shows "IsAbs dir \<and> name \<noteq> [] \<and> \<not> IsAbs name \<and> p = ''/'' @ Join (resolved_comps dir name) ''/''
    \<and> prefix (clean_comps dir) (resolved_comps dir name)"
proof -
  from assms have h: "IsAbs dir" "name \<noteq> []" "\<not> IsAbs name"
    by (auto simp: ResolveInDir_def Let_def split: if_splits)
  have p: "p = ''/'' @ Join (resolved_comps dir name) ''/''"
    using assms h by (auto simp: ResolveInDir_def Let_def join_Clean_comps(1) split: if_splits)
  show ?thesis
  proof (cases "clean_comps dir = []")
    case False
    with h assms ResolveInDir_iff(1) [of dir name] p show ?thesis by simp
  qed (use h p in simp)
qed

lemma HasPrefix_Join_slash:
  assumes "\<forall>c \<in> set cs. down_comp c"
  shows "\<not> HasPrefix (Join cs ''/'') ''/''"
proof (cases cs)
  case (Cons c ds)
  with assms have "c \<noteq> []" "CHR ''/'' \<notin> set c" by (auto simp: down_comp_def plain_comp_def)
  then obtain x xs where "c = x # xs" "x \<noteq> CHR ''/''" by (cases c) auto
  with Cons show ?thesis by (cases ds) (auto simp: HasPrefix_def)
qed (simp add: HasPrefix_def)

lemma Clean_root: "Clean ''/'' = ''/''" "clean_comps ''/'' = []"
  by (simp_all add: Clean_def clean_comps_def path_comps_def)

lemma ResolveInDir_root:
  assumes "ResolveInDir ''/'' name = Inr p"
  shows "p = ''/''"
proof (rule ccontr)
  assume "p \<noteq> ''/''"
  with assms have "HasPrefix p ''//''"
    by (auto simp: ResolveInDir_def Let_def Clean_root split: if_splits)
  moreover have "p = ''/'' @ Join (resolved_comps ''/'' name) ''/''"
    using ResolveInDir_InrD [OF assms] by blast
  moreover have "\<not> HasPrefix (Join (resolved_comps ''/'' name) ''/'') ''/''"
    by (rule HasPrefix_Join_slash) (rule join_Clean_comps(2), simp)
  ultimately show False by (simp add: HasPrefix_def)
qed

section \<open>Properties\<close>

lemma clean_comps_resolved:
  assumes "IsAbs dir"
  shows "clean_comps (join_path (Clean dir) name) = resolved_comps dir name"
  using assms IsAbs_Clean [of dir] by (simp add: clean_comps_join clean_comps_Clean resolved_comps_def)

lemma ResolveInDir_err_kind: "ResolveInDir dir name = Inl e \<Longrightarrow> KindOf (Some e) = KindValidation"
  by (auto simp: ResolveInDir_def resolve_err_def Let_def split: if_splits)

text \<open>
  C17. The traversal guard admits a relative name below a base directory other than the root exactly when its
  components, with dots and double dots resolved, stay below the base; the path it then returns is
  absolute, clean and free of double dots, and otherwise it is a validation error.
\<close>

theorem resolve_stays_inside:
  assumes "IsAbs dir" "clean_comps dir \<noteq> []" "name \<noteq> []" "\<not> IsAbs name"
  shows "case ResolveInDir dir name of
      Inr p \<Rightarrow> prefix (clean_comps dir) (clean_comps p) \<and> clean_comps p = resolved_comps dir name
        \<and> IsAbs p \<and> Clean p = p \<and> (\<forall>c \<in> set (clean_comps p). c \<noteq> ''..'')
    | Inl e \<Rightarrow> \<not> prefix (clean_comps dir) (resolved_comps dir name) \<and> KindOf (Some e) = KindValidation"
proof (cases "ResolveInDir dir name")
  case (Inl e)
  with ResolveInDir_iff(1) [OF assms] ResolveInDir_err_kind [OF Inl] show ?thesis by simp
next
  case (Inr p)
  from ResolveInDir_InrD [OF Inr] join_Clean_comps(1) [OF assms(1), of name]
  have p: "p = join_path (Clean dir) name" by simp
  have abs: "IsAbs (Clean dir)" using assms(1) IsAbs_Clean by blast
  then have "IsAbs p" "Clean p = p" using IsAbs_join Clean_join p by blast+
  moreover have c: "clean_comps p = resolved_comps dir name"
    unfolding p by (rule clean_comps_resolved [OF assms(1)])
  moreover have "\<forall>c \<in> set (clean_comps p). c \<noteq> ''..''"
    using join_Clean_comps(2) [OF assms(1), of name] c by (auto simp: down_comp_def)
  ultimately show ?thesis using Inr ResolveInDir_InrD [OF Inr] by simp
qed

theorem resolve_stays_inside_witness:
  "case ResolveInDir ''/a'' ''b'' of
      Inr p \<Rightarrow> prefix (clean_comps ''/a'') (clean_comps p)
    | Inl e \<Rightarrow> \<not> prefix (clean_comps ''/a'') (resolved_comps ''/a'' ''b'')"
proof -
  have "IsAbs ''/a''" "clean_comps ''/a'' \<noteq> []" "\<not> IsAbs ''b''" by code_simp+
  from resolve_stays_inside [OF this(1,2) _ this(3)] show ?thesis by (auto split: sum.splits)
qed

text \<open>
  With the root directory as base the guard refuses every name that would lead below it: it compares with
  the base and a separator appended, which is two separators there.
\<close>

theorem resolve_in_root_refuses:
  assumes "resolved_comps ''/'' name \<noteq> []"
  shows "is_err (ResolveInDir ''/'' name)"
proof (cases "ResolveInDir ''/'' name")
  case (Inr p)
  then have "p = ''/'' @ Join (resolved_comps ''/'' name) ''/''"
    using ResolveInDir_InrD by blast
  moreover have "p = ''/''" by (rule ResolveInDir_root [OF Inr])
  ultimately have "Join (resolved_comps ''/'' name) ''/'' = []" by simp
  moreover have "\<forall>c \<in> set (resolved_comps ''/'' name). down_comp c"
    by (rule join_Clean_comps(2)) simp
  ultimately have False
    using assms by (cases "(resolved_comps ''/'' name, ''/'')" rule: Join.cases)
      (auto simp: down_comp_def plain_comp_def)
  then show ?thesis ..
qed simp

theorem resolve_in_root_refuses_witness: "is_err (ResolveInDir ''/'' ''etc'')"
  by (rule resolve_in_root_refuses) code_simp

text \<open>
  Outside development mode the configuration file and the data directory are absolute, clean paths,
  whatever the environment says; a relative override is refused as a validation error.
\<close>

theorem resolved_paths_are_absolute:
  assumes "\<not> DevModeEnabled env"
  shows "case ResolvePaths env of
      Inr P \<Rightarrow> IsAbs (ConfigFile P) \<and> Clean (ConfigFile P) = ConfigFile P \<and> IsAbs (DataDir P)
        \<and> Clean (DataDir P) = DataDir P \<and> \<not> DevMode P
    | Inl e \<Rightarrow> KindOf (Some e) = KindValidation \<and>
        (\<exists>v \<in> {TrimSpace (Getenv env ConfigPathEnv), TrimSpace (Getenv env DataDirEnv)}. v \<noteq> [] \<and> \<not> IsAbs v)"
proof -
  have "join_path SystemConfigDir ConfigFileName = ''/etc/infrapilot/config.yaml''" by code_simp
  moreover have "IsAbs ''/etc/infrapilot/config.yaml''" "Clean ''/etc/infrapilot/config.yaml'' = ''/etc/infrapilot/config.yaml''"
    "IsAbs ''/var/lib/infrapilot''" "Clean ''/var/lib/infrapilot'' = ''/var/lib/infrapilot''" by code_simp+
  ultimately show ?thesis
    using assms by (auto simp: ResolvePaths_def Let_def override_err_def SystemDataDir_def Clean_idem IsAbs_Clean)
qed

theorem resolved_paths_are_absolute_witness:
  "case ResolvePaths (\<lambda>_. None) of Inr P \<Rightarrow> IsAbs (DataDir P) | Inl e \<Rightarrow> False"
proof -
  have "\<not> DevModeEnabled (\<lambda>_. None)" by code_simp
  from resolved_paths_are_absolute [OF this] show ?thesis
    by (auto simp: Getenv_def split: sum.splits)
qed

end
