(* ===== verification/Http.thy ===== *)
theory Http
  imports Json Paths
begin

text \<open>
  What the handlers and the client use of \<open>net/http\<close>: requests, responses, \<open>http.Error\<close>, the JSON
  writers, the body limits, and the dispatch of \<open>ServeMux\<close>. The redirect the mux answers on a path that
  is not clean keeps its status and location; its HTML body is left empty.
\<close>

type_synonym header = "(string \<times> string) list"

record request =
  rq_Method :: string
  rq_Path :: string
  rq_Header :: header
  rq_Body :: bytes

record response =
  rs_Status :: nat
  rs_Header :: header
  rs_Body :: bytes

text \<open>\<open>Header.Get\<close>: the first value of a header, by case-insensitive name; empty when absent.\<close>

fun Header_Get :: "string \<Rightarrow> header \<Rightarrow> string" where
  "Header_Get name [] = []"
| "Header_Get name ((k, v) # h) = (if EqualFold k name then v else Header_Get name h)"

definition newline :: string where "newline = [CHR 0x0A]"

definition http_Error :: "string \<Rightarrow> nat \<Rightarrow> response" where
  "http_Error msg code =
     \<lparr>rs_Status = code,
      rs_Header = [(''Content-Type'', ''text/plain; charset=utf-8''), (''X-Content-Type-Options'', ''nosniff'')],
      rs_Body = msg @ newline\<rparr>"

definition NotFound :: response where
  "NotFound = http_Error ''404 page not found'' 404"

text \<open>\<open>json.NewEncoder(w).Encode(v)\<close> after setting the content type; the encoder ends with a newline.\<close>

definition writeJSON :: "json \<Rightarrow> response" where
  "writeJSON v = \<lparr>rs_Status = 200, rs_Header = [(''Content-Type'', ''application/json'')],
     rs_Body = Marshal v @ newline\<rparr>"

text \<open>
  \<open>w.WriteHeader(code)\<close> panics on a code of fewer or more than three digits. An informational code other
  than 101 goes out on its own and the first write of the body commits status 200; a status without a
  body drops what is written, and 304 the content type.
\<close>

definition WriteHeader_ok :: "nat \<Rightarrow> bool" where
  "WriteHeader_ok code \<longleftrightarrow> 100 \<le> code \<and> code \<le> 999"

definition final_status :: "nat \<Rightarrow> nat" where
  "final_status code = (if 100 \<le> code \<and> code \<le> 199 \<and> code \<noteq> 101 then 200 else code)"

definition bodyAllowedForStatus :: "nat \<Rightarrow> bool" where
  "bodyAllowedForStatus code \<longleftrightarrow> \<not> (100 \<le> code \<and> code \<le> 199) \<and> code \<noteq> 204 \<and> code \<noteq> 304"

definition written :: "nat \<Rightarrow> header \<Rightarrow> bytes \<Rightarrow> response" where
  "written code h body =
     \<lparr>rs_Status = final_status code,
      rs_Header = filter (\<lambda>(k, _). \<not> (code = 304 \<and> k = ''Content-Type'')) h,
      rs_Body = (if bodyAllowedForStatus (final_status code) then body else [])\<rparr>"

text \<open>
  \<open>Decoder.Decode\<close> over \<open>http.MaxBytesReader(w, body, 4096)\<close>: the first value of the stream, found within
  the first 4096 bytes. Only an object or an array is complete without the byte after it, so another
  value that ends at the limit of a longer body fails with the reader's error.
\<close>

definition max_body :: nat where "max_body = 4096"

definition delimited :: "json \<Rightarrow> bool" where
  "delimited v \<longleftrightarrow> (case v of JArr _ \<Rightarrow> True | JObj _ \<Rightarrow> True | _ \<Rightarrow> False)"

definition Decode_limited :: "bytes \<Rightarrow> json option" where
  "Decode_limited body =
     (let s = take max_body body in
      case parse_value (Suc (length s)) s of
        None \<Rightarrow> None
      | Some (v, r) \<Rightarrow> if length body > max_body \<and> r = [] \<and> \<not> delimited v then None else Some v)"

text \<open>\<open>io.ReadAll\<close> over the same reader.\<close>

definition ReadAll_limited :: "bytes \<Rightarrow> bytes option" where
  "ReadAll_limited body = (if length body > max_body then None else Some body)"

section \<open>Dispatch\<close>

definition cleanPath :: "string \<Rightarrow> string" where
  "cleanPath p =
     (if p = [] then ''/''
      else (let p' = (if HasPrefix p ''/'' then p else CHR ''/'' # p); np = Clean p' in
            if HasSuffix p' ''/'' \<and> np \<noteq> ''/'' then np @ ''/'' else np))"

definition redirect :: "string \<Rightarrow> response" where
  "redirect url = \<lparr>rs_Status = 301, rs_Header = [(''Location'', url)], rs_Body = []\<rparr>"

text \<open>The mux redirects to the clean path, except for CONNECT, whose path it takes as it is.\<close>

definition redirected :: "request \<Rightarrow> bool" where
  "redirected r \<longleftrightarrow> rq_Method r \<noteq> ''CONNECT'' \<and> cleanPath (rq_Path r) \<noteq> rq_Path r"

section \<open>Lemmas\<close>

lemma written_200 [simp]: "written 200 h b = \<lparr>rs_Status = 200, rs_Header = h, rs_Body = b\<rparr>"
  by (simp add: written_def final_status_def bodyAllowedForStatus_def)

lemma WriteHeader_ok_200 [simp]: "WriteHeader_ok 200"
  by (simp add: WriteHeader_ok_def)

lemma clean_not_redirected [simp]: "cleanPath (rq_Path r) = rq_Path r \<Longrightarrow> \<not> redirected r"
  by (simp add: redirected_def)

lemma writeJSON_simps [simp]:
  "rs_Status (writeJSON v) = 200"
  "rs_Body (writeJSON v) = Marshal v @ newline"
  by (simp_all add: writeJSON_def)

lemma http_Error_simps [simp]:
  "rs_Status (http_Error m c) = c"
  "rs_Body (http_Error m c) = m @ newline"
  by (simp_all add: http_Error_def)

lemma Unmarshal_newline: "wf_json v \<Longrightarrow> Unmarshal (Marshal v @ newline) = Some v"
  unfolding Marshal_def by (rule Unmarshal_print) (simp_all add: newline_def json_ws_def)

lemma parse_first_newline: "wf_json v \<Longrightarrow> parse_first (Marshal v @ newline) = Some v"
  unfolding Marshal_def by (rule parse_first_print) (simp_all add: newline_def no_num_def num_char_def is_digit_def)

lemma Decode_limited_print:
  assumes "wf_json v" "length (print_json html v) \<le> max_body"
  shows "Decode_limited (print_json html v) = Some v"
proof -
  have "no_num []" by (simp add: no_num_def)
  then have "parse_value (Suc (length (print_json html v))) (print_json html v @ []) = Some (v, [])"
    using assms by (intro parse_value_print) simp_all
  then show ?thesis
    using assms by (simp add: Decode_limited_def Let_def del: parse_value.simps)
qed

lemma Decode_limited_stringify:
  "wf_json v \<Longrightarrow> length (stringify v) \<le> max_body \<Longrightarrow> Decode_limited (stringify v) = Some v"
  by (simp add: stringify_def Decode_limited_print)

lemma ReadAll_limited_Some: "ReadAll_limited b = Some c \<longleftrightarrow> c = b \<and> length b \<le> max_body"
  by (auto simp: ReadAll_limited_def)

end
