(* ===== verification/Go_Time.thy ===== *)
theory Go_Time
  imports Go_Strings
begin

text \<open>
  Package \<open>time\<close>: an instant is its number of nanoseconds since the Unix epoch (UTC), a duration a
  number of nanoseconds. Monotonic readings are not modelled: instants are compared on the wall clock.
\<close>

type_synonym instant = int
type_synonym duration = int

definition Second :: duration where "Second = 1000000000"
definition Millisecond :: duration where "Millisecond = 1000000"
definition Minute :: duration where "Minute = 60 * Second"
definition Hour :: duration where "Hour = 60 * Minute"

lemmas time_units = Second_def Millisecond_def Minute_def Hour_def

definition Unix :: "instant \<Rightarrow> int" where
  "Unix t = t div Second"

text \<open>The proleptic Gregorian date of a day number counted from 1970-01-01.\<close>

definition year_of_era :: "int \<Rightarrow> int" where
  "year_of_era doe = (doe - doe div 1460 + doe div 36524 - doe div 146096) div 365"

definition day_of_year :: "int \<Rightarrow> int \<Rightarrow> int" where
  "day_of_year doe yoe = doe - (365 * yoe + yoe div 4 - yoe div 100)"

definition month_day :: "int \<Rightarrow> int \<Rightarrow> int \<times> int" where
  "month_day doy mp = (if mp < 10 then mp + 3 else mp - 9, doy - (153 * mp + 2) div 5 + 1)"

definition civil_of :: "int \<Rightarrow> int \<Rightarrow> int \<Rightarrow> int \<times> int \<times> int" where
  "civil_of era yoe doy =
     (case month_day doy ((5 * doy + 2) div 153) of
        (m, d) \<Rightarrow> (yoe + era * 400 + (if m \<le> 2 then 1 else 0), m, d))"

definition civil_doe :: "int \<Rightarrow> int \<Rightarrow> int \<Rightarrow> int \<times> int \<times> int" where
  "civil_doe era doe yoe = civil_of era yoe (day_of_year doe yoe)"

definition civil :: "int \<Rightarrow> int \<times> int \<times> int" where
  "civil days =
     civil_doe ((days + 719468) div 146097) ((days + 719468) mod 146097)
       (year_of_era ((days + 719468) mod 146097))"

definition pad_text :: "nat \<Rightarrow> string \<Rightarrow> string" where
  "pad_text w s = replicate (w - length s) CHR ''0'' @ s"

definition pad :: "nat \<Rightarrow> int \<Rightarrow> string" where
  "pad w i = pad_text w (show_nat (nat i))"

definition date_text :: "int \<times> int \<times> int \<Rightarrow> string" where
  "date_text ymd = (case ymd of (y, m, d) \<Rightarrow> pad 4 y @ ''-'' @ pad 2 m @ ''-'' @ pad 2 d)"

definition clock_text :: "int \<Rightarrow> string" where
  "clock_text r = pad 2 (r div 3600) @ '':'' @ pad 2 ((r div 60) mod 60) @ '':'' @ pad 2 (r mod 60)"

definition date_time :: "instant \<Rightarrow> string" where
  "date_time t = date_text (civil (Unix t div 86400)) @ ''T'' @ clock_text (Unix t mod 86400)"

definition RFC3339 :: "instant \<Rightarrow> string" where
  "RFC3339 t = date_time t @ ''Z''"

text \<open>\<open>RFC3339Nano\<close> drops the trailing zeros of the fraction, and the point with them.\<close>

definition trim_zeros :: "string \<Rightarrow> string" where
  "trim_zeros s = rev (dropWhile (\<lambda>c. c = CHR ''0'') (rev s))"

definition frac_text :: "instant \<Rightarrow> string" where
  "frac_text t =
     (if t mod Second = 0 then [] else ''.'' @ trim_zeros (pad 9 (t mod Second)))"

definition RFC3339Nano :: "instant \<Rightarrow> string" where
  "RFC3339Nano t = date_time t @ frac_text t @ ''Z''"

lemma Unix_mono: "s \<le> t \<Longrightarrow> Unix s \<le> Unix t"
  by (simp add: Unix_def Second_def zdiv_mono1)

lemma Unix_add_seconds: "Unix (t + n * Second) = Unix t + n"
  by (simp add: Unix_def Second_def)

lemmas time_text_eval = RFC3339Nano_def RFC3339_def date_time_def date_text_def clock_text_def civil_def
  civil_doe_def civil_of_def month_day_def day_of_year_def year_of_era_def pad_def pad_text_def
  frac_text_def trim_zeros_def Unix_def Second_def show_nat_eval digit_char_eval

section \<open>Parsing a time stamp\<close>

text \<open>
  \<open>time.Parse(time.RFC3339Nano, s)\<close>: fixed-width digit fields, a fraction after a point or a comma
  cut at nine digits, and either Z or a zone offset. None stands for its error.
\<close>

fun digits :: "nat \<Rightarrow> int \<Rightarrow> string \<Rightarrow> (int \<times> string) option" where
  "digits 0 acc s = Some (acc, s)"
| "digits (Suc n) acc [] = None"
| "digits (Suc n) acc (c # s) =
     (if is_digit c then digits n (10 * acc + (int (ord c) - 48)) s else None)"

definition expect :: "char \<Rightarrow> string \<Rightarrow> string option" where
  "expect c s = (case s of [] \<Rightarrow> None | d # r \<Rightarrow> if d = c then Some r else None)"

definition days_from_civil :: "int \<Rightarrow> int \<Rightarrow> int \<Rightarrow> int" where
  "days_from_civil y m d =
     (let y' = (if m \<le> 2 then y - 1 else y); era = y' div 400; yoe = y' - era * 400;
          doy = (153 * (if m > 2 then m - 3 else m + 9) + 2) div 5 + d - 1;
          doe = yoe * 365 + yoe div 4 - yoe div 100 + doy
      in era * 146097 + doe - 719468)"

definition leap_year :: "int \<Rightarrow> bool" where
  "leap_year y \<longleftrightarrow> y mod 4 = 0 \<and> (y mod 100 \<noteq> 0 \<or> y mod 400 = 0)"

definition days_in_month :: "int \<Rightarrow> int \<Rightarrow> int" where
  "days_in_month y m =
     (if m = 2 then (if leap_year y then 29 else 28) else if m \<in> {4, 6, 9, 11} then 30 else 31)"

definition parse_frac :: "string \<Rightarrow> (int \<times> string)" where
  "parse_frac s =
     (case s of
        c # d # r \<Rightarrow>
          if (c = CHR ''.'' \<or> c = CHR '','') \<and> is_digit d then
            (let ds = takeWhile is_digit (d # r); nine = take 9 ds
             in (foldl (\<lambda>a x. 10 * a + (int (ord x) - 48)) 0 (nine @ replicate (9 - length nine) CHR ''0''),
                 dropWhile is_digit (d # r)))
          else (0, s)
      | _ \<Rightarrow> (0, s))"

definition parse_zone :: "string \<Rightarrow> int option" where
  "parse_zone s =
     (case s of [] \<Rightarrow> None
      | c # r \<Rightarrow>
          if c = CHR ''Z'' then (if r = [] then Some 0 else None)
          else if c = CHR ''+'' \<or> c = CHR ''-'' then
            Option.bind (digits 2 0 r) (\<lambda>(h, r). Option.bind (expect CHR '':'' r) (\<lambda>r.
            Option.bind (digits 2 0 r) (\<lambda>(m, r).
              if r = [] \<and> h \<le> 24 \<and> m < 60
              then Some ((if c = CHR ''+'' then 1 else -1) * (h * 3600 + m * 60)) else None)))
          else None)"

definition parse_RFC3339Nano :: "string \<Rightarrow> instant option" where
  "parse_RFC3339Nano s =
     Option.bind (digits 4 0 s) (\<lambda>(y, s). Option.bind (expect CHR ''-'' s) (\<lambda>s.
     Option.bind (digits 2 0 s) (\<lambda>(mo, s). Option.bind (expect CHR ''-'' s) (\<lambda>s.
     Option.bind (digits 2 0 s) (\<lambda>(d, s). Option.bind (expect CHR ''T'' s) (\<lambda>s.
     Option.bind (digits 2 0 s) (\<lambda>(h, s). Option.bind (expect CHR '':'' s) (\<lambda>s.
     Option.bind (digits 2 0 s) (\<lambda>(mi, s). Option.bind (expect CHR '':'' s) (\<lambda>s.
     Option.bind (digits 2 0 s) (\<lambda>(se, s).
       case parse_frac s of (ns, r) \<Rightarrow>
       Option.bind (parse_zone r) (\<lambda>off.
         if 1 \<le> mo \<and> mo \<le> 12 \<and> 1 \<le> d \<and> d \<le> days_in_month y mo \<and> h < 24 \<and> mi < 60 \<and> se < 60
         then Some ((days_from_civil y mo d * 86400 + h * 3600 + mi * 60 + se - off) * Second + ns)
         else None))))))))))))"

end
