(* ===== verification/Device_Key.thy ===== *)
theory Device_Key
  imports Json Go_Time Paths
begin

text \<open>
  The device's own identity, \<open>internal/identity/identity.go\<close>: the key and metadata files with
  Create, Load, Delete and Metadata, and the self-signed pairing token with PairingToken and
  parseToken. Every system call can fail; a fault plan says which do.
\<close>

section \<open>Cryptography as a parameter\<close>

text \<open>
  Ed25519 and SHA-256. \<open>cr_key\<close> is \<open>ed25519.NewKeyFromSeed\<close>; as in Go, a private key is 64
  bytes and its second half is the public key.
\<close>

record crypto =
  cr_key :: "bytes \<Rightarrow> bytes"
  cr_sign :: "bytes \<Rightarrow> bytes \<Rightarrow> bytes"
  cr_verify :: "bytes \<Rightarrow> bytes \<Rightarrow> bytes \<Rightarrow> bool"
  cr_sha256 :: "bytes \<Rightarrow> bytes"

definition PublicKeySize :: nat where "PublicKeySize = 32"
definition PrivateKeySize :: nat where "PrivateKeySize = 64"
definition SignatureSize :: nat where "SignatureSize = 64"

lemmas key_sizes = PublicKeySize_def PrivateKeySize_def SignatureSize_def

definition public_of :: "bytes \<Rightarrow> bytes" where
  "public_of priv = drop 32 priv"

text \<open>What the code relies on: sizes, and that a signature verifies under its own key.\<close>

definition ed25519_ok :: "crypto \<Rightarrow> bool" where
  "ed25519_ok C \<longleftrightarrow>
     (\<forall>seed. length seed = 32 \<longrightarrow> length (cr_key C seed) = 64
        \<and> (\<forall>m. length (cr_sign C (cr_key C seed) m) = 64
              \<and> cr_verify C (public_of (cr_key C seed)) m (cr_sign C (cr_key C seed) m)))"

definition generated_key :: "crypto \<Rightarrow> bytes \<Rightarrow> bool" where
  "generated_key C priv \<longleftrightarrow> (\<exists>seed. length seed = 32 \<and> priv = cr_key C seed)"

lemma generated_keyD:
  assumes "ed25519_ok C" "generated_key C priv"
  shows "length priv = 64" "length (public_of priv) = 32"
    "length (cr_sign C priv m) = 64" "cr_verify C (public_of priv) m (cr_sign C priv m)"
  using assms by (auto simp: ed25519_ok_def generated_key_def public_of_def)

section \<open>Identity files\<close>

record identity =
  id_DeviceID :: string
  id_PublicKey :: bytes
  id_privateKey :: bytes

text \<open>The two files of the identity directory: \<open>device.key\<close> and \<open>device.json\<close>.\<close>

record id_files =
  f_key :: "bytes option"
  f_meta :: "bytes option"

datatype id_op =
    OpReadKey | OpReadMeta | OpMkdir | OpGenerateKey | OpRandID | OpOpenKey | OpWriteKey | OpCloseKey
  | OpWriteMeta | OpRandNonce | OpRemoveKey | OpRemoveMeta

text \<open>\<^const>\<open>None\<close>: the call succeeds. A present file is needed for a read to succeed.\<close>

type_synonym id_faults = "id_op \<Rightarrow> go_error option"

definition no_faults :: id_faults where "no_faults = (\<lambda>_. None)"

definition read_file :: "go_error option \<Rightarrow> bytes option \<Rightarrow> go_error + bytes" where
  "read_file fault content =
     (case fault of Some e \<Rightarrow> Inl e
      | None \<Rightarrow> (case content of None \<Rightarrow> Inl (StdErr NotExist ''no such file or directory'')
                | Some b \<Rightarrow> Inr b))"

definition id_paths :: "string \<Rightarrow> go_error + (string \<times> string)" where
  "id_paths dir =
     (if dir = [] \<or> \<not> IsAbs dir
      then Inl (New KindValidation ''identity.paths'' ''identity directory must be absolute'')
      else Inr (join_path dir ''device.key'', join_path dir ''device.json''))"

text \<open>\<open>json.Unmarshal\<close> into a struct: fields by case-folded name, the last occurrence wins, null is no change.\<close>

fun field_str :: "string \<Rightarrow> (string \<times> json) list \<Rightarrow> string \<Rightarrow> string option" where
  "field_str name [] acc = Some acc"
| "field_str name ((k, v) # fs) acc =
     (if EqualFold k name then
        (case v of JStr s \<Rightarrow> field_str name fs s | JNull \<Rightarrow> field_str name fs acc | _ \<Rightarrow> None)
      else field_str name fs acc)"

fun field_int :: "string \<Rightarrow> (string \<times> json) list \<Rightarrow> int \<Rightarrow> int option" where
  "field_int name [] acc = Some acc"
| "field_int name ((k, v) # fs) acc =
     (if EqualFold k name then
        (case v of JNum lit \<Rightarrow> Option.bind (Atoi lit) (field_int name fs)
         | JNull \<Rightarrow> field_int name fs acc | _ \<Rightarrow> None)
      else field_int name fs acc)"

definition struct_fields :: "json \<Rightarrow> (string \<times> json) list option" where
  "struct_fields v = (case v of JObj fs \<Rightarrow> Some fs | JNull \<Rightarrow> Some [] | _ \<Rightarrow> None)"

definition decode_device_id :: "bytes \<Rightarrow> string option" where
  "decode_device_id data =
     Option.bind (Unmarshal data) (\<lambda>v. Option.bind (struct_fields v) (\<lambda>fs. field_str ''device_id'' fs []))"

definition Metadata :: "string \<Rightarrow> id_faults \<Rightarrow> id_files \<Rightarrow> go_error + string" where
  "Metadata dir flt fs =
     res_bind (id_paths dir) (\<lambda>_.
       case read_file (flt OpReadMeta) (f_meta fs) of
         Inl e \<Rightarrow>
           (if IsNotExist e then Inl (New KindNotFound ''identity.Metadata'' ''no local device identity exists'')
            else Inl (wrap_err KindPermission ''identity.Metadata'' ''cannot read device metadata'' e))
       | Inr data \<Rightarrow>
           (case decode_device_id data of
              None \<Rightarrow> Inl (New KindStorage ''identity.Metadata'' ''device metadata is invalid'')
            | Some d \<Rightarrow> if d = [] then Inl (New KindStorage ''identity.Metadata'' ''device metadata is invalid'')
                        else Inr d))"

definition Load :: "string \<Rightarrow> id_faults \<Rightarrow> id_files \<Rightarrow> go_error + identity" where
  "Load dir flt fs =
     res_bind (id_paths dir) (\<lambda>_.
       case read_file (flt OpReadKey) (f_key fs) of
         Inl e \<Rightarrow>
           (if IsNotExist e then Inl (New KindNotFound ''identity.Load'' ''no local device identity exists'')
            else Inl (wrap_err KindPermission ''identity.Load'' ''cannot read private key'' e))
       | Inr key \<Rightarrow>
           (if length key \<noteq> PrivateKeySize
            then Inl (New KindStorage ''identity.Load'' ''stored private key is invalid'')
            else (case read_file (flt OpReadMeta) (f_meta fs) of
               Inl e \<Rightarrow> Inl (wrap_err KindStorage ''identity.Load'' ''cannot read device metadata'' e)
             | Inr data \<Rightarrow>
                 (case decode_device_id data of
                    None \<Rightarrow> Inl (New KindStorage ''identity.Load'' ''device metadata is invalid'')
                  | Some d \<Rightarrow>
                      if d = [] then Inl (New KindStorage ''identity.Load'' ''device metadata is invalid'')
                      else Inr \<lparr>id_DeviceID = d, id_PublicKey = public_of key, id_privateKey = key\<rparr>))))"

section \<open>Pairing tokens\<close>

record tokenEnvelope =
  te_Version :: int
  te_DeviceID :: string
  te_PublicKey :: string
  te_Nonce :: string
  te_ExpiresAt :: int
  te_Signature :: string

definition tokenLifetime :: duration where "tokenLifetime = 10 * Minute"

definition envelope_json :: "tokenEnvelope \<Rightarrow> json" where
  "envelope_json e = JObj [(''v'', JInt (te_Version e)), (''d'', JStr (te_DeviceID e)),
     (''p'', JStr (te_PublicKey e)), (''n'', JStr (te_Nonce e)), (''e'', JInt (te_ExpiresAt e)),
     (''s'', JStr (te_Signature e))]"

definition decode_envelope :: "bytes \<Rightarrow> tokenEnvelope option" where
  "decode_envelope raw =
     Option.bind (Unmarshal raw) (\<lambda>v. Option.bind (struct_fields v) (\<lambda>fs.
     Option.bind (field_int ''v'' fs 0) (\<lambda>ver. Option.bind (field_str ''d'' fs []) (\<lambda>d.
     Option.bind (field_str ''p'' fs []) (\<lambda>p. Option.bind (field_str ''n'' fs []) (\<lambda>n.
     Option.bind (field_int ''e'' fs 0) (\<lambda>ex. Option.bind (field_str ''s'' fs []) (\<lambda>s.
       Some \<lparr>te_Version = ver, te_DeviceID = d, te_PublicKey = p, te_Nonce = n,
             te_ExpiresAt = ex, te_Signature = s\<rparr>))))))))"

text \<open>The envelope PairingToken signs, for a 32-byte nonce.\<close>

definition unsigned_envelope :: "identity \<Rightarrow> bytes \<Rightarrow> instant \<Rightarrow> tokenEnvelope" where
  "unsigned_envelope i nonce now =
     \<lparr>te_Version = 1, te_DeviceID = id_DeviceID i, te_PublicKey = EncodeToString (id_PublicKey i),
      te_Nonce = EncodeToString nonce, te_ExpiresAt = Unix (now + tokenLifetime), te_Signature = []\<rparr>"

text \<open>\<open>nonce\<close> is what \<open>rand.Read\<close> delivers, \<^const>\<open>None\<close> when it fails.\<close>

definition rand_error :: go_error where
  "rand_error = StdErr OtherOS ''random source unavailable''"

definition PairingToken :: "crypto \<Rightarrow> identity \<Rightarrow> bytes option \<Rightarrow> instant \<Rightarrow> go_error + string" where
  "PairingToken C i nonce now =
     (case nonce of None \<Rightarrow> Inl rand_error
      | Some nb \<Rightarrow>
          (let e = unsigned_envelope i nb now;
               payload = Marshal (envelope_json e);
               e' = e\<lparr>te_Signature := EncodeToString (cr_sign C (id_privateKey i) payload)\<rparr>
           in Inr (EncodeToString (Marshal (envelope_json e')))))"

definition token_err :: "string \<Rightarrow> go_error" where
  "token_err m = New KindValidation ''identity.parseToken'' m"

definition parseToken :: "crypto \<Rightarrow> string \<Rightarrow> instant \<Rightarrow> go_error + (tokenEnvelope \<times> bytes)" where
  "parseToken C token now =
     (case DecodeString token of
        None \<Rightarrow> Inl (token_err ''pairing token is invalid or expired'')
      | Some raw \<Rightarrow>
          if length raw > 4096 then Inl (token_err ''pairing token is invalid or expired'')
          else (case decode_envelope raw of
            None \<Rightarrow> Inl (token_err ''pairing token is invalid or expired'')
          | Some e \<Rightarrow>
              if te_Version e \<noteq> 1 \<or> te_DeviceID e = [] \<or> te_ExpiresAt e < Unix now
              then Inl (token_err ''pairing token is invalid or expired'')
              else (case DecodeString (te_PublicKey e) of
                None \<Rightarrow> Inl (token_err ''pairing token public key is invalid'')
              | Some pb \<Rightarrow>
                  if length pb \<noteq> PublicKeySize then Inl (token_err ''pairing token public key is invalid'')
                  else (case DecodeString (te_Signature e) of
                    None \<Rightarrow> Inl (token_err ''pairing token signature is invalid'')
                  | Some sig \<Rightarrow>
                      if length sig \<noteq> SignatureSize then Inl (token_err ''pairing token signature is invalid'')
                      else (let e' = e\<lparr>te_Signature := []\<rparr>; payload = Marshal (envelope_json e')
                        in if \<not> cr_verify C pb payload sig
                           then Inl (token_err ''pairing token signature is invalid'')
                           else Inr (e', pb))))))"

section \<open>Creating and deleting the identity\<close>

text \<open>
  The random bytes of one Create: the key seed, the 16 bytes of the device id and the token nonce,
  and what a failing write of the key leaves in its file, and \<open>os.WriteFile\<close> of the metadata.
\<close>

record create_input =
  ci_seed :: bytes
  ci_id :: bytes
  ci_nonce :: bytes
  ci_stamp :: string
  ci_now :: instant
  ci_part_key :: bytes
  ci_partial :: "bytes option"

definition meta_bytes :: "string \<Rightarrow> string \<Rightarrow> bytes" where
  "meta_bytes d stamp = Marshal (JObj [(''device_id'', JStr d), (''created_at'', JStr stamp)])"

text \<open>The clean-up \<open>_ = os.Remove(kp)\<close> can itself fail: the key file then stays with what it holds.\<close>

definition drop_key :: "id_faults \<Rightarrow> bytes \<Rightarrow> id_files \<Rightarrow> id_files" where
  "drop_key flt held fs =
     fs\<lparr>f_key := (case flt OpRemoveKey of None \<Rightarrow> None | Some _ \<Rightarrow> Some held)\<rparr>"

definition Create ::
  "crypto \<Rightarrow> string \<Rightarrow> id_faults \<Rightarrow> create_input \<Rightarrow> id_files \<Rightarrow> id_files \<times> (go_error + identity \<times> string)" where
  "Create C dir flt ci fs =
     (case Load dir flt fs of
        Inr _ \<Rightarrow> (fs, Inl (New KindValidation ''identity.Create'' ''device identity already exists''))
      | Inl err \<Rightarrow>
          if \<not> IsKind (Some err) KindNotFound then (fs, Inl err)
          else (case flt OpMkdir of
            Some e \<Rightarrow> (fs, Inl (wrap_err KindPermission ''identity.Create'' ''cannot create identity directory'' e))
          | None \<Rightarrow> (case id_paths dir of Inl err \<Rightarrow> (fs, Inl err) | Inr _ \<Rightarrow>
            (case flt OpGenerateKey of
              Some e \<Rightarrow> (fs, Inl (wrap_err KindInternal ''identity.Create'' ''cannot generate device key'' e))
            | None \<Rightarrow>
              (let priv = cr_key C (ci_seed ci) in
               case flt OpRandID of Some e \<Rightarrow> (fs, Inl e) | None \<Rightarrow>
               (let d = EncodeToString (ci_id ci) in
                case (case flt OpOpenKey of Some e \<Rightarrow> Some e
                      | None \<Rightarrow> if f_key fs \<noteq> None then Some (StdErr OtherOS ''file exists'') else None) of
                  Some e \<Rightarrow> (fs, Inl (wrap_err KindPermission ''identity.Create'' ''cannot create private key file'' e))
                | None \<Rightarrow>
                  (case flt OpWriteKey of Some e \<Rightarrow> (drop_key flt (ci_part_key ci) fs, Inl e)
                   | None \<Rightarrow>
                     (let fs1 = fs\<lparr>f_key := Some priv\<rparr> in
                      case flt OpCloseKey of Some e \<Rightarrow> (fs1, Inl e)
                      | None \<Rightarrow>
                        (case flt OpWriteMeta of
                           Some e \<Rightarrow> ((drop_key flt priv fs1)\<lparr>f_meta := ci_partial ci\<rparr>, Inl e)
                         | None \<Rightarrow>
                           (let fs2 = fs1\<lparr>f_meta := Some (meta_bytes d (ci_stamp ci))\<rparr>;
                                i = \<lparr>id_DeviceID = d, id_PublicKey = public_of priv, id_privateKey = priv\<rparr>
                            in case PairingToken C i (case flt OpRandNonce of None \<Rightarrow> Some (ci_nonce ci)
                                                      | Some _ \<Rightarrow> None) (ci_now ci) of
                                 Inl e \<Rightarrow> (fs2, Inl e)
                               | Inr tok \<Rightarrow> (fs2, Inr (i, tok))))))))))))"

definition Delete :: "string \<Rightarrow> id_faults \<Rightarrow> id_files \<Rightarrow> id_files \<times> (go_error + string)" where
  "Delete dir flt fs =
     (case Load dir flt fs of Inl err \<Rightarrow> (fs, Inl err)
      | Inr i \<Rightarrow>
          (case id_paths dir of Inl err \<Rightarrow> (fs, Inl err) | Inr _ \<Rightarrow>
           (case flt OpRemoveKey of
              Some e \<Rightarrow> (fs, Inl (wrap_err KindPermission ''identity.Delete'' ''cannot remove private key'' e))
            | None \<Rightarrow>
                (let fs1 = fs\<lparr>f_key := None\<rparr> in
                 case flt OpRemoveMeta of
                   Some e \<Rightarrow> (fs1, Inl (wrap_err KindPermission ''identity.Delete'' ''cannot remove device metadata'' e))
                 | None \<Rightarrow> (fs1\<lparr>f_meta := None\<rparr>, Inr (id_DeviceID i))))))"

definition VerifySignature :: "crypto \<Rightarrow> bytes \<Rightarrow> bytes \<Rightarrow> bytes \<Rightarrow> bool" where
  "VerifySignature C pub challenge sig \<longleftrightarrow> length pub = PublicKeySize \<and> cr_verify C pub challenge sig"

definition Sign :: "crypto \<Rightarrow> identity \<Rightarrow> bytes \<Rightarrow> go_error + bytes" where
  "Sign C i challenge =
     (if length (id_privateKey i) \<noteq> PrivateKeySize
      then Inl (New KindPermission ''identity.Sign'' ''private key is unavailable'')
      else Inr (cr_sign C (id_privateKey i) challenge))"

section \<open>Decoding what was encoded\<close>

lemma EqualFold_Cons: "EqualFold (c # s) (d # t) \<longleftrightarrow> lower_char c = lower_char d \<and> EqualFold s t"
  "EqualFold [] [] \<longleftrightarrow> True" "EqualFold (c # s) [] \<longleftrightarrow> False" "EqualFold [] (d # t) \<longleftrightarrow> False"
  by (simp_all add: EqualFold_def)

lemma EqualFold_refl [simp]: "EqualFold s s"
  by (simp add: EqualFold_def)

lemmas fold_eval = EqualFold_Cons lower_char_def is_upper_def

lemma decode_meta [simp]: "decode_device_id (meta_bytes d stamp) = Some d"
proof -
  have "Unmarshal (meta_bytes d stamp) = Some (JObj [(''device_id'', JStr d), (''created_at'', JStr stamp)])"
    unfolding meta_bytes_def by (rule go_json.dec_enc) simp
  then show ?thesis
    by (simp add: decode_device_id_def struct_fields_def fold_eval)
qed

definition int64_range :: "int \<Rightarrow> bool" where
  "int64_range i \<longleftrightarrow> min_int64 \<le> i \<and> i \<le> max_int64"

lemma wf_envelope [simp]: "wf_json (envelope_json e)"
  by (simp add: envelope_json_def)

lemma decode_envelope_Marshal:
  assumes "int64_range (te_Version e)" "int64_range (te_ExpiresAt e)"
  shows "decode_envelope (Marshal (envelope_json e)) = Some e"
proof -
  have "Unmarshal (Marshal (envelope_json e)) = Some (envelope_json e)"
    by (rule go_json.dec_enc) simp
  then show ?thesis
    using assms
    by (simp add: decode_envelope_def envelope_json_def struct_fields_def fold_eval JInt_def
        Atoi_Itoa int64_range_def)
qed

interpretation envelope: codec "\<lambda>e. Marshal (envelope_json e)" decode_envelope
    "\<lambda>e. int64_range (te_Version e) \<and> int64_range (te_ExpiresAt e)"
  by unfold_locales (simp add: decode_envelope_Marshal)

interpretation token_text: codec_pair "\<lambda>e. Marshal (envelope_json e)" decode_envelope
    "\<lambda>e. int64_range (te_Version e) \<and> int64_range (te_ExpiresAt e)"
    EncodeToString DecodeString "\<lambda>_. True"
  by unfold_locales simp

lemma length_envelope:
  assumes "plain_str (te_DeviceID e)" "plain_str (te_PublicKey e)" "plain_str (te_Nonce e)"
    "plain_str (te_Signature e)" "int64_range (te_Version e)" "int64_range (te_ExpiresAt e)"
  shows "length (Marshal (envelope_json e)) \<le>
    length (te_DeviceID e) + length (te_PublicKey e) + length (te_Nonce e) + length (te_Signature e) + 80"
proof -
  have "print_str True [c] = [CHR 0x22, c, CHR 0x22]" if "c \<in> set ''vdpnes''" for c
    using that by (auto simp: print_str_def esc_char_def)
  then show ?thesis
    using assms length_Itoa [of "te_Version e"] length_Itoa [of "te_ExpiresAt e"]
    by (simp add: Marshal_def envelope_json_def print_plain JInt_def int64_range_def)
qed

section \<open>Tokens\<close>

lemma parseToken_InrD:
  assumes "parseToken C token now = Inr (e, pub)"
  shows "te_DeviceID e \<noteq> []" "Unix now \<le> te_ExpiresAt e" "te_Version e = 1" "length pub = 32"
    "te_Signature e = []" "DecodeString (te_PublicKey e) = Some pub"
    "\<exists>sig. length sig = 64 \<and> cr_verify C pub (Marshal (envelope_json e)) sig"
  using assms
  by (auto simp: parseToken_def Let_def key_sizes split: option.splits if_splits)

lemma parseToken_signed:
  assumes ok: "int64_range (te_Version e)" "int64_range (te_ExpiresAt e)"
    and e: "te_Version e = 1" "te_DeviceID e \<noteq> []" "te_Signature e = []"
    and pub: "te_PublicKey e = EncodeToString pub" "length pub = 32"
    and sig: "length sig = 64" "cr_verify C pub (Marshal (envelope_json e)) sig"
    and len: "length (Marshal (envelope_json (e\<lparr>te_Signature := EncodeToString sig\<rparr>))) \<le> 4096"
  shows "parseToken C (EncodeToString (Marshal (envelope_json (e\<lparr>te_Signature := EncodeToString sig\<rparr>)))) now
    = (if Unix now \<le> te_ExpiresAt e then Inr (e, pub)
       else Inl (token_err ''pairing token is invalid or expired''))"
proof -
  let ?e = "e\<lparr>te_Signature := EncodeToString sig\<rparr>"
  have dec: "decode_envelope (Marshal (envelope_json ?e)) = Some ?e"
    using ok by (intro decode_envelope_Marshal) simp_all
  have upd: "e\<lparr>te_Signature := []\<rparr> = e" using e(3) by (cases e) simp
  show ?thesis
    using e pub sig len by (simp add: parseToken_def Let_def key_sizes dec upd)
qed

text \<open>The identities Create and Load hand out, with a device id of the shape Create makes.\<close>

definition good_identity :: "crypto \<Rightarrow> identity \<Rightarrow> bool" where
  "good_identity C i \<longleftrightarrow> generated_key C (id_privateKey i) \<and> id_PublicKey i = public_of (id_privateKey i)
     \<and> (\<exists>b. b \<noteq> [] \<and> length b \<le> 1024 \<and> id_DeviceID i = EncodeToString b)"

lemma unsigned_envelope_simps [simp]:
  "te_Version (unsigned_envelope i nonce now) = 1"
  "te_DeviceID (unsigned_envelope i nonce now) = id_DeviceID i"
  "te_PublicKey (unsigned_envelope i nonce now) = EncodeToString (id_PublicKey i)"
  "te_Nonce (unsigned_envelope i nonce now) = EncodeToString nonce"
  "te_ExpiresAt (unsigned_envelope i nonce now) = Unix (now + tokenLifetime)"
  "te_Signature (unsigned_envelope i nonce now) = []"
  by (simp_all add: unsigned_envelope_def)

lemma int64_one [simp]: "int64_range 1"
  by (simp add: int64_range_def min_int64_def max_int64_def)

lemma PairingToken_parses:
  assumes C: "ed25519_ok C" and i: "good_identity C i" and n: "length nonce = 32"
    and t: "int64_range (Unix (now + tokenLifetime))"
  shows "\<exists>tok. PairingToken C i (Some nonce) now = Inr tok \<and>
    (\<forall>later. parseToken C tok later =
       (if Unix later \<le> Unix (now + tokenLifetime)
        then Inr (unsigned_envelope i nonce now, id_PublicKey i)
        else Inl (token_err ''pairing token is invalid or expired'')))"
proof -
  let ?e = "unsigned_envelope i nonce now"
  let ?sig = "cr_sign C (id_privateKey i) (Marshal (envelope_json ?e))"
  from i obtain b where b: "b \<noteq> []" "length b \<le> 1024" "id_DeviceID i = EncodeToString b"
    and k: "generated_key C (id_privateKey i)" "id_PublicKey i = public_of (id_privateKey i)"
    by (auto simp: good_identity_def)
  note g = generated_keyD [OF C k(1)]
  have "length (Marshal (envelope_json (?e\<lparr>te_Signature := EncodeToString ?sig\<rparr>))) \<le> 4096"
    by (rule order_trans [OF length_envelope])
      (use b k g n t in \<open>simp_all add: length_EncodeToString\<close>)
  then have "parseToken C (EncodeToString (Marshal (envelope_json (?e\<lparr>te_Signature := EncodeToString ?sig\<rparr>)))) later
      = (if Unix later \<le> te_ExpiresAt ?e then Inr (?e, id_PublicKey i)
         else Inl (token_err ''pairing token is invalid or expired''))" for later
    using b k g t by (intro parseToken_signed) simp_all
  then show ?thesis by (simp add: PairingToken_def Let_def)
qed

section \<open>Create, Load and Delete\<close>

lemma id_paths_ok: "dir \<noteq> [] \<Longrightarrow> IsAbs dir \<Longrightarrow> is_ok (id_paths dir)"
  by (simp add: id_paths_def)

lemma id_paths_abs [simp]:
  "IsAbs dir \<Longrightarrow> id_paths dir = Inr (join_path dir ''device.key'', join_path dir ''device.json'')"
  by (auto simp: id_paths_def IsAbs_def HasPrefix_def)

lemma Load_InrD:
  assumes "Load dir flt fs = Inr i"
  shows "IsAbs dir" "f_key fs = Some (id_privateKey i)" "length (id_privateKey i) = 64"
    "id_DeviceID i \<noteq> []" "id_PublicKey i = public_of (id_privateKey i)" "f_meta fs \<noteq> None"
  using assms
  by (auto simp: Load_def id_paths_def read_file_def res_bind_eq_Inr key_sizes Let_def
      split: option.splits if_splits sum.splits)

lemma Load_files:
  assumes "IsAbs dir" "flt OpReadKey = None" "flt OpReadMeta = None" "f_key fs = Some key"
    "length key = 64" "f_meta fs = Some (meta_bytes d stamp)" "d \<noteq> []"
  shows "Load dir flt fs = Inr \<lparr>id_DeviceID = d, id_PublicKey = public_of key, id_privateKey = key\<rparr>"
  using assms by (simp add: Load_def read_file_def key_sizes)

lemma Load_no_key:
  assumes "IsAbs dir" "flt OpReadKey = None" "f_key fs = None"
  shows "Load dir flt fs = Inl (New KindNotFound ''identity.Load'' ''no local device identity exists'')"
  using assms by (simp add: Load_def read_file_def)

lemma Load_key_without_meta:
  assumes "IsAbs dir" "flt OpReadKey = None" "flt OpReadMeta = None" "f_key fs = Some key"
    "length key = 64" "f_meta fs = None"
  shows "Load dir flt fs = Inl (wrap_err KindStorage ''identity.Load'' ''cannot read device metadata''
    (StdErr NotExist ''no such file or directory''))"
  using assms by (simp add: Load_def read_file_def key_sizes)

lemmas option_sum_splits = option.splits sum.splits if_splits prod.splits

lemma Create_load_error:
  "Load dir flt fs = Inl err \<Longrightarrow> \<not> IsKind (Some err) KindNotFound \<Longrightarrow> Create C dir flt ci fs = (fs, Inl err)"
  by (simp add: Create_def)

lemma Create_keeps_key:
  assumes "f_key fs = Some k"
  shows "fst (Create C dir flt ci fs) = fs"
  using assms by (simp add: Create_def Let_def split: option_sum_splits)

lemma Create_fails_clean:
  assumes "snd (Create C dir flt ci fs) = Inl e" "flt OpCloseKey = None" "flt OpRandNonce = None"
    "flt OpRemoveKey = None"
  shows "f_key (fst (Create C dir flt ci fs)) = f_key fs"
  using assms by (auto simp: Create_def Let_def PairingToken_def drop_key_def split: option_sum_splits)

lemma Create_no_faults:
  assumes "IsAbs dir" "f_key fs = None"
  shows "\<exists>tok i. Create C dir no_faults ci fs =
      (\<lparr>f_key = Some (cr_key C (ci_seed ci)),
        f_meta = Some (meta_bytes (EncodeToString (ci_id ci)) (ci_stamp ci))\<rparr>, Inr (i, tok))
    \<and> i = \<lparr>id_DeviceID = EncodeToString (ci_id ci), id_PublicKey = public_of (cr_key C (ci_seed ci)),
          id_privateKey = cr_key C (ci_seed ci)\<rparr>
    \<and> PairingToken C i (Some (ci_nonce ci)) (ci_now ci) = Inr tok"
  using assms
  by (simp add: Create_def Load_no_key no_faults_def IsKind_def Let_def PairingToken_def)

lemma Delete_InrD:
  assumes "Delete dir flt fs = (fs', Inr d)"
  shows "fs' = \<lparr>f_key = None, f_meta = None\<rparr> \<and> (\<exists>i. Load dir flt fs = Inr i \<and> id_DeviceID i = d)"
  using assms by (auto simp: Delete_def Let_def split: option_sum_splits)

section \<open>A concrete instance\<close>

text \<open>
  A signature scheme small enough to compute with, on which the hypotheses about the cryptography
  hold: a signature is the public key and the first 32 bytes of the message.
\<close>

definition pad32 :: "bytes \<Rightarrow> bytes" where
  "pad32 m = take 32 (m @ replicate 32 CHR 0x00)"

definition toy_crypto :: crypto where
  "toy_crypto = \<lparr>cr_key = (\<lambda>s. s @ s), cr_sign = (\<lambda>k m. public_of k @ pad32 m),
     cr_verify = (\<lambda>pub m sig. sig = pub @ pad32 m), cr_sha256 = (\<lambda>t. t)\<rparr>"

definition toy_seed :: bytes where "toy_seed = replicate 32 CHR ''k''"

definition toy_input :: create_input where
  "toy_input = \<lparr>ci_seed = toy_seed, ci_id = replicate 16 CHR ''d'', ci_nonce = replicate 32 CHR ''n'',
     ci_stamp = ''1970-01-01T00:00:00Z'', ci_now = 0, ci_part_key = [], ci_partial = None\<rparr>"

definition toy_identity :: identity where
  "toy_identity = \<lparr>id_DeviceID = EncodeToString (replicate 16 CHR ''d''), id_PublicKey = toy_seed,
     id_privateKey = toy_seed @ toy_seed\<rparr>"

definition no_files :: id_files where "no_files = \<lparr>f_key = None, f_meta = None\<rparr>"

lemma length_pad32 [simp]: "length (pad32 m) = 32"
  by (simp add: pad32_def)

lemma toy_crypto_ok: "ed25519_ok toy_crypto"
  by (simp add: ed25519_ok_def toy_crypto_def public_of_def)

lemma toy_seed_length [simp]: "length toy_seed = 32"
  by (simp add: toy_seed_def)

lemma toy_identity_simps [simp]:
  "id_DeviceID toy_identity = EncodeToString (replicate 16 CHR ''d'')" "id_PublicKey toy_identity = toy_seed"
  "id_privateKey toy_identity = toy_seed @ toy_seed"
  by (simp_all add: toy_identity_def)

lemma toy_identity_good: "good_identity toy_crypto toy_identity"
proof -
  have "generated_key toy_crypto (toy_seed @ toy_seed)"
    unfolding generated_key_def by (intro exI [of _ toy_seed]) (simp add: toy_crypto_def)
  moreover have "public_of (toy_seed @ toy_seed) = toy_seed" by (simp add: public_of_def)
  moreover have "\<exists>b. b \<noteq> [] \<and> length b \<le> 1024 \<and> EncodeToString (replicate 16 CHR ''d'') = EncodeToString b"
    by (intro exI [of _ "replicate 16 CHR ''d''"]) simp
  ultimately show ?thesis by (simp add: good_identity_def)
qed

lemma toy_lifetime: "int64_range (Unix (0 + tokenLifetime))"
  by (simp add: int64_range_def Unix_def tokenLifetime_def time_units min_int64_def max_int64_def)

section \<open>Properties\<close>

text \<open>
  C9. The pairing token an identity prints is accepted by \<open>parseToken\<close>, and yields the device id and public
  key that signed it, up to and including the second ten minutes after it was made; from the next
  second on it is refused.
\<close>

theorem pairing_token_roundtrip:
  assumes "ed25519_ok C" "good_identity C i" "length nonce = 32" "int64_range (Unix (now + tokenLifetime))"
  shows "\<exists>tok. PairingToken C i (Some nonce) now = Inr tok \<and>
    (\<forall>later. parseToken C tok later =
       (if Unix later \<le> Unix (now + tokenLifetime)
        then Inr (unsigned_envelope i nonce now, id_PublicKey i)
        else Inl (token_err ''pairing token is invalid or expired'')))"
  by (rule PairingToken_parses [OF assms])

theorem pairing_token_roundtrip_witness:
  "\<exists>tok. PairingToken toy_crypto toy_identity (Some (replicate 32 CHR ''n'')) 0 = Inr tok \<and>
    is_ok (parseToken toy_crypto tok (9 * Minute)) \<and> is_err (parseToken toy_crypto tok (11 * Minute))"
proof -
  obtain tok where t: "PairingToken toy_crypto toy_identity (Some (replicate 32 CHR ''n'')) 0 = Inr tok"
    "\<And>later. parseToken toy_crypto tok later = (if Unix later \<le> Unix (0 + tokenLifetime)
        then Inr (unsigned_envelope toy_identity (replicate 32 CHR ''n'') 0, id_PublicKey toy_identity)
        else Inl (token_err ''pairing token is invalid or expired''))"
    using pairing_token_roundtrip [OF toy_crypto_ok toy_identity_good, of "replicate 32 CHR ''n''" 0] toy_lifetime
    by auto
  have "Unix (9 * Minute) \<le> Unix (0 + tokenLifetime)" "\<not> Unix (11 * Minute) \<le> Unix (0 + tokenLifetime)"
    by (simp_all add: Unix_def tokenLifetime_def time_units)
  with t show ?thesis by simp
qed

text \<open>
  C10. Creating an identity where there is none and no call fails writes a key and metadata that Load reads
  back as the same identity, with a generated key, and prints a token that parses to that identity at once.
\<close>

theorem create_load_roundtrip:
  assumes "ed25519_ok C" "IsAbs dir" "f_key fs = None" "length (ci_seed ci) = 32" "length (ci_id ci) = 16"
    "length (ci_nonce ci) = 32" "int64_range (Unix (ci_now ci + tokenLifetime))"
  shows "\<exists>fs' i tok. Create C dir no_faults ci fs = (fs', Inr (i, tok))
    \<and> Load dir no_faults fs' = Inr i \<and> Metadata dir no_faults fs' = Inr (id_DeviceID i) \<and> good_identity C i
    \<and> parseToken C tok (ci_now ci) = Inr (unsigned_envelope i (ci_nonce ci) (ci_now ci), id_PublicKey i)"
proof -
  from Create_no_faults [OF assms(2,3), of C ci] obtain tok i where
    c: "Create C dir no_faults ci fs =
      (\<lparr>f_key = Some (cr_key C (ci_seed ci)),
        f_meta = Some (meta_bytes (EncodeToString (ci_id ci)) (ci_stamp ci))\<rparr>, Inr (i, tok))"
    and i: "i = \<lparr>id_DeviceID = EncodeToString (ci_id ci), id_PublicKey = public_of (cr_key C (ci_seed ci)),
          id_privateKey = cr_key C (ci_seed ci)\<rparr>"
    and t: "PairingToken C i (Some (ci_nonce ci)) (ci_now ci) = Inr tok" by blast
  have ne: "ci_id ci \<noteq> []" and k: "length (cr_key C (ci_seed ci)) = 64"
    using assms(1,4,5) by (auto simp: ed25519_ok_def)
  have g: "good_identity C i"
    using assms(4,5) ne by (auto simp: i good_identity_def generated_key_def)
  have "Unix (ci_now ci) \<le> Unix (ci_now ci + tokenLifetime)"
    by (rule Unix_mono) (simp add: tokenLifetime_def time_units)
  with PairingToken_parses [OF assms(1) g assms(6,7)] t
  have p: "parseToken C tok (ci_now ci) = Inr (unsigned_envelope i (ci_nonce ci) (ci_now ci), id_PublicKey i)"
    by auto
  have "Load dir no_faults \<lparr>f_key = Some (cr_key C (ci_seed ci)),
        f_meta = Some (meta_bytes (EncodeToString (ci_id ci)) (ci_stamp ci))\<rparr> = Inr i"
    using k ne assms(2) Load_files [of dir no_faults _ "cr_key C (ci_seed ci)" "EncodeToString (ci_id ci)" "ci_stamp ci"]
    by (simp add: i no_faults_def)
  moreover have "Metadata dir no_faults \<lparr>f_key = Some (cr_key C (ci_seed ci)),
        f_meta = Some (meta_bytes (EncodeToString (ci_id ci)) (ci_stamp ci))\<rparr> = Inr (id_DeviceID i)"
    using ne assms(2) by (simp add: Metadata_def read_file_def no_faults_def i)
  ultimately show ?thesis using c g p by blast
qed

theorem create_load_roundtrip_witness:
  "\<exists>fs' i tok. Create toy_crypto ''/data'' no_faults toy_input no_files = (fs', Inr (i, tok))
    \<and> Load ''/data'' no_faults fs' = Inr i"
proof -
  have "IsAbs ''/data''" by (simp add: IsAbs_def HasPrefix_def)
  with create_load_roundtrip [OF toy_crypto_ok, of "''/data''" no_files toy_input] toy_lifetime
  show ?thesis by (auto simp: no_files_def toy_input_def)
qed

text \<open>
  Create never replaces a key: where a key file exists it fails and leaves both files as they were,
  whatever system calls fail.
\<close>

theorem create_never_overwrites:
  assumes "f_key fs = Some k"
  shows "fst (Create C dir flt ci fs) = fs \<and> is_err (snd (Create C dir flt ci fs))"
  using assms by (simp add: Create_def Let_def split: option_sum_splits)

theorem create_never_overwrites_witness:
  "is_err (snd (Create toy_crypto ''/data'' no_faults toy_input \<lparr>f_key = Some ''abc'', f_meta = None\<rparr>))"
  using create_never_overwrites [of "\<lparr>f_key = Some ''abc'', f_meta = None\<rparr>" "''abc''"] by simp

text \<open>
  When closing the new key file fails, Create reports the error but leaves the key without metadata;
  from then on Load, Create and Delete fail even when every call works, so the command line cannot
  recover the identity directory.
\<close>

theorem close_failure_locks_identity:
  assumes C: "ed25519_ok C" and dir: "IsAbs dir" and fs: "fs = \<lparr>f_key = None, f_meta = None\<rparr>"
    and seed: "length (ci_seed ci) = 32" and flt: "flt = no_faults(OpCloseKey := Some e)"
  defines "fs' \<equiv> fst (Create C dir flt ci fs)"
  shows "snd (Create C dir flt ci fs) = Inl e
    \<and> is_err (Load dir no_faults fs') \<and> is_err (snd (Create C dir no_faults ci' fs'))
    \<and> is_err (snd (Delete dir no_faults fs'))"
proof -
  have k: "length (cr_key C (ci_seed ci)) = 64" using C seed by (simp add: ed25519_ok_def)
  have c: "Create C dir flt ci fs = (\<lparr>f_key = Some (cr_key C (ci_seed ci)), f_meta = None\<rparr>, Inl e)"
    using dir by (simp add: Create_def Load_no_key flt no_faults_def IsKind_def Let_def fs)
  have fs': "fs' = \<lparr>f_key = Some (cr_key C (ci_seed ci)), f_meta = None\<rparr>"
    by (simp add: fs'_def c)
  have l: "Load dir no_faults fs' =
      Inl (wrap_err KindStorage ''identity.Load'' ''cannot read device metadata''
        (StdErr NotExist ''no such file or directory''))"
    using dir k by (intro Load_key_without_meta) (simp_all add: no_faults_def fs')
  from Create_load_error [OF l, of C ci'] have "is_err (snd (Create C dir no_faults ci' fs'))"
    by (simp add: IsKind_def)
  with l show ?thesis by (simp add: c Delete_def)
qed

theorem close_failure_locks_identity_witness:
  "is_err (Load ''/data'' no_faults (fst (Create toy_crypto ''/data''
     (no_faults(OpCloseKey := Some rand_error)) toy_input no_files)))"
proof -
  have "IsAbs ''/data''" by (simp add: IsAbs_def HasPrefix_def)
  from close_failure_locks_identity [OF toy_crypto_ok this refl, of toy_input _ rand_error toy_input]
  show ?thesis by (simp add: toy_input_def no_files_def)
qed

end
