(* ===== verification/Trust_Store.thy ===== *)
theory Trust_Store
  imports Device_Key "HOL-Library.List_Lexorder" "HOL-Library.Char_ord"
begin

text \<open>
  \<open>Repository\<close> of \<open>internal/identity/identity.go\<close> over the tables of migration 2 of
  \<open>internal/storage/migrate.go\<close>: the trusted devices, the pairing tokens that registered them and the
  security audit. Any SQL statement can fail; the constraints of the schema are part of the model.
\<close>

section \<open>The tables\<close>

record device_row =
  dr_id :: string
  dr_key :: bytes
  dr_created :: string
  dr_status :: string

record token_row =
  tr_id :: string
  tr_hash :: bytes
  tr_device :: string
  tr_created :: string
  tr_expires :: string
  tr_used :: string
  tr_status :: string

record audit_row =
  au_event :: string
  au_device :: string
  au_success :: int
  au_reason :: string
  au_at :: string

text \<open>Rows in order of insertion. \<open>last_seen_at\<close> is never written and is left out.\<close>

record database =
  db_devices :: "device_row list"
  db_tokens :: "token_row list"
  db_audit :: "audit_row list"

definition empty_db :: database where
  "empty_db = \<lparr>db_devices = [], db_tokens = [], db_audit = []\<rparr>"

definition constraint_err :: "string \<Rightarrow> go_error" where
  "constraint_err m = StdErr OtherOS (''constraint failed: '' @ m)"

definition insert_device :: "device_row \<Rightarrow> database \<Rightarrow> go_error + database" where
  "insert_device r db =
     (if dr_id r \<in> dr_id ` set (db_devices db)
      then Inl (constraint_err ''UNIQUE constraint failed: device_identities.device_id'')
      else if dr_key r \<in> dr_key ` set (db_devices db)
      then Inl (constraint_err ''UNIQUE constraint failed: device_identities.public_key'')
      else if dr_status r \<notin> {''active'', ''revoked''}
      then Inl (constraint_err ''CHECK constraint failed: status'')
      else Inr (db\<lparr>db_devices := db_devices db @ [r]\<rparr>))"

definition insert_token :: "token_row \<Rightarrow> database \<Rightarrow> go_error + database" where
  "insert_token r db =
     (if tr_id r \<in> tr_id ` set (db_tokens db)
      then Inl (constraint_err ''UNIQUE constraint failed: pairing_tokens.token_id'')
      else if tr_hash r \<in> tr_hash ` set (db_tokens db)
      then Inl (constraint_err ''UNIQUE constraint failed: pairing_tokens.token_hash'')
      else if tr_status r \<notin> {''pending'', ''used'', ''expired'', ''rejected''}
      then Inl (constraint_err ''CHECK constraint failed: status'')
      else if tr_device r \<notin> dr_id ` set (db_devices db)
      then Inl (constraint_err ''FOREIGN KEY constraint failed'')
      else Inr (db\<lparr>db_tokens := db_tokens db @ [r]\<rparr>))"

definition insert_audit :: "audit_row \<Rightarrow> database \<Rightarrow> go_error + database" where
  "insert_audit r db =
     (if au_success r \<notin> {0, 1} then Inl (constraint_err ''CHECK constraint failed: success'')
      else Inr (db\<lparr>db_audit := db_audit db @ [r]\<rparr>))"

section \<open>Statements that can fail\<close>

datatype sql_op =
    SqlBegin | SqlFindToken | SqlFindDevice | SqlFindKey | SqlInsertDevice | SqlInsertToken
  | SqlInsertAudit | SqlCommit | SqlAudit | SqlList | SqlScan | SqlRows | SqlGet | SqlUpdate

type_synonym sql_faults = "sql_op \<Rightarrow> go_error option"

definition sql_ok :: sql_faults where "sql_ok = (\<lambda>_. None)"

definition exec :: "go_error option \<Rightarrow> (database \<Rightarrow> go_error + database) \<Rightarrow> database \<Rightarrow> go_error + database" where
  "exec fault stmt db = (case fault of Some e \<Rightarrow> Inl e | None \<Rightarrow> stmt db)"

section \<open>The repository\<close>

record Device =
  dv_DeviceID :: string
  dv_PublicKey :: bytes
  dv_CreatedAt :: instant
  dv_Status :: string

definition zero_time :: instant where "zero_time = - 62135596800 * Second"

text \<open>A row as \<open>rows.Scan\<close> and \<open>time.Parse\<close> deliver it; a stamp that does not parse is the zero time.\<close>

definition scan_device :: "device_row \<Rightarrow> Device" where
  "scan_device r = \<lparr>dv_DeviceID = dr_id r, dv_PublicKey = dr_key r,
     dv_CreatedAt = (case parse_RFC3339Nano (dr_created r) of Some t \<Rightarrow> t | None \<Rightarrow> zero_time),
     dv_Status = dr_status r\<rparr>"

definition audit ::
  "sql_faults \<Rightarrow> string \<Rightarrow> string \<Rightarrow> bool \<Rightarrow> string \<Rightarrow> instant \<Rightarrow> database \<Rightarrow> database" where
  "audit flt event d success reason now db =
     (case exec (flt SqlAudit)
        (insert_audit \<lparr>au_event = event, au_device = d, au_success = (if success then 1 else 0),
                       au_reason = reason, au_at = RFC3339Nano now\<rparr>) db of
        Inl _ \<Rightarrow> db | Inr db' \<Rightarrow> db')"

text \<open>The three inserts of \<open>Replace\<close>'s transaction.\<close>

definition register_rows ::
  "sql_faults \<Rightarrow> tokenEnvelope \<Rightarrow> bytes \<Rightarrow> bytes \<Rightarrow> string \<Rightarrow> database \<Rightarrow> go_error + database" where
  "register_rows flt e pub h stamp db =
     res_bind (exec (flt SqlInsertDevice)
        (insert_device \<lparr>dr_id = te_DeviceID e, dr_key = pub, dr_created = stamp, dr_status = ''active''\<rparr>) db) (\<lambda>db1.
     res_bind (exec (flt SqlInsertToken)
        (insert_token \<lparr>tr_id = te_DeviceID e, tr_hash = h, tr_device = te_DeviceID e, tr_created = stamp,
           tr_expires = RFC3339Nano (te_ExpiresAt e * Second), tr_used = stamp, tr_status = ''used''\<rparr>) db1) (\<lambda>db2.
     exec (flt SqlInsertAudit)
        (insert_audit \<lparr>au_event = ''pairing_succeeded'', au_device = te_DeviceID e, au_success = 1,
           au_reason = [], au_at = stamp\<rparr>) db2))"

text \<open>
  A lookup whose query fails counts as not found, as the code's \<open>Scan(...) == nil\<close> makes it. Nothing
  of the transaction is kept when a statement or the commit fails (the deferred rollback).
\<close>

definition Replace ::
  "crypto \<Rightarrow> sql_faults \<Rightarrow> string \<Rightarrow> instant \<Rightarrow> database \<Rightarrow> database \<times> (go_error + Device)" where
  "Replace C flt token now db =
     (case parseToken C token now of
        Inl err \<Rightarrow> (audit flt ''pairing_rejected'' [] False ''invalid or expired token'' now db, Inl err)
      | Inr (e, pub) \<Rightarrow>
          (let h = cr_sha256 C token in
           case flt SqlBegin of Some err \<Rightarrow> (db, Inl err)
           | None \<Rightarrow>
               if flt SqlFindToken = None \<and> h \<in> tr_hash ` set (db_tokens db)
               then (db, Inl (New KindValidation ''identity.Replace'' ''pairing token has already been used''))
               else if flt SqlFindDevice = None \<and> te_DeviceID e \<in> dr_id ` set (db_devices db)
               then (db, Inl (New KindValidation ''identity.Replace'' ''device identity is already registered''))
               else if flt SqlFindKey = None \<and> pub \<in> dr_key ` set (db_devices db)
               then (db, Inl (New KindValidation ''identity.Replace'' ''public key is already registered''))
               else (case register_rows flt e pub h (RFC3339Nano now) db of
                  Inl err \<Rightarrow> (db, Inl err)
                | Inr db' \<Rightarrow>
                    (case flt SqlCommit of Some err \<Rightarrow> (db, Inl err)
                     | None \<Rightarrow> (db', Inr \<lparr>dv_DeviceID = te_DeviceID e, dv_PublicKey = pub,
                                         dv_CreatedAt = now, dv_Status = ''active''\<rparr>)))))"

text \<open>\<open>ORDER BY created_at\<close> compares the stamps as text; rows with one stamp keep their order.\<close>

definition List_devices :: "sql_faults \<Rightarrow> database \<Rightarrow> go_error + Device list" where
  "List_devices flt db =
     (case flt SqlList of Some e \<Rightarrow> Inl e
      | None \<Rightarrow>
          if db_devices db \<noteq> [] \<and> flt SqlScan \<noteq> None then Inl (the (flt SqlScan))
          else (case flt SqlRows of Some e \<Rightarrow> Inl e
                | None \<Rightarrow> Inr (map scan_device (sort_key dr_created (db_devices db)))))"

definition Get :: "sql_faults \<Rightarrow> string \<Rightarrow> database \<Rightarrow> go_error + Device" where
  "Get flt d db =
     (case (if flt SqlGet = None then List.find (\<lambda>r. dr_id r = d) (db_devices db) else None) of
        None \<Rightarrow> Inl (New KindNotFound ''identity.Get'' ''device identity was not found'')
      | Some r \<Rightarrow> Inr (scan_device r))"

definition active_row :: "string \<Rightarrow> device_row \<Rightarrow> bool" where
  "active_row d r \<longleftrightarrow> dr_id r = d \<and> dr_status r = ''active''"

definition revoke_rows :: "string \<Rightarrow> database \<Rightarrow> database" where
  "revoke_rows d db = db\<lparr>db_devices :=
     map (\<lambda>r. if active_row d r then r\<lparr>dr_status := ''revoked''\<rparr> else r) (db_devices db)\<rparr>"

definition Revoke :: "sql_faults \<Rightarrow> string \<Rightarrow> instant \<Rightarrow> database \<Rightarrow> database \<times> go_error option" where
  "Revoke flt d now db =
     (case flt SqlUpdate of Some e \<Rightarrow> (db, Some e)
      | None \<Rightarrow>
          if filter (active_row d) (db_devices db) = []
          then (db, Some (New KindNotFound ''identity.Revoke'' ''active device identity was not found''))
          else (case exec (flt SqlInsertAudit)
                  (insert_audit \<lparr>au_event = ''device_revoked'', au_device = d, au_success = 1,
                                 au_reason = [], au_at = RFC3339Nano now\<rparr>) (revoke_rows d db) of
                  Inl e \<Rightarrow> (revoke_rows d db, Some e)
                | Inr db' \<Rightarrow> (db', None)))"

section \<open>The invariant of the tables\<close>

definition db_ok :: "database \<Rightarrow> bool" where
  "db_ok db \<longleftrightarrow>
     distinct (map dr_id (db_devices db)) \<and> distinct (map dr_key (db_devices db))
     \<and> (\<forall>r \<in> set (db_devices db). dr_status r \<in> {''active'', ''revoked''} \<and> length (dr_key r) = 32 \<and> dr_id r \<noteq> [])
     \<and> map tr_device (db_tokens db) = map dr_id (db_devices db)
     \<and> map tr_id (db_tokens db) = map dr_id (db_devices db)
     \<and> distinct (map tr_hash (db_tokens db))
     \<and> (\<forall>t \<in> set (db_tokens db). tr_status t = ''used'')
     \<and> (\<forall>a \<in> set (db_audit db). au_success a \<in> {0, 1})"

lemma db_ok_empty [simp, wf_intros]: "db_ok empty_db"
  by (simp add: db_ok_def empty_db_def)

lemma audit_tables [simp]:
  "db_devices (audit flt ev d s r now db) = db_devices db"
  "db_tokens (audit flt ev d s r now db) = db_tokens db"
  by (simp_all add: audit_def exec_def insert_audit_def split: option.splits)

lemma audit_appends:
  "\<exists>rows. db_audit (audit flt ev d s r now db) = db_audit db @ rows \<and> (\<forall>a \<in> set rows. au_success a \<in> {0, 1})"
  by (simp add: audit_def exec_def insert_audit_def split: option.splits)

lemma audit_ok [preserved]: "db_ok db \<Longrightarrow> db_ok (audit flt ev d s r now db)"
  using audit_appends [of flt ev d s r now db] by (auto simp: db_ok_def)

lemma active_row_simps [simp]:
  "dr_id (if active_row d r then r\<lparr>dr_status := st\<rparr> else r) = dr_id r"
  "dr_key (if active_row d r then r\<lparr>dr_status := st\<rparr> else r) = dr_key r"
  "dr_created (if active_row d r then r\<lparr>dr_status := st\<rparr> else r) = dr_created r"
  by simp_all

lemma revoke_rows_maps [simp]:
  "map dr_id (db_devices (revoke_rows d db)) = map dr_id (db_devices db)"
  "map dr_key (db_devices (revoke_rows d db)) = map dr_key (db_devices db)"
  "db_tokens (revoke_rows d db) = db_tokens db"
  "db_audit (revoke_rows d db) = db_audit db"
  by (simp_all add: revoke_rows_def)

lemma revoke_rows_ok [preserved]: "db_ok db \<Longrightarrow> db_ok (revoke_rows d db)"
  unfolding db_ok_def by (simp del: map_map) (auto simp: revoke_rows_def)

text \<open>What a committed registration did; no query fault weakens it.\<close>

definition registered ::
  "tokenEnvelope \<Rightarrow> bytes \<Rightarrow> bytes \<Rightarrow> string \<Rightarrow> database \<Rightarrow> database" where
  "registered e pub h stamp db =
     \<lparr>db_devices = db_devices db @
        [\<lparr>dr_id = te_DeviceID e, dr_key = pub, dr_created = stamp, dr_status = ''active''\<rparr>],
      db_tokens = db_tokens db @
        [\<lparr>tr_id = te_DeviceID e, tr_hash = h, tr_device = te_DeviceID e, tr_created = stamp,
          tr_expires = RFC3339Nano (te_ExpiresAt e * Second), tr_used = stamp, tr_status = ''used''\<rparr>],
      db_audit = db_audit db @
        [\<lparr>au_event = ''pairing_succeeded'', au_device = te_DeviceID e, au_success = 1,
          au_reason = [], au_at = stamp\<rparr>]\<rparr>"

definition fresh_pairing :: "tokenEnvelope \<Rightarrow> bytes \<Rightarrow> bytes \<Rightarrow> database \<Rightarrow> bool" where
  "fresh_pairing e pub h db \<longleftrightarrow>
     te_DeviceID e \<notin> dr_id ` set (db_devices db) \<and> pub \<notin> dr_key ` set (db_devices db)
     \<and> h \<notin> tr_hash ` set (db_tokens db)"

lemma register_rows_InrD:
  assumes "register_rows flt e pub h stamp db = Inr db'"
  shows "db' = registered e pub h stamp db \<and> fresh_pairing e pub h db"
  using assms
  by (auto simp: register_rows_def res_bind_eq_Inr exec_def insert_device_def insert_token_def
      insert_audit_def registered_def fresh_pairing_def split: option.splits if_splits)

lemma register_rows_Inr:
  assumes "db_ok db" "fresh_pairing e pub h db"
  shows "register_rows sql_ok e pub h stamp db = Inr (registered e pub h stamp db)"
proof -
  have "map tr_id (db_tokens db) = map dr_id (db_devices db)" using assms(1) by (simp add: db_ok_def)
  then have "tr_id ` set (db_tokens db) = dr_id ` set (db_devices db)"
    by (metis list.set_map)
  then show ?thesis
    using assms(2)
    by (simp add: register_rows_def sql_ok_def exec_def insert_device_def insert_token_def
        insert_audit_def registered_def fresh_pairing_def)
qed

lemma Replace_InrD:
  assumes "Replace C flt token now db = (db', Inr dev)"
  shows "\<exists>e pub. parseToken C token now = Inr (e, pub)
    \<and> fresh_pairing e pub (cr_sha256 C token) db
    \<and> db' = registered e pub (cr_sha256 C token) (RFC3339Nano now) db
    \<and> dev = \<lparr>dv_DeviceID = te_DeviceID e, dv_PublicKey = pub, dv_CreatedAt = now, dv_Status = ''active''\<rparr>"
  using assms
  by (auto simp: Replace_def Let_def dest!: register_rows_InrD split: sum.splits option.splits if_splits)

lemma Replace_InlD:
  assumes "Replace C flt token now db = (db', Inl err)"
  shows "db' = db \<or> db' = audit flt ''pairing_rejected'' [] False ''invalid or expired token'' now db"
  using assms by (auto simp: Replace_def Let_def split: sum.splits option.splits if_splits)

lemma Replace_fresh:
  assumes "db_ok db" "parseToken C token now = Inr (e, pub)" "fresh_pairing e pub (cr_sha256 C token) db"
  shows "Replace C sql_ok token now db =
    (registered e pub (cr_sha256 C token) (RFC3339Nano now) db,
     Inr \<lparr>dv_DeviceID = te_DeviceID e, dv_PublicKey = pub, dv_CreatedAt = now, dv_Status = ''active''\<rparr>)"
  using assms register_rows_Inr [OF assms(1,3)]
  by (simp add: Replace_def sql_ok_def fresh_pairing_def)

lemma registered_ok [preserved]:
  assumes "db_ok db" "fresh_pairing e pub h db" "length pub = 32" "te_DeviceID e \<noteq> []"
  shows "db_ok (registered e pub h stamp db)"
  using assms by (auto simp: db_ok_def registered_def fresh_pairing_def)

lemma Replace_ok [preserved]:
  assumes "db_ok db"
  shows "db_ok (fst (Replace C flt token now db))"
proof (cases "snd (Replace C flt token now db)")
  case (Inl err)
  then show ?thesis
    using Replace_InlD [of C flt token now db "fst (Replace C flt token now db)" err] assms
    by (auto simp: prod_eq_iff audit_ok)
next
  case (Inr dev)
  then obtain e pub where "parseToken C token now = Inr (e, pub)"
      "fresh_pairing e pub (cr_sha256 C token) db"
      "fst (Replace C flt token now db) = registered e pub (cr_sha256 C token) (RFC3339Nano now) db"
    using Replace_InrD [of C flt token now db "fst (Replace C flt token now db)" dev]
    by (auto simp: prod_eq_iff)
  with assms parseToken_InrD [of C token now e pub] show ?thesis by (simp add: registered_ok)
qed

lemma insert_audit_Inr:
  "insert_audit r db = Inr db' \<Longrightarrow> db' = db\<lparr>db_audit := db_audit db @ [r]\<rparr> \<and> au_success r \<in> {0, 1}"
  by (simp add: insert_audit_def split: if_splits)

text \<open>Revoke's effect: the row change happens even where the statement after it fails.\<close>

lemma Revoke_cases:
  obtains (untouched) err where "Revoke flt d now db = (db, Some err)"
  | (unaudited) err where "Revoke flt d now db = (revoke_rows d db, Some err)" "flt SqlUpdate = None"
      "filter (active_row d) (db_devices db) \<noteq> []" "flt SqlInsertAudit = Some err"
  | (revoked) row where "Revoke flt d now db = ((revoke_rows d db)\<lparr>db_audit := db_audit db @ [row]\<rparr>, None)"
      "filter (active_row d) (db_devices db) \<noteq> []" "au_success row \<in> {0, 1}"
  by (cases "flt SqlUpdate"; cases "flt SqlInsertAudit"; cases "filter (active_row d) (db_devices db) = []")
    (simp_all add: Revoke_def exec_def insert_audit_def)

lemma audit_row_ok [preserved]:
  "db_ok db \<Longrightarrow> au_success row \<in> {0, 1} \<Longrightarrow> db_ok (db\<lparr>db_audit := db_audit db @ [row]\<rparr>)"
  by (simp add: db_ok_def)

lemma Revoke_ok [preserved]: "db_ok db \<Longrightarrow> db_ok (fst (Revoke flt d now db))"
  using audit_row_ok [OF revoke_rows_ok]
  by (rule_tac Revoke_cases [of flt d now db]) (simp_all add: revoke_rows_ok)

section \<open>Sequences of operations\<close>

text \<open>Everything the agent, the CLI and the panel do to the tables, each with its own faults.\<close>

datatype trust_op =
    TReplace sql_faults string instant
  | TRevoke sql_faults string instant
  | TAudit sql_faults string string bool string instant

fun trust_step :: "crypto \<Rightarrow> trust_op \<Rightarrow> database \<Rightarrow> database" where
  "trust_step C (TReplace flt token now) db = fst (Replace C flt token now db)"
| "trust_step C (TRevoke flt d now) db = fst (Revoke flt d now db)"
| "trust_step C (TAudit flt ev d s r now) db = audit flt ev d s r now db"

text \<open>
  Tables only grow: devices keep their place, id, key and stamp, a status moves only from active to
  revoked, tokens and audit rows stay.
\<close>

definition aged :: "device_row \<Rightarrow> device_row \<Rightarrow> bool" where
  "aged r r' \<longleftrightarrow> r' = r \<or> r' = r\<lparr>dr_status := ''revoked''\<rparr>"

definition grows :: "database \<Rightarrow> database \<Rightarrow> bool" where
  "grows db db' \<longleftrightarrow>
     list_all2 aged (db_devices db) (take (length (db_devices db)) (db_devices db'))
     \<and> prefix (db_tokens db) (db_tokens db') \<and> prefix (db_audit db) (db_audit db')"

lemma aged_refl [simp]: "aged r r"
  by (simp add: aged_def)

lemma aged_trans: "aged r s \<Longrightarrow> aged s t \<Longrightarrow> aged r t"
  by (auto simp: aged_def)

lemma list_all2_aged_refl [simp]: "list_all2 aged rs rs"
  by (simp add: list_all2_refl)

lemma grows_refl [simp]: "grows db db"
  by (simp add: grows_def)

lemma list_all2_take: "list_all2 P xs ys \<Longrightarrow> list_all2 P (take n xs) (take n ys)"
  by (simp add: list_all2_conv_all_nth)

lemma grows_trans:
  assumes "grows a b" "grows b c"
  shows "grows a c"
proof -
  let ?n = "length (db_devices a)"
  from assms have 1: "list_all2 aged (db_devices a) (take ?n (db_devices b))"
    and 2: "list_all2 aged (db_devices b) (take (length (db_devices b)) (db_devices c))"
    by (simp_all add: grows_def)
  from 1 have "?n \<le> length (db_devices b)" by (auto dest: list_all2_lengthD)
  then have "list_all2 aged (take ?n (db_devices b)) (take ?n (db_devices c))"
    using list_all2_take [OF 2, of ?n] by (simp add: min_absorb1)
  with 1 have "list_all2 aged (db_devices a) (take ?n (db_devices c))"
    by (blast intro: list_all2_trans [of aged aged aged] aged_trans)
  with assms show ?thesis by (auto simp: grows_def)
qed

lemma grows_audit: "grows db (audit flt ev d s r now db)"
  using audit_appends [of flt ev d s r now db] by (auto simp: grows_def)

lemma grows_registered: "grows db (registered e pub h stamp db)"
  by (simp add: grows_def registered_def)

lemma grows_revoke: "grows db (revoke_rows d db)"
  by (simp add: grows_def revoke_rows_def list_all2_conv_all_nth aged_def)

lemma grows_revoke_audit: "grows db ((revoke_rows d db)\<lparr>db_audit := db_audit db @ [row]\<rparr>)"
  by (simp add: grows_def revoke_rows_def list_all2_conv_all_nth aged_def)

lemma grows_Replace: "grows db (fst (Replace C flt token now db))"
proof (cases "Replace C flt token now db")
  case (Pair db' res)
  show ?thesis
  proof (cases res)
    case (Inl err)
    with Pair have "Replace C flt token now db = (db', Inl err)" by simp
    with Replace_InlD [OF this] show ?thesis by (auto simp: grows_audit)
  next
    case (Inr dev)
    with Pair have "Replace C flt token now db = (db', Inr dev)" by simp
    from Replace_InrD [OF this] Pair show ?thesis by (auto simp: grows_registered)
  qed
qed

lemma grows_Revoke: "grows db (fst (Revoke flt d now db))"
  by (rule Revoke_cases [of flt d now db]) (simp_all add: grows_revoke grows_revoke_audit)

interpretation trust: history_machine "trust_step C" db_ok grows for C
proof unfold_locales
  show "db_ok s \<Longrightarrow> db_ok (trust_step C op s)" for op s
    by (cases op) (simp_all add: Replace_ok Revoke_ok audit_ok)
  show "grows s (trust_step C op s)" for op s
    by (cases op) (simp_all add: grows_Replace grows_Revoke grows_audit)
qed (auto intro: grows_trans)

section \<open>Consequences of growth\<close>

lemma grows_device:
  assumes "grows db db'" "r \<in> set (db_devices db)"
  shows "\<exists>r' \<in> set (db_devices db'). aged r r'"
proof -
  from assms obtain i where i: "i < length (db_devices db)" "r = db_devices db ! i"
    by (auto simp: in_set_conv_nth)
  with assms(1) have len: "length (db_devices db) \<le> length (db_devices db')"
    and a: "aged r (db_devices db' ! i)"
    by (auto simp: grows_def list_all2_conv_all_nth)
  with i show ?thesis by (meson nth_mem order_less_le_trans)
qed

lemma grows_token: "grows db db' \<Longrightarrow> t \<in> set (db_tokens db) \<Longrightarrow> t \<in> set (db_tokens db')"
  by (auto simp: grows_def prefix_def)

lemma aged_same: "aged r r' \<Longrightarrow> dr_id r' = dr_id r" "aged r r' \<Longrightarrow> dr_key r' = dr_key r"
  by (auto simp: aged_def)

lemma grows_ids: "grows db db' \<Longrightarrow> dr_id ` set (db_devices db) \<subseteq> dr_id ` set (db_devices db')"
  by (rule image_subsetI) (metis grows_device aged_same(1) imageI)

lemma grows_keys: "grows db db' \<Longrightarrow> dr_key ` set (db_devices db) \<subseteq> dr_key ` set (db_devices db')"
  by (rule image_subsetI) (metis grows_device aged_same(2) imageI)

lemma grows_hashes: "grows db db' \<Longrightarrow> tr_hash ` set (db_tokens db) \<subseteq> tr_hash ` set (db_tokens db')"
  by (auto dest: grows_token)

text \<open>A pairing that ever conflicted keeps conflicting.\<close>

lemma stale_pairing:
  "grows db db' \<Longrightarrow> \<not> fresh_pairing e pub h db \<Longrightarrow> \<not> fresh_pairing e pub h db'"
  using subsetD [OF grows_ids, of db db' "te_DeviceID e"] subsetD [OF grows_keys, of db db' pub]
    subsetD [OF grows_hashes, of db db' h]
  unfolding fresh_pairing_def by argo

lemma Replace_stale:
  assumes "\<And>e pub. parseToken C token now = Inr (e, pub) \<Longrightarrow> \<not> fresh_pairing e pub (cr_sha256 C token) db"
  shows "is_err (snd (Replace C flt token now db))"
proof (cases "snd (Replace C flt token now db)")
  case (Inr dev)
  then have "Replace C flt token now db = (fst (Replace C flt token now db), Inr dev)"
    by (simp add: prod_eq_iff)
  from Replace_InrD [OF this] obtain e' pub' where
    "parseToken C token now = Inr (e', pub')" "fresh_pairing e' pub' (cr_sha256 C token) db"
    by blast
  with assms show ?thesis by blast
qed simp

section \<open>The registry the repository implements\<close>

text \<open>A trusted device is a public key and whether it may still authenticate.\<close>

type_synonym registry = "string \<rightharpoonup> bytes \<times> bool"

definition abs_registry :: "database \<Rightarrow> registry" where
  "abs_registry db = map_of (map (\<lambda>r. (dr_id r, (dr_key r, dr_status r = ''active''))) (db_devices db))"

definition reg_add :: "string \<Rightarrow> bytes \<Rightarrow> registry \<Rightarrow> registry" where
  "reg_add d pub reg = reg(d \<mapsto> (pub, True))"

definition reg_revoke :: "string \<Rightarrow> registry \<Rightarrow> registry" where
  "reg_revoke d reg = (case reg d of Some (pub, True) \<Rightarrow> reg(d \<mapsto> (pub, False)) | _ \<Rightarrow> reg)"

lemma abs_registry_None: "abs_registry db d = None \<longleftrightarrow> d \<notin> dr_id ` set (db_devices db)"
  by (force simp: abs_registry_def map_of_eq_None_iff)

lemma abs_registry_Some:
  assumes "db_ok db"
  shows "abs_registry db d = Some (pub, a) \<longleftrightarrow>
    (\<exists>r \<in> set (db_devices db). dr_id r = d \<and> dr_key r = pub \<and> (dr_status r = ''active'') = a)"
proof -
  have "distinct (map fst (map (\<lambda>r. (dr_id r, (dr_key r, dr_status r = ''active''))) (db_devices db)))"
    using assms by (simp add: db_ok_def comp_def)
  from map_of_eq_Some_iff [OF this] show ?thesis
    by (auto simp: abs_registry_def)
qed

lemma abs_registered:
  assumes "fresh_pairing e pub h db"
  shows "abs_registry (registered e pub h stamp db) = reg_add (te_DeviceID e) pub (abs_registry db)"
proof -
  have "abs_registry db (te_DeviceID e) = None"
    using assms by (simp add: abs_registry_None fresh_pairing_def)
  then show ?thesis
    by (auto simp: abs_registry_def registered_def reg_add_def map_add_def split: option.splits)
qed

lemma abs_audit [simp]: "abs_registry (audit flt ev d s r now db) = abs_registry db"
  by (simp add: abs_registry_def)

lemma map_of_map_values:
  "map_of (map (\<lambda>r. (k r, f r)) rs) x = map_option f (List.find (\<lambda>r. k r = x) rs)"
  by (induction rs) auto

lemma abs_registry_find:
  "abs_registry db x = map_option (\<lambda>r. (dr_key r, dr_status r = ''active'')) (List.find (\<lambda>r. dr_id r = x) (db_devices db))"
  by (simp add: abs_registry_def map_of_map_values)

lemma find_map_same_key:
  "(\<And>r. k (g r) = k r) \<Longrightarrow> List.find (\<lambda>r. k r = x) (map g rs) = map_option g (List.find (\<lambda>r. k r = x) rs)"
  by (induction rs) auto

lemma abs_revoke_rows: "abs_registry (revoke_rows d db) = reg_revoke d (abs_registry db)"
proof
  fix x
  have "abs_registry (revoke_rows d db) x =
      map_option (\<lambda>r. (dr_key r, dr_status r = ''active'' \<and> x \<noteq> d)) (List.find (\<lambda>r. dr_id r = x) (db_devices db))"
    unfolding abs_registry_find revoke_rows_def
    by (auto simp: find_map_same_key active_row_def option.map_comp comp_def
        dest!: find_SomeD intro!: map_option_cong split: if_splits)
  also have "\<dots> = reg_revoke d (abs_registry db) x"
  proof (cases "x = d")
    case True
    then show ?thesis
      by (cases "List.find (\<lambda>r. dr_id r = d) (db_devices db)")
        (auto simp: reg_revoke_def abs_registry_find split: bool.splits)
  next
    case False
    then show ?thesis
      by (auto simp: reg_revoke_def abs_registry_find split: option.splits bool.splits)
  qed
  finally show "abs_registry (revoke_rows d db) x = reg_revoke d (abs_registry db) x" .
qed

lemma abs_registry_audit [simp]: "abs_registry (db\<lparr>db_audit := rows\<rparr>) = abs_registry db"
  by (simp add: abs_registry_def)

lemma abs_Revoke:
  "abs_registry (fst (Revoke flt d now db)) =
     (if flt SqlUpdate = None then reg_revoke d (abs_registry db) else abs_registry db)"
proof (cases "filter (active_row d) (db_devices db) = []")
  case True
  then have "revoke_rows d db = db"
    by (simp add: revoke_rows_def filter_empty_conv map_idI)
  with True abs_revoke_rows [of d db] show ?thesis
    by (simp add: Revoke_def split: option.splits)
next
  case False
  then show ?thesis
    by (auto simp: Revoke_def exec_def insert_audit_def abs_revoke_rows
        split: option.splits)
qed

lemma abs_Replace:
  "abs_registry (fst (Replace C flt token now db)) =
     (case snd (Replace C flt token now db) of
        Inl _ \<Rightarrow> abs_registry db
      | Inr dev \<Rightarrow> reg_add (dv_DeviceID dev) (dv_PublicKey dev) (abs_registry db))"
proof (cases "Replace C flt token now db")
  case (Pair db' res)
  show ?thesis
  proof (cases res)
    case (Inl err)
    with Pair Replace_InlD [of C flt token now db db' err] show ?thesis by auto
  next
    case (Inr dev)
    with Pair Replace_InrD [of C flt token now db db' dev] show ?thesis
      by (auto simp: abs_registered)
  qed
qed

lemma Get_InrD:
  assumes "Get flt d db = Inr dev"
  shows "dv_DeviceID dev = d \<and> abs_registry db d = Some (dv_PublicKey dev, dv_Status dev = ''active'')"
  using assms
  by (auto simp: Get_def scan_device_def abs_registry_find dest!: find_SomeD split: option.splits if_splits)

lemma Get_InlD: "Get flt d db = Inl err \<Longrightarrow>
    err = New KindNotFound ''identity.Get'' ''device identity was not found'' \<and> (flt SqlGet \<noteq> None \<or> abs_registry db d = None)"
  by (auto simp: Get_def abs_registry_find split: option.splits if_splits)

lemma Get_found:
  assumes "flt SqlGet = None" "abs_registry db d = Some (pub, a)"
  shows "\<exists>dev. Get flt d db = Inr dev \<and> dv_DeviceID dev = d \<and> dv_PublicKey dev = pub \<and> (dv_Status dev = ''active'') = a"
proof -
  from assms(2) obtain r where r: "List.find (\<lambda>r. dr_id r = d) (db_devices db) = Some r"
      "dr_key r = pub" "(dr_status r = ''active'') = a"
    by (auto simp: abs_registry_find)
  with find_SomeD [OF r(1)] assms(1) show ?thesis
    by (simp add: Get_def scan_device_def)
qed

text \<open>Along any run a device's key never changes, and a revoked device stays revoked.\<close>

definition reg_le :: "registry \<Rightarrow> registry \<Rightarrow> bool" where
  "reg_le R R' \<longleftrightarrow> (\<forall>d pub a. R d = Some (pub, a) \<longrightarrow> (\<exists>a'. R' d = Some (pub, a') \<and> (a' \<longrightarrow> a)))"

lemma reg_le_refl [simp]: "reg_le R R"
  by (simp add: reg_le_def)

lemma grows_registry:
  assumes "db_ok db'" "grows db db'"
  shows "reg_le (abs_registry db) (abs_registry db')"
  unfolding reg_le_def
proof (intro allI impI)
  fix d pub a
  assume "abs_registry db d = Some (pub, a)"
  then obtain r where r: "r \<in> set (db_devices db)" "dr_id r = d" "dr_key r = pub" "(dr_status r = ''active'') = a"
    by (auto simp: abs_registry_find dest!: find_SomeD)
  from grows_device [OF assms(2) r(1)] obtain r' where r': "r' \<in> set (db_devices db')" "aged r r'" by blast
  then have "abs_registry db' d = Some (pub, dr_status r' = ''active'')"
    using abs_registry_Some [OF assms(1), of d pub "dr_status r' = ''active''"] r aged_same [OF r'(2)]
    by blast
  moreover have "dr_status r' = ''active'' \<longrightarrow> a" using r r' by (auto simp: aged_def)
  ultimately show "\<exists>a'. abs_registry db' d = Some (pub, a') \<and> (a' \<longrightarrow> a)" by blast
qed

lemma run_registry: "db_ok db \<Longrightarrow> reg_le (abs_registry db) (abs_registry (fold (trust_step C) ops db))"
  by (rule grows_registry) (simp_all add: trust.run_inv trust.run_before)

section \<open>Pairing a device\<close>

lemma pair_token:
  assumes "ed25519_ok C" "good_identity C i" "length nonce = 32" "int64_range (Unix (now + tokenLifetime))"
    and "Unix later \<le> Unix (now + tokenLifetime)" "db_ok db"
    and tok: "PairingToken C i (Some nonce) now = Inr tok"
    and fresh: "fresh_pairing (unsigned_envelope i nonce now) (id_PublicKey i) (cr_sha256 C tok) db"
  shows "Replace C sql_ok tok later db =
    (registered (unsigned_envelope i nonce now) (id_PublicKey i) (cr_sha256 C tok) (RFC3339Nano later) db,
     Inr \<lparr>dv_DeviceID = id_DeviceID i, dv_PublicKey = id_PublicKey i, dv_CreatedAt = later, dv_Status = ''active''\<rparr>)"
proof -
  from PairingToken_parses [OF assms(1-4)] tok assms(5)
  have "parseToken C tok later = Inr (unsigned_envelope i nonce now, id_PublicKey i)" by auto
  from Replace_fresh [OF assms(6) this fresh] show ?thesis by simp
qed

text \<open>The tables of the concrete instance after its device was paired.\<close>

definition toy_token :: string where
  "toy_token = (case PairingToken toy_crypto toy_identity (Some (replicate 32 CHR ''n'')) 0 of
     Inr tok \<Rightarrow> tok | Inl _ \<Rightarrow> [])"

definition toy_db :: database where
  "toy_db = fst (Replace toy_crypto sql_ok toy_token 0 empty_db)"

lemma toy_token: "PairingToken toy_crypto toy_identity (Some (replicate 32 CHR ''n'')) 0 = Inr toy_token"
  by (simp add: toy_token_def PairingToken_def Let_def)

lemma toy_replace: "Replace toy_crypto sql_ok toy_token 0 empty_db = (toy_db,
    Inr \<lparr>dv_DeviceID = id_DeviceID toy_identity, dv_PublicKey = toy_seed, dv_CreatedAt = 0, dv_Status = ''active''\<rparr>)"
proof -
  have "Unix 0 \<le> Unix (0 + tokenLifetime)"
    by (rule Unix_mono) (simp add: tokenLifetime_def time_units)
  from pair_token [OF toy_crypto_ok toy_identity_good _ toy_lifetime this db_ok_empty toy_token]
  have "Replace toy_crypto sql_ok toy_token 0 empty_db =
      (registered (unsigned_envelope toy_identity (replicate 32 CHR ''n'') 0) toy_seed
         (cr_sha256 toy_crypto toy_token) (RFC3339Nano 0) empty_db,
       Inr \<lparr>dv_DeviceID = id_DeviceID toy_identity, dv_PublicKey = toy_seed, dv_CreatedAt = 0, dv_Status = ''active''\<rparr>)"
    by (simp add: fresh_pairing_def empty_db_def del: toy_identity_simps(1))
  then show ?thesis by (simp add: toy_db_def)
qed

lemma toy_db_ok [simp]: "db_ok toy_db"
  unfolding toy_db_def by (rule Replace_ok) simp

lemma toy_registry: "abs_registry toy_db (id_DeviceID toy_identity) = Some (toy_seed, True)"
proof -
  have "abs_registry toy_db = reg_add (id_DeviceID toy_identity) toy_seed (abs_registry empty_db)"
    using abs_Replace [of toy_crypto sql_ok toy_token 0 empty_db] toy_replace by simp
  then show ?thesis by (simp add: reg_add_def)
qed

section \<open>Properties\<close>

text \<open>
  C8. Whatever sequence of registrations, revocations and audit records runs, and whichever SQL statements fail
  on the way, the tables keep distinct device ids and keys, one used token per device, and statuses and
  flags within the CHECK constraints.
\<close>

theorem tables_stay_sound: "db_ok (fold (trust_step C) ops empty_db)"
  by (rule trust.run_inv) simp

text \<open>
  C4. The repository implements a registry from device ids to a key and a flag: a successful Replace adds a
  new active entry and a failed one changes nothing, a Revoke whose UPDATE runs deactivates the entry
  and touches no other, and Get reads the registry.
\<close>

theorem repository_refines_registry:
  assumes "db_ok db"
  shows "(case Replace C flt token now db of
       (db', Inl _) \<Rightarrow> abs_registry db' = abs_registry db
     | (db', Inr dev) \<Rightarrow> abs_registry db (dv_DeviceID dev) = None
         \<and> abs_registry db' = reg_add (dv_DeviceID dev) (dv_PublicKey dev) (abs_registry db))
    \<and> abs_registry (fst (Revoke flt d now db)) =
        (if flt SqlUpdate = None then reg_revoke d (abs_registry db) else abs_registry db)
    \<and> (case Get flt d db of
         Inl _ \<Rightarrow> flt SqlGet \<noteq> None \<or> abs_registry db d = None
       | Inr dev \<Rightarrow> abs_registry db d = Some (dv_PublicKey dev, dv_Status dev = ''active''))"
proof (intro conjI)
  show "case Replace C flt token now db of
       (db', Inl _) \<Rightarrow> abs_registry db' = abs_registry db
     | (db', Inr dev) \<Rightarrow> abs_registry db (dv_DeviceID dev) = None
         \<and> abs_registry db' = reg_add (dv_DeviceID dev) (dv_PublicKey dev) (abs_registry db)"
  proof (cases "Replace C flt token now db")
    case (Pair db' res)
    with abs_Replace [of C flt token now db] Replace_InrD [of C flt token now db db'] show ?thesis
      by (cases res) (auto simp: abs_registry_None fresh_pairing_def)
  qed
  show "case Get flt d db of
         Inl _ \<Rightarrow> flt SqlGet \<noteq> None \<or> abs_registry db d = None
       | Inr dev \<Rightarrow> abs_registry db d = Some (dv_PublicKey dev, dv_Status dev = ''active'')"
    using Get_InlD [of flt d db] Get_InrD [of flt d db] by (auto split: sum.splits)
qed (rule abs_Revoke)

theorem repository_refines_registry_witness:
  "case Get sql_ok (id_DeviceID toy_identity) toy_db of
     Inl _ \<Rightarrow> False | Inr dev \<Rightarrow> dv_PublicKey dev = toy_seed \<and> dv_Status dev = ''active''"
  using repository_refines_registry [OF toy_db_ok, of toy_crypto sql_ok toy_token 0 "id_DeviceID toy_identity"]
    toy_registry
  by (auto simp: sql_ok_def split: sum.splits)

text \<open>
  C5. A token registers once: after it succeeded, no later Replace of it succeeds, nor of any other token that
  names the same device id or the same key, through any operations in between and under any faults of
  any statement, lookups included.
\<close>

theorem token_registers_once:
  assumes "Replace C flt token now db = (db', Inr dev)" "db_ok db"
  shows "is_err (snd (Replace C flt2 token later (fold (trust_step C) ops db')))
    \<and> (\<forall>other e pub. parseToken C other later = Inr (e, pub)
         \<and> (te_DeviceID e = dv_DeviceID dev \<or> pub = dv_PublicKey dev) \<longrightarrow>
         is_err (snd (Replace C flt2 other later (fold (trust_step C) ops db'))))"
proof (intro conjI allI impI)
  from Replace_InrD [OF assms(1)] obtain e0 pub0 where
    r: "db' = registered e0 pub0 (cr_sha256 C token) (RFC3339Nano now) db"
      "dv_DeviceID dev = te_DeviceID e0" "dv_PublicKey dev = pub0" by auto
  have "db_ok db'" using Replace_ok [OF assms(2), of C flt token now] assms(1) by simp
  then have g: "grows db' (fold (trust_step C) ops db')" by (rule trust.run_before)
  have "\<not> fresh_pairing e1 pub1 (cr_sha256 C token) db'" for e1 pub1
    by (simp add: r fresh_pairing_def registered_def)
  from stale_pairing [OF g this] show "is_err (snd (Replace C flt2 token later (fold (trust_step C) ops db')))"
    by (intro Replace_stale)
  fix other e pub
  assume "parseToken C other later = Inr (e, pub) \<and> (te_DeviceID e = dv_DeviceID dev \<or> pub = dv_PublicKey dev)"
  then have p: "parseToken C other later = Inr (e, pub)" "te_DeviceID e = dv_DeviceID dev \<or> pub = dv_PublicKey dev"
    by simp_all
  then have "\<not> fresh_pairing e pub (cr_sha256 C other) db'"
    by (auto simp: r fresh_pairing_def registered_def)
  from stale_pairing [OF g this] p(1) show "is_err (snd (Replace C flt2 other later (fold (trust_step C) ops db')))"
    by (intro Replace_stale) simp
qed

theorem token_registers_once_witness:
  "is_err (snd (Replace toy_crypto (\<lambda>op. if op = SqlFindToken then Some rand_error else None) toy_token 5 toy_db))"
  using token_registers_once [OF toy_replace db_ok_empty,
      of "\<lambda>op. if op = SqlFindToken then Some rand_error else None" 5 "[]"] by simp

text \<open>
  Pairing works: a token that an identity printed, brought within its ten minutes to tables that know
  neither its device, its key nor its hash, registers the device as active under its public key.
\<close>

theorem pairing_registers_device:
  assumes "ed25519_ok C" "good_identity C i" "length nonce = 32" "int64_range (Unix (now + tokenLifetime))"
    and "Unix later \<le> Unix (now + tokenLifetime)" "db_ok db"
    and "PairingToken C i (Some nonce) now = Inr tok"
    and "abs_registry db (id_DeviceID i) = None" "id_PublicKey i \<notin> dr_key ` set (db_devices db)"
      "cr_sha256 C tok \<notin> tr_hash ` set (db_tokens db)"
  shows "\<exists>db' dev. Replace C sql_ok tok later db = (db', Inr dev) \<and> dv_CreatedAt dev = later
    \<and> abs_registry db' = (abs_registry db)(id_DeviceID i \<mapsto> (id_PublicKey i, True))"
proof -
  have "fresh_pairing (unsigned_envelope i nonce now) (id_PublicKey i) (cr_sha256 C tok) db"
    using assms(8-10) by (simp add: fresh_pairing_def abs_registry_None)
  from pair_token [OF assms(1-7) this] abs_registered [OF this] show ?thesis by (simp add: reg_add_def)
qed

theorem pairing_registers_device_witness:
  "\<exists>db' dev. Replace toy_crypto sql_ok toy_token Minute empty_db = (db', Inr dev)
    \<and> abs_registry db' (EncodeToString (replicate 16 CHR ''d'')) = Some (toy_seed, True)"
proof -
  have "Unix Minute \<le> Unix (0 + tokenLifetime)"
    by (rule Unix_mono) (simp add: tokenLifetime_def time_units)
  from pairing_registers_device [OF toy_crypto_ok toy_identity_good _ toy_lifetime this db_ok_empty toy_token]
  show ?thesis by (auto simp: empty_db_def abs_registry_def)
qed

text \<open>
  C11. Revocation is final: after a Revoke that reports success, no sequence of later operations makes the device
  active again, and every Get that finds it reports it revoked.
\<close>

theorem revocation_is_final:
  fixes C :: crypto and ops :: "trust_op list"
  assumes "db_ok db" "snd (Revoke flt d now db) = None"
  defines "db' \<equiv> fold (trust_step C) ops (fst (Revoke flt d now db))"
  shows "(\<exists>pub. abs_registry db' d = Some (pub, False))
    \<and> (case Get flt2 d db' of Inl _ \<Rightarrow> True | Inr dev \<Rightarrow> dv_Status dev = ''revoked'')"
proof -
  have "db_ok (fst (Revoke flt d now db))" by (rule Revoke_ok [OF assms(1)])
  note run = run_registry [OF this, of C ops] and ok = trust.run_inv [OF this, of C ops]
  have "flt SqlUpdate = None" "filter (active_row d) (db_devices db) \<noteq> []"
    using assms(2) by (auto simp: Revoke_def split: option.splits if_splits)
  then obtain r where "r \<in> set (db_devices db)" "dr_id r = d" "dr_status r = ''active''"
    by (auto simp: filter_empty_conv active_row_def)
  with abs_registry_Some [OF assms(1), of d "dr_key r" True] have "abs_registry db d = Some (dr_key r, True)" by auto
  with \<open>flt SqlUpdate = None\<close> have "abs_registry (fst (Revoke flt d now db)) d = Some (dr_key r, False)"
    by (simp add: abs_Revoke reg_revoke_def)
  with run obtain a where "abs_registry db' d = Some (dr_key r, a)" "a \<longrightarrow> False"
    unfolding reg_le_def db'_def by metis
  then obtain pub where pub: "abs_registry db' d = Some (pub, False)" by auto
  have "dv_Status dev = ''revoked''" if g: "Get flt2 d db' = Inr dev" for dev
  proof -
    from Get_InrD [OF g] pub have "dv_Status dev \<noteq> ''active''" by simp
    moreover have "dv_Status dev \<in> {''active'', ''revoked''}"
      using g ok by (auto simp: Get_def scan_device_def db_ok_def db'_def dest!: find_SomeD split: option.splits if_splits)
    ultimately show ?thesis by simp
  qed
  with pub show ?thesis by (simp split: sum.split)
qed

theorem revocation_is_final_witness:
  "\<exists>pub. abs_registry (fold (trust_step toy_crypto) [TReplace sql_ok toy_token 9]
     (fst (Revoke sql_ok (id_DeviceID toy_identity) 3 toy_db))) (id_DeviceID toy_identity) = Some (pub, False)"
proof -
  have "filter (active_row (id_DeviceID toy_identity)) (db_devices toy_db) \<noteq> []"
    using toy_registry by (auto simp: abs_registry_find active_row_def filter_empty_conv dest!: find_SomeD)
  then have "snd (Revoke sql_ok (id_DeviceID toy_identity) 3 toy_db) = None"
    by (simp add: Revoke_def sql_ok_def exec_def insert_audit_def)
  from revocation_is_final [OF toy_db_ok this] show ?thesis by blast
qed

text \<open>
  Revoke is not atomic: when the audit INSERT that follows the UPDATE fails, the caller gets an error
  although the device is revoked, and no audit row tells of it.
\<close>

theorem revoke_error_after_effect:
  assumes "db_ok db" "abs_registry db d = Some (pub, True)" "flt SqlUpdate = None" "flt SqlInsertAudit = Some e"
  shows "\<exists>db'. Revoke flt d now db = (db', Some e) \<and> abs_registry db' d = Some (pub, False)
    \<and> db_audit db' = db_audit db"
proof -
  have "filter (active_row d) (db_devices db) \<noteq> []"
    using assms(2) by (auto simp: abs_registry_find active_row_def filter_empty_conv dest!: find_SomeD)
  then have r: "Revoke flt d now db = (revoke_rows d db, Some e)"
    using assms(3,4) by (simp add: Revoke_def exec_def)
  then show ?thesis using assms(2) by (simp add: abs_revoke_rows reg_revoke_def)
qed

theorem revoke_error_after_effect_witness:
  "\<exists>db'. Revoke (\<lambda>op. if op = SqlInsertAudit then Some rand_error else None) (id_DeviceID toy_identity) 3 toy_db
      = (db', Some rand_error) \<and> db_audit db' = db_audit toy_db"
  using revoke_error_after_effect [OF toy_db_ok toy_registry,
      of "\<lambda>op. if op = SqlInsertAudit then Some rand_error else None" rand_error 3] by auto

text \<open>
  The device list is ordered by the text of the time stamps, which is not the order of the times: a device
  registered half a second after another one, within the same second, is listed before it.
\<close>

theorem list_order_not_chronological:
  "List_devices sql_ok (empty_db\<lparr>db_devices :=
      [\<lparr>dr_id = ''first'', dr_key = [], dr_created = RFC3339Nano 0, dr_status = ''active''\<rparr>,
       \<lparr>dr_id = ''second'', dr_key = [], dr_created = RFC3339Nano (500 * Millisecond), dr_status = ''active''\<rparr>]\<rparr>)
   = Inr (map scan_device
      [\<lparr>dr_id = ''second'', dr_key = [], dr_created = RFC3339Nano (500 * Millisecond), dr_status = ''active''\<rparr>,
       \<lparr>dr_id = ''first'', dr_key = [], dr_created = RFC3339Nano 0, dr_status = ''active''\<rparr>])"
proof -
  have t: "RFC3339Nano 0 = ''1970-01-01T00:00:00Z''" "RFC3339Nano (500 * Millisecond) = ''1970-01-01T00:00:00.5Z''"
    by (simp_all add: time_text_eval time_units)
  have "\<not> ''1970-01-01T00:00:00Z'' \<le> ''1970-01-01T00:00:00.5Z''"
    by (simp add: list_le_def less_char_def)
  then show ?thesis
    unfolding t by (simp add: List_devices_def sql_ok_def)
qed

end
