(* ===== verification/Authenticator.thy ===== *)
theory Authenticator
  imports Trust_Store
begin

text \<open>
  \<open>internal/identity/auth.go\<close>: the challenge/response protocol over the trusted devices. A challenge
  is issued to an active device, lives two minutes and is deleted by the first Verify that names it.
  The lock protects the map only, so Verify is two steps here: the locked one takes the record, the
  rest runs unlocked, and the interleavings of several calls are the paths of a step relation.
\<close>

section \<open>State\<close>

definition challengeLifetime :: duration where "challengeLifetime = 2 * Minute"

record challengeRecord =
  ch_deviceID :: string
  ch_value :: bytes
  ch_expires :: instant

type_synonym challenges = "string \<rightharpoonup> challengeRecord"

record auth_state =
  as_db :: database
  as_challenges :: challenges

definition NewAuthenticator :: "database \<Rightarrow> auth_state" where
  "NewAuthenticator db = \<lparr>as_db = db, as_challenges = Map.empty\<rparr>"

text \<open>\<open>rand.Read\<close> into a 32-byte buffer: its bytes, or None when it fails.\<close>

definition NewChallenge :: "bytes option \<Rightarrow> go_error + bytes" where
  "NewChallenge r = (case r of None \<Rightarrow> Inl rand_error | Some b \<Rightarrow> Inr b)"

definition DecodeChallenge :: "string \<Rightarrow> bytes option" where
  "DecodeChallenge v = DecodeString v"

definition EncodeSignature :: "bytes \<Rightarrow> string" where
  "EncodeSignature b = EncodeToString b"

section \<open>Issuing a challenge\<close>

definition put_challenge :: "string \<Rightarrow> challengeRecord \<Rightarrow> auth_state \<Rightarrow> auth_state" where
  "put_challenge cid r st = st\<lparr>as_challenges := (as_challenges st)(cid \<mapsto> r)\<rparr>"

definition delete_challenge :: "string \<Rightarrow> auth_state \<Rightarrow> auth_state" where
  "delete_challenge cid st = st\<lparr>as_challenges := (as_challenges st)(cid := None)\<rparr>"

definition audit_auth ::
  "sql_faults \<Rightarrow> string \<Rightarrow> string \<Rightarrow> bool \<Rightarrow> string \<Rightarrow> instant \<Rightarrow> auth_state \<Rightarrow> auth_state" where
  "audit_auth flt ev d success reason now st = st\<lparr>as_db := audit flt ev d success reason now (as_db st)\<rparr>"

definition Challenge ::
  "sql_faults \<Rightarrow> string \<Rightarrow> bytes option \<Rightarrow> bytes option \<Rightarrow> instant \<Rightarrow> auth_state
     \<Rightarrow> auth_state \<times> (go_error + string \<times> bytes)" where
  "Challenge flt d r1 r2 now st =
     (case Get flt d (as_db st) of
        Inl err \<Rightarrow> (audit_auth flt ''device_authentication_failure'' d False ''device not found'' now st, Inl err)
      | Inr dev \<Rightarrow>
          if dv_Status dev \<noteq> ''active''
          then (audit_auth flt ''device_authentication_failure'' d False ''device revoked'' now st,
                Inl (New KindPermission ''identity.Challenge'' ''device identity is revoked''))
          else (case NewChallenge r1 of Inl err \<Rightarrow> (st, Inl err)
            | Inr idRaw \<Rightarrow>
                (case NewChallenge r2 of Inl err \<Rightarrow> (st, Inl err)
                 | Inr val \<Rightarrow>
                     (let cid = EncodeToString idRaw in
                      (put_challenge cid \<lparr>ch_deviceID = d, ch_value = val,
                                          ch_expires = now + challengeLifetime\<rparr> st,
                       Inr (cid, val))))))"

section \<open>Verifying a signature\<close>

text \<open>The part of Verify under the lock: look the record up and delete it, whether it is there or not.\<close>

definition take_challenge :: "string \<Rightarrow> auth_state \<Rightarrow> auth_state \<times> challengeRecord option" where
  "take_challenge cid st = (delete_challenge cid st, as_challenges st cid)"

definition verify_err :: "string \<Rightarrow> go_error" where
  "verify_err m = New KindPermission ''identity.Verify'' m"

text \<open>
  The part after the unlock. \<open>ed25519.Verify\<close> panics on a public key that is not 32 bytes long.
\<close>

definition check_signature ::
  "crypto \<Rightarrow> sql_faults \<Rightarrow> challengeRecord option \<Rightarrow> bytes \<Rightarrow> instant \<Rightarrow> auth_state
     \<Rightarrow> auth_state \<times> go_error option call" where
  "check_signature C flt rec sig now st =
     (let d = (case rec of None \<Rightarrow> [] | Some r \<Rightarrow> ch_deviceID r);
          fail = (\<lambda>ev reason. audit_auth flt ev d False reason now st) in
      case rec of
        None \<Rightarrow> (fail ''challenge_rejected'' ''missing, expired, or replayed challenge'',
                 Return (Some (verify_err ''authentication challenge is invalid or expired'')))
      | Some r \<Rightarrow>
          if \<not> now < ch_expires r
          then (fail ''challenge_rejected'' ''missing, expired, or replayed challenge'',
                Return (Some (verify_err ''authentication challenge is invalid or expired'')))
          else (case Get flt d (as_db st) of
            Inl err \<Rightarrow> (fail ''device_authentication_failure'' ''device not found'', Return (Some err))
          | Inr dev \<Rightarrow>
              if dv_Status dev \<noteq> ''active''
              then (fail ''device_authentication_failure'' ''device revoked'',
                    Return (Some (verify_err ''device identity is revoked'')))
              else if length (dv_PublicKey dev) \<noteq> PublicKeySize
              then (st, Panic ''ed25519: bad public key length'')
              else if \<not> cr_verify C (dv_PublicKey dev) (ch_value r) sig
              then (fail ''device_authentication_failure'' ''invalid signature'',
                    Return (Some (verify_err ''authentication signature is invalid'')))
              else (audit_auth flt ''login_success'' d True [] now st, Return None)))"

definition Verify ::
  "crypto \<Rightarrow> sql_faults \<Rightarrow> string \<Rightarrow> bytes \<Rightarrow> instant \<Rightarrow> auth_state \<Rightarrow> auth_state \<times> go_error option call" where
  "Verify C flt cid sig now st =
     (case take_challenge cid st of (st1, rec) \<Rightarrow> check_signature C flt rec sig now st1)"

section \<open>Elementary facts\<close>

lemma store_simps [simp]:
  "as_db (put_challenge cid r st) = as_db st"
  "as_db (delete_challenge cid st) = as_db st"
  "as_challenges (put_challenge cid r st) = (as_challenges st)(cid \<mapsto> r)"
  "as_challenges (delete_challenge cid st) = (as_challenges st)(cid := None)"
  "as_db (audit_auth flt ev d s rs now st) = audit flt ev d s rs now (as_db st)"
  "as_challenges (audit_auth flt ev d s rs now st) = as_challenges st"
  by (simp_all add: put_challenge_def delete_challenge_def audit_auth_def)

interpretation challenge_store: kv_store as_challenges put_challenge delete_challenge
  by unfold_locales simp_all

lemma Challenge_InrD:
  assumes "Challenge flt d r1 r2 now st = (st', Inr (cid, val))"
  shows "\<exists>idRaw dev. r1 = Some idRaw \<and> r2 = Some val \<and> cid = EncodeToString idRaw
     \<and> Get flt d (as_db st) = Inr dev \<and> dv_Status dev = ''active''
     \<and> st' = put_challenge cid \<lparr>ch_deviceID = d, ch_value = val, ch_expires = now + challengeLifetime\<rparr> st"
  using assms
  by (auto simp: Challenge_def NewChallenge_def Let_def split: sum.splits option.splits if_splits)

lemma Challenge_InlD:
  assumes "Challenge flt d r1 r2 now st = (st', Inl err)"
  shows "as_challenges st' = as_challenges st"
  using assms
  by (auto simp: Challenge_def NewChallenge_def Let_def split: sum.splits option.splits if_splits)

lemma Challenge_db:
  "as_db (fst (Challenge flt d r1 r2 now st)) = as_db st \<or>
   (\<exists>reason. as_db (fst (Challenge flt d r1 r2 now st)) =
      audit flt ''device_authentication_failure'' d False reason now (as_db st))"
  by (auto simp: Challenge_def NewChallenge_def Let_def split: sum.splits option.splits if_splits)

lemma check_signature_challenges [simp]:
  "as_challenges (fst (check_signature C flt rec sig now st)) = as_challenges st"
  by (simp add: check_signature_def Let_def split: sum.splits option.splits)

lemma check_signature_db:
  "\<exists>ev d s reason. as_db (fst (check_signature C flt rec sig now st)) = as_db st
     \<or> as_db (fst (check_signature C flt rec sig now st)) = audit flt ev d s reason now (as_db st)"
  by (simp add: check_signature_def Let_def split: sum.splits option.splits) blast

lemma check_signature_NoneD:
  assumes "check_signature C flt rec sig now st = (st', Return None)"
  shows "\<exists>r pub. rec = Some r \<and> now < ch_expires r
    \<and> abs_registry (as_db st) (ch_deviceID r) = Some (pub, True)
    \<and> cr_verify C pub (ch_value r) sig
    \<and> st' = audit_auth flt ''login_success'' (ch_deviceID r) True [] now st"
proof -
  from assms obtain r dev where r: "rec = Some r" "now < ch_expires r"
      "Get flt (ch_deviceID r) (as_db st) = Inr dev" "dv_Status dev = ''active''"
      "cr_verify C (dv_PublicKey dev) (ch_value r) sig"
      "st' = audit_auth flt ''login_success'' (ch_deviceID r) True [] now st"
    by (auto simp: check_signature_def Let_def split: sum.splits option.splits if_splits)
  with Get_InrD [OF r(3)] show ?thesis by auto
qed

lemma Verify_challenges [simp]:
  "as_challenges (fst (Verify C flt cid sig now st)) = (as_challenges st)(cid := None)"
  by (simp add: Verify_def take_challenge_def)

lemma Verify_NoneD:
  assumes "Verify C flt cid sig now st = (st', Return None)"
  shows "\<exists>r pub. as_challenges st cid = Some r \<and> now < ch_expires r
    \<and> abs_registry (as_db st) (ch_deviceID r) = Some (pub, True)
    \<and> cr_verify C pub (ch_value r) sig
    \<and> st' = audit_auth flt ''login_success'' (ch_deviceID r) True [] now (delete_challenge cid st)"
  using assms check_signature_NoneD [of C flt "as_challenges st cid" sig now "delete_challenge cid st" st']
  by (auto simp: Verify_def take_challenge_def)

lemma Verify_db:
  "\<exists>ev d s reason. as_db (fst (Verify C flt cid sig now st)) = as_db st
     \<or> as_db (fst (Verify C flt cid sig now st)) = audit flt ev d s reason now (as_db st)"
  using check_signature_db [of C flt "as_challenges st cid" sig now "delete_challenge cid st"]
  by (simp add: Verify_def take_challenge_def)

text \<open>A correct signature over a pending, live challenge of an active device is accepted.\<close>

lemma Verify_accepts:
  assumes "as_challenges st cid = Some r" "now < ch_expires r" "flt SqlGet = None"
    "abs_registry (as_db st) (ch_deviceID r) = Some (pub, True)" "length pub = 32"
    "cr_verify C pub (ch_value r) sig"
  shows "Verify C flt cid sig now st =
    (audit_auth flt ''login_success'' (ch_deviceID r) True [] now (delete_challenge cid st), Return None)"
proof -
  from Get_found [of flt "as_db st" "ch_deviceID r" pub True] assms(3,4)
  obtain dev where "Get flt (ch_deviceID r) (as_db st) = Inr dev" "dv_PublicKey dev = pub"
      "dv_Status dev = ''active''"
    by auto
  with assms show ?thesis
    by (simp add: Verify_def take_challenge_def check_signature_def Let_def key_sizes)
qed

lemma Challenge_issues:
  assumes "flt SqlGet = None" "abs_registry (as_db st) d = Some (pub, True)"
  shows "Challenge flt d (Some idRaw) (Some val) now st =
    (put_challenge (EncodeToString idRaw)
       \<lparr>ch_deviceID = d, ch_value = val, ch_expires = now + challengeLifetime\<rparr> st,
     Inr (EncodeToString idRaw, val))"
proof -
  from Get_found [of flt "as_db st" d pub True] assms
  obtain dev where "Get flt d (as_db st) = Inr dev" "dv_Status dev = ''active''" by auto
  then show ?thesis by (simp add: Challenge_def NewChallenge_def Let_def)
qed

lemma Challenge_refused:
  assumes "\<forall>pub. abs_registry (as_db st) d \<noteq> Some (pub, True)"
  shows "is_err (snd (Challenge flt d r1 r2 now st))
    \<and> as_challenges (fst (Challenge flt d r1 r2 now st)) = as_challenges st"
proof (cases "Get flt d (as_db st)")
  case (Inl err)
  then show ?thesis by (simp add: Challenge_def)
next
  case (Inr dev)
  with Get_InrD [OF Inr] assms have "dv_Status dev \<noteq> ''active''" by auto
  with Inr show ?thesis by (simp add: Challenge_def)
qed

section \<open>The invariant\<close>

text \<open>The tables are sound; a pending challenge belongs to a device that was registered.\<close>

definition auth_inv :: "auth_state \<Rightarrow> bool" where
  "auth_inv st \<longleftrightarrow> db_ok (as_db st)
     \<and> (\<forall>cid r. as_challenges st cid = Some r \<longrightarrow> abs_registry (as_db st) (ch_deviceID r) \<noteq> None)"

lemma registry_key_length:
  assumes "db_ok db" "abs_registry db d = Some (pub, a)"
  shows "length pub = 32"
  using assms by (auto simp: abs_registry_Some db_ok_def)

lemma auth_inv_mono:
  assumes "auth_inv st" "db_ok (as_db st')" "reg_le (abs_registry (as_db st)) (abs_registry (as_db st'))"
    "as_challenges st' \<subseteq>\<^sub>m as_challenges st"
  shows "auth_inv st'"
proof -
  have "abs_registry (as_db st') (ch_deviceID r) \<noteq> None" if "as_challenges st' cid = Some r" for cid r
  proof -
    from assms(4) that have "as_challenges st cid = Some r" by (metis domI map_le_def)
    with assms(1) obtain pub a where "abs_registry (as_db st) (ch_deviceID r) = Some (pub, a)"
      unfolding auth_inv_def by fastforce
    with assms(3) show ?thesis unfolding reg_le_def by blast
  qed
  with assms(2) show ?thesis by (simp add: auth_inv_def)
qed

lemma check_signature_no_panic:
  assumes "db_ok (as_db st)"
  shows "snd (check_signature C flt rec sig now st) \<noteq> Panic m"
proof
  assume "snd (check_signature C flt rec sig now st) = Panic m"
  then have "\<exists>(r :: challengeRecord) dev. Get flt (ch_deviceID r) (as_db st) = Inr dev \<and> length (dv_PublicKey dev) \<noteq> 32"
    by (auto simp: check_signature_def Let_def key_sizes split: sum.splits option.splits if_splits)
  with Get_InrD registry_key_length [OF assms] show False by blast
qed

lemma Verify_no_panic: "auth_inv st \<Longrightarrow> snd (Verify C flt cid sig now st) \<noteq> Panic m"
  by (simp add: Verify_def take_challenge_def check_signature_no_panic auth_inv_def)

lemma Verify_inv [preserved]: "auth_inv st \<Longrightarrow> auth_inv (fst (Verify C flt cid sig now st))"
proof (rule auth_inv_mono)
  obtain ev d s reason where db: "as_db (fst (Verify C flt cid sig now st)) = as_db st
     \<or> as_db (fst (Verify C flt cid sig now st)) = audit flt ev d s reason now (as_db st)"
    using Verify_db by metis
  show "auth_inv st \<Longrightarrow> db_ok (as_db (fst (Verify C flt cid sig now st)))"
    using db by (auto simp: auth_inv_def audit_ok)
  show "reg_le (abs_registry (as_db st)) (abs_registry (as_db (fst (Verify C flt cid sig now st))))"
    using db by auto
qed (simp_all add: map_delete_le)

lemma Challenge_inv [preserved]:
  assumes "auth_inv st"
  shows "auth_inv (fst (Challenge flt d r1 r2 now st))"
proof (cases "Challenge flt d r1 r2 now st")
  case (Pair st' res)
  show ?thesis
  proof (cases res)
    case (Inl err)
    with Pair have e: "Challenge flt d r1 r2 now st = (st', Inl err)" by simp
    show ?thesis
      using assms Challenge_InlD [OF e] Challenge_db [of flt d r1 r2 now st] e
      by (auto simp: auth_inv_def audit_ok)
  next
    case (Inr p)
    then obtain cid val where "p = (cid, val)" by (cases p)
    with Inr Pair have e: "Challenge flt d r1 r2 now st = (st', Inr (cid, val))" by simp
    from Challenge_InrD [OF this] obtain dev where dev: "Get flt d (as_db st) = Inr dev" and
      st': "st' = put_challenge cid \<lparr>ch_deviceID = d, ch_value = val, ch_expires = now + challengeLifetime\<rparr> st"
      by blast
    from Get_InrD [OF dev] have "abs_registry (as_db st) d \<noteq> None" by simp
    with assms e st' show ?thesis by (auto simp: auth_inv_def)
  qed
qed

section \<open>Sequences of calls\<close>

text \<open>Calls of one panel, interleaved with what other processes do to the same tables.\<close>

datatype auth_op =
    AChallenge sql_faults string "bytes option" "bytes option" instant
  | AVerify sql_faults string bytes instant
  | ATrust trust_op

fun auth_step :: "crypto \<Rightarrow> auth_op \<Rightarrow> auth_state \<Rightarrow> auth_state" where
  "auth_step C (AChallenge flt d r1 r2 now) st = fst (Challenge flt d r1 r2 now st)"
| "auth_step C (AVerify flt cid sig now) st = fst (Verify C flt cid sig now st)"
| "auth_step C (ATrust op) st = st\<lparr>as_db := trust_step C op (as_db st)\<rparr>"

definition auth_grows :: "auth_state \<Rightarrow> auth_state \<Rightarrow> bool" where
  "auth_grows st st' \<longleftrightarrow> grows (as_db st) (as_db st')"

lemma auth_step_inv: "auth_inv st \<Longrightarrow> auth_inv (auth_step C op st)"
proof (cases op)
  case (ATrust top)
  assume inv: "auth_inv st"
  then have "db_ok (as_db st)" by (simp add: auth_inv_def)
  with run_registry [OF this, of C "[top]"] trust.step_inv [OF this, of C top] inv ATrust
  show ?thesis by (intro auth_inv_mono [OF inv]) simp_all
qed (simp_all add: Challenge_inv Verify_inv)

lemma auth_step_grows: "auth_inv st \<Longrightarrow> auth_grows st (auth_step C op st)"
proof (cases op)
  case (AChallenge flt d r1 r2 now)
  then show ?thesis
    using Challenge_db [of flt d r1 r2 now st] by (auto simp: auth_grows_def grows_audit)
next
  case (AVerify flt cid sig now)
  obtain ev d s reason where "as_db (fst (Verify C flt cid sig now st)) = as_db st
     \<or> as_db (fst (Verify C flt cid sig now st)) = audit flt ev d s reason now (as_db st)"
    using Verify_db by metis
  with AVerify show ?thesis by (auto simp: auth_grows_def grows_audit)
next
  case (ATrust top)
  assume "auth_inv st"
  with ATrust show ?thesis by (simp add: auth_grows_def auth_inv_def trust.step_before)
qed

interpretation authenticator: history_machine "auth_step C" auth_inv auth_grows for C
  by unfold_locales
    (auto simp: auth_step_inv auth_step_grows, auto simp: auth_grows_def intro: grows_trans)

text \<open>A challenge id that is gone stays gone until Challenge draws the same random id again.\<close>

definition draws :: "auth_op \<Rightarrow> string \<Rightarrow> bool" where
  "draws op cid \<longleftrightarrow> (\<exists>flt d idRaw r2 now. op = AChallenge flt d (Some idRaw) r2 now \<and> EncodeToString idRaw = cid)"

lemma auth_step_absent:
  assumes "as_challenges st cid = None" "\<not> draws op cid"
  shows "as_challenges (auth_step C op st) cid = None"
proof (cases op)
  case (AChallenge flt d r1 r2 now)
  show ?thesis
  proof (cases "snd (Challenge flt d r1 r2 now st)")
    case (Inl err)
    then have "Challenge flt d r1 r2 now st = (fst (Challenge flt d r1 r2 now st), Inl err)"
      by (simp add: prod_eq_iff)
    from Challenge_InlD [OF this] assms AChallenge show ?thesis by simp
  next
    case (Inr p)
    obtain c v where "p = (c, v)" by (cases p)
    with Inr have "Challenge flt d r1 r2 now st = (fst (Challenge flt d r1 r2 now st), Inr (c, v))"
      by (simp add: prod_eq_iff)
    from Challenge_InrD [OF this] assms AChallenge show ?thesis
      by (auto simp: draws_def)
  qed
qed (use assms in simp_all)

lemma auth_run_absent:
  "as_challenges st cid = None \<Longrightarrow> (\<forall>op \<in> set ops. \<not> draws op cid)
     \<Longrightarrow> as_challenges (fold (auth_step C) ops st) cid = None"
  by (induction ops arbitrary: st) (simp_all add: auth_step_absent)

section \<open>Interleaved calls\<close>

text \<open>
  The panel serves requests concurrently. A Verify that has released the lock waits in the list of
  calls with the record it took; it finishes at any later time. The events record what happened.
\<close>

type_synonym verify_call = "string \<times> challengeRecord option \<times> bytes"
type_synonym panel = "auth_state \<times> verify_call list"

datatype auth_event = Issued string | Took string | Accepted string | Refused string | Silent

inductive cstep :: "crypto \<Rightarrow> panel \<Rightarrow> auth_event \<Rightarrow> panel \<Rightarrow> bool" for C where
  issue: "Challenge flt d r1 r2 now st = (st', Inr (cid, val)) \<Longrightarrow>
    cstep C (st, calls) (Issued cid) (st', calls)"
| deny: "Challenge flt d r1 r2 now st = (st', Inl err) \<Longrightarrow> cstep C (st, calls) Silent (st', calls)"
| take: "take_challenge cid st = (st', rec) \<Longrightarrow>
    cstep C (st, calls) (Took cid) (st', (cid, rec, sig) # calls)"
| accept: "check_signature C flt rec sig now st = (st', Return None) \<Longrightarrow>
    cstep C (st, before @ (cid, rec, sig) # after) (Accepted cid) (st', before @ after)"
| refuse: "check_signature C flt rec sig now st = (st', res) \<Longrightarrow> res \<noteq> Return None \<Longrightarrow>
    cstep C (st, before @ (cid, rec, sig) # after) (Refused cid) (st', before @ after)"
| elsewhere: "cstep C (st, calls) Silent (st\<lparr>as_db := trust_step C op (as_db st)\<rparr>, calls)"

inductive cpath :: "crypto \<Rightarrow> panel \<Rightarrow> auth_event list \<Rightarrow> panel \<Rightarrow> bool" for C p where
  start: "cpath C p [] p"
| more: "cpath C p evs q \<Longrightarrow> cstep C q ev r \<Longrightarrow> cpath C p (evs @ [ev]) r"

inductive_cases cpath_NilE: "cpath C p [] q"

text \<open>The calls that hold a record of a challenge id.\<close>

fun holders :: "string \<Rightarrow> verify_call list \<Rightarrow> nat" where
  "holders cid [] = 0"
| "holders cid ((c, rec, sig) # calls) = (if c = cid \<and> rec \<noteq> None then 1 else 0) + holders cid calls"

definition pending :: "string \<Rightarrow> auth_state \<Rightarrow> nat" where
  "pending cid st = (if as_challenges st cid = None then 0 else 1)"

lemma holders_append [simp]: "holders cid (xs @ ys) = holders cid xs + holders cid ys"
  by (induction cid xs rule: holders.induct) auto

lemma pending_cong: "as_challenges st' = as_challenges st \<Longrightarrow> pending cid st' = pending cid st"
  by (simp add: pending_def)

lemma pending_elsewhere [simp]: "pending cid (st\<lparr>as_db := db\<rparr>) = pending cid st"
  by (simp add: pending_def)

lemma pending_le: "pending cid st \<le> 1"
  by (simp add: pending_def)

text \<open>Each step pays for the acceptance it may bring: only an issue adds to the account.\<close>

lemma cstep_account:
  assumes "cstep C (st, calls) ev (st', calls')"
  shows "(if ev = Accepted cid then 1 else 0) + holders cid calls' + pending cid st'
    \<le> (if ev = Issued cid then 1 else 0) + holders cid calls + pending cid st"
  using assms
proof (cases rule: cstep.cases)
  case (issue flt d r1 r2 now c val)
  from Challenge_InrD [OF issue(3)] obtain r where "as_challenges st' = (as_challenges st)(c \<mapsto> r)"
    by auto
  with issue show ?thesis by (simp add: pending_def)
next
  case (deny flt d r1 r2 now err)
  from pending_cong [OF Challenge_InlD [OF deny(3)]] deny(1,2) show ?thesis by simp
next
  case (take c rec sig)
  then show ?thesis by (cases "c = cid") (auto simp: take_challenge_def pending_def)
next
  case (accept flt rec sig now before c after)
  from check_signature_NoneD [OF accept(4)] have "rec \<noteq> None" by auto
  moreover have "as_challenges st' = as_challenges st"
    using accept(4) check_signature_challenges [of C flt rec sig now st] by simp
  from pending_cong [OF this] have "pending cid st' = pending cid st" .
  ultimately show ?thesis using accept(1-3) by simp
next
  case (refuse flt rec sig now res before c after)
  have "as_challenges st' = as_challenges st"
    using refuse(4) check_signature_challenges [of C flt rec sig now st] by simp
  from pending_cong [OF this] have "pending cid st' = pending cid st" .
  with refuse(1-3) show ?thesis by simp
next
  case (elsewhere op)
  then show ?thesis by simp
qed

lemma cpath_account:
  assumes "cpath C p evs q"
  shows "count_list evs (Accepted cid) + holders cid (snd q) + pending cid (fst q)
    \<le> count_list evs (Issued cid) + holders cid (snd p) + pending cid (fst p)"
  using assms
proof (induction rule: cpath.induct)
  case start
  then show ?case by simp
next
  case (more evs q ev r)
  obtain st calls st' calls' where "q = (st, calls)" "r = (st', calls')" by (cases q; cases r)
  with more cstep_account [of C st calls ev st' calls' cid] show ?case
    by (cases "ev = Accepted cid"; cases "ev = Issued cid") simp_all
qed

section \<open>Along a run\<close>

lemma auth_run_registry:
  assumes "auth_inv st"
  shows "reg_le (abs_registry (as_db st)) (abs_registry (as_db (fold (auth_step C) ops st)))"
proof (rule grows_registry)
  show "db_ok (as_db (fold (auth_step C) ops st))"
    using authenticator.run_inv [OF assms] by (simp add: auth_inv_def)
  show "grows (as_db st) (as_db (fold (auth_step C) ops st))"
    using authenticator.run_before [OF assms] by (simp add: auth_grows_def)
qed

lemma auth_inv_New [wf_intros]: "db_ok db \<Longrightarrow> auth_inv (NewAuthenticator db)"
  by (simp add: auth_inv_def NewAuthenticator_def)

lemma Revoke_deactivates:
  assumes "snd (Revoke flt d now db) = None"
  shows "\<exists>pub. abs_registry (fst (Revoke flt d now db)) d = Some (pub, False)"
proof -
  have u: "flt SqlUpdate = None" and ne: "filter (active_row d) (db_devices db) \<noteq> []"
    using assms by (auto simp: Revoke_def split: option.splits if_splits)
  then obtain r where "r \<in> set (db_devices db)" "dr_id r = d"
    by (auto simp: filter_empty_conv active_row_def)
  then have "abs_registry db d \<noteq> None" by (auto simp: abs_registry_None)
  then obtain pub a where "abs_registry db d = Some (pub, a)" by auto
  with u show ?thesis by (cases a) (auto simp: abs_Revoke reg_revoke_def)
qed

text \<open>The concrete instance with one pending challenge.\<close>

definition toy_auth :: auth_state where
  "toy_auth = NewAuthenticator toy_db"

definition toy_cid :: string where "toy_cid = EncodeToString (replicate 32 CHR ''c'')"

definition toy_value :: bytes where "toy_value = replicate 32 CHR ''v''"

definition toy_record :: challengeRecord where
  "toy_record = \<lparr>ch_deviceID = id_DeviceID toy_identity, ch_value = toy_value, ch_expires = 0 + challengeLifetime\<rparr>"

definition toy_pending :: auth_state where
  "toy_pending = put_challenge toy_cid toy_record toy_auth"

definition toy_sig :: bytes where "toy_sig = toy_seed @ pad32 toy_value"

lemma toy_auth_inv: "auth_inv toy_auth"
  by (simp add: toy_auth_def auth_inv_New)

lemma toy_auth_registry: "abs_registry (as_db toy_auth) (id_DeviceID toy_identity) = Some (toy_seed, True)"
  using toy_registry by (simp add: toy_auth_def NewAuthenticator_def)

lemma toy_issue:
  "Challenge sql_ok (id_DeviceID toy_identity) (Some (replicate 32 CHR ''c'')) (Some toy_value) 0 toy_auth =
     (toy_pending, Inr (toy_cid, toy_value))"
  using Challenge_issues [of sql_ok toy_auth "id_DeviceID toy_identity" toy_seed] toy_auth_registry
  by (simp add: sql_ok_def toy_pending_def toy_cid_def toy_record_def)

lemma toy_pending_inv: "auth_inv toy_pending"
  using Challenge_inv [OF toy_auth_inv, of sql_ok "id_DeviceID toy_identity" "Some (replicate 32 CHR ''c'')" "Some toy_value" 0]
  by (simp add: toy_issue del: toy_identity_simps)

lemma toy_verify_facts:
  "as_challenges toy_pending toy_cid = Some toy_record" "5 < ch_expires toy_record"
  "abs_registry (as_db toy_pending) (ch_deviceID toy_record) = Some (toy_seed, True)"
  "cr_verify toy_crypto toy_seed (ch_value toy_record) toy_sig"
  using toy_auth_registry
  by (simp_all add: toy_pending_def toy_record_def toy_sig_def toy_crypto_def challengeLifetime_def time_units)

section \<open>Properties\<close>

text \<open>
  C3. A challenge is good for one login: in every interleaving of Challenge and Verify calls with one another
  and with changes to the tables by other processes, the number of accepted verifications of a
  challenge id is at most the number of times it was issued.
\<close>

theorem challenge_accepted_once:
  assumes "cpath C (NewAuthenticator db, []) evs q"
  shows "count_list evs (Accepted cid) \<le> count_list evs (Issued cid)"
  using cpath_account [OF assms, of cid] by (simp add: pending_def NewAuthenticator_def)

theorem challenge_accepted_once_witness:
  "\<exists>q. cpath toy_crypto (toy_auth, []) [Issued toy_cid, Took toy_cid, Accepted toy_cid] q
    \<and> count_list [Issued toy_cid, Took toy_cid, Accepted toy_cid] (Accepted toy_cid)
      \<le> count_list [Issued toy_cid, Took toy_cid, Accepted toy_cid] (Issued toy_cid)"
proof -
  have 1: "cpath toy_crypto (toy_auth, []) ([] @ [Issued toy_cid]) (toy_pending, [])"
    by (rule cpath.more [OF cpath.start]) (rule cstep.issue [OF toy_issue])
  let ?st = "delete_challenge toy_cid toy_pending"
  have 2: "cpath toy_crypto (toy_auth, []) (([] @ [Issued toy_cid]) @ [Took toy_cid]) (?st, [(toy_cid, Some toy_record, toy_sig)])"
    by (rule cpath.more [OF 1], rule cstep.take) (simp add: take_challenge_def toy_verify_facts)
  obtain st' where "check_signature toy_crypto sql_ok (Some toy_record) toy_sig 5 ?st = (st', Return None)"
    using Verify_accepts [OF toy_verify_facts(1,2), of sql_ok toy_seed toy_crypto toy_sig] toy_verify_facts(1,3,4)
    by (auto simp: Verify_def take_challenge_def sql_ok_def)
  then have "cstep toy_crypto (?st, [] @ (toy_cid, Some toy_record, toy_sig) # []) (Accepted toy_cid) (st', [] @ [])"
    by (rule cstep.accept)
  with 2 have "cpath toy_crypto (toy_auth, []) ((([] @ [Issued toy_cid]) @ [Took toy_cid]) @ [Accepted toy_cid]) (st', [])"
    by (intro cpath.more [OF 2]) simp
  then have p: "cpath toy_crypto (NewAuthenticator toy_db, []) [Issued toy_cid, Took toy_cid, Accepted toy_cid] (st', [])"
    by (simp add: toy_auth_def)
  from challenge_accepted_once [OF this, of toy_cid] p show ?thesis by (auto simp: toy_auth_def)
qed

text \<open>
  C6. Verify decides exactly what it should: with a working lookup, it accepts if and only if the challenge is
  pending and not expired, its device is registered and active, and the signature verifies over the
  challenge under the registered key; and whatever it decides, the challenge is gone afterwards.
\<close>

theorem verify_decides:
  assumes "auth_inv st" "flt SqlGet = None"
  shows "(snd (Verify C flt cid sig now st) = Return None \<longleftrightarrow>
      (\<exists>r pub. as_challenges st cid = Some r \<and> now < ch_expires r
         \<and> abs_registry (as_db st) (ch_deviceID r) = Some (pub, True) \<and> cr_verify C pub (ch_value r) sig))
    \<and> as_challenges (fst (Verify C flt cid sig now st)) = (as_challenges st)(cid := None)"
proof (intro conjI iffI)
  assume "snd (Verify C flt cid sig now st) = Return None"
  then have "Verify C flt cid sig now st = (fst (Verify C flt cid sig now st), Return None)"
    by (simp add: prod_eq_iff)
  from Verify_NoneD [OF this] show "\<exists>r pub. as_challenges st cid = Some r \<and> now < ch_expires r
         \<and> abs_registry (as_db st) (ch_deviceID r) = Some (pub, True) \<and> cr_verify C pub (ch_value r) sig"
    by blast
next
  assume "\<exists>r pub. as_challenges st cid = Some r \<and> now < ch_expires r
         \<and> abs_registry (as_db st) (ch_deviceID r) = Some (pub, True) \<and> cr_verify C pub (ch_value r) sig"
  then obtain r pub where r: "as_challenges st cid = Some r" "now < ch_expires r"
      "abs_registry (as_db st) (ch_deviceID r) = Some (pub, True)" "cr_verify C pub (ch_value r) sig" by blast
  from assms(1) have "db_ok (as_db st)" by (simp add: auth_inv_def)
  from registry_key_length [OF this r(3)] Verify_accepts [OF r(1,2), of flt pub C sig] assms(2) r(3,4)
  show "snd (Verify C flt cid sig now st) = Return None" by simp
qed simp

theorem verify_decides_witness:
  "snd (Verify toy_crypto sql_ok toy_cid toy_sig 5 toy_pending) = Return None"
proof -
  have "sql_ok SqlGet = None" by (simp add: sql_ok_def)
  with verify_decides [OF toy_pending_inv, of sql_ok toy_crypto toy_cid toy_sig 5] toy_verify_facts
  show ?thesis by blast
qed

text \<open>
  A spent challenge cannot be replayed: after a Verify of a challenge id, accepted or not, and any further
  calls that do not draw the same random id again, a Verify of it is refused.
\<close>

theorem no_replay:
  assumes "\<forall>op \<in> set ops. \<not> draws op cid"
  shows "snd (Verify C flt2 cid sig2 later (fold (auth_step C) ops (fst (Verify C flt cid sig now st)))) =
    Return (Some (verify_err ''authentication challenge is invalid or expired''))"
proof -
  have "as_challenges (fold (auth_step C) ops (fst (Verify C flt cid sig now st))) cid = None"
    using assms by (intro auth_run_absent) simp_all
  then show ?thesis by (simp add: Verify_def take_challenge_def check_signature_def Let_def)
qed

theorem no_replay_witness:
  "snd (Verify toy_crypto sql_ok toy_cid toy_sig 6 (fst (Verify toy_crypto sql_ok toy_cid toy_sig 5 toy_pending))) =
    Return (Some (verify_err ''authentication challenge is invalid or expired''))"
  using no_replay [of "[]" toy_cid toy_crypto sql_ok toy_sig 6 sql_ok toy_sig 5 toy_pending] by simp

text \<open>
  Verify never panics: from an authenticator over sound tables, after any calls and any changes of the
  tables by other processes, the stored public keys have the length \<open>ed25519.Verify\<close> insists on.
\<close>

theorem verify_never_panics:
  assumes "db_ok db"
  shows "snd (Verify C flt cid sig now (fold (auth_step C) ops (NewAuthenticator db))) \<noteq> Panic m"
  by (rule Verify_no_panic, rule authenticator.run_inv, rule auth_inv_New [OF assms])

theorem verify_never_panics_witness:
  "snd (Verify toy_crypto sql_ok toy_cid toy_sig 5 (fold (auth_step toy_crypto)
     [ATrust (TRevoke sql_ok (id_DeviceID toy_identity) 1)] (NewAuthenticator toy_db))) \<noteq> Panic []"
  by (rule verify_never_panics) simp

text \<open>
  C7. A revoked device cannot authenticate any more: after a successful Revoke and whatever follows, Challenge
  for the device fails, and a challenge issued to it before is refused by Verify, right signature or not.
\<close>

theorem revoked_device_cannot_authenticate:
  assumes "auth_inv st" "snd (Revoke flt d now (as_db st)) = None"
    and "st' = fold (auth_step C) ops (auth_step C (ATrust (TRevoke flt d now)) st)"
  shows "is_err (snd (Challenge flt2 d r1 r2 later st'))
    \<and> (\<forall>cid r sig. as_challenges st' cid = Some r \<and> ch_deviceID r = d \<longrightarrow>
         snd (Verify C flt2 cid sig later st') \<noteq> Return None)"
proof -
  let ?st1 = "auth_step C (ATrust (TRevoke flt d now)) st"
  obtain pub where "abs_registry (as_db ?st1) d = Some (pub, False)"
    using Revoke_deactivates [OF assms(2)] by auto
  with auth_run_registry [OF auth_step_inv [OF assms(1)], of C "ATrust (TRevoke flt d now)" C ops]
  obtain a where "abs_registry (as_db st') d = Some (pub, a)" "a \<longrightarrow> False"
    unfolding reg_le_def assms(3) by metis
  then have off: "abs_registry (as_db st') d = Some (pub, False)" by simp
  then have "is_err (snd (Challenge flt2 d r1 r2 later st'))"
    using Challenge_refused [of st' d flt2 r1 r2 later] by simp
  moreover have "snd (Verify C flt2 cid sig later st') \<noteq> Return None"
    if r: "as_challenges st' cid = Some r" "ch_deviceID r = d" for cid r sig
  proof
    assume "snd (Verify C flt2 cid sig later st') = Return None"
    then have "Verify C flt2 cid sig later st' = (fst (Verify C flt2 cid sig later st'), Return None)"
      by (simp add: prod_eq_iff)
    from Verify_NoneD [OF this] r off show False by auto
  qed
  ultimately show ?thesis by blast
qed

theorem revoked_device_cannot_authenticate_witness:
  "snd (Verify toy_crypto sql_ok toy_cid toy_sig 5
     (auth_step toy_crypto (ATrust (TRevoke sql_ok (id_DeviceID toy_identity) 1)) toy_pending)) \<noteq> Return None"
proof -
  have "abs_registry (as_db toy_pending) (id_DeviceID toy_identity) = Some (toy_seed, True)"
    using toy_verify_facts(3) by (simp add: toy_record_def)
  then have "filter (active_row (id_DeviceID toy_identity)) (db_devices (as_db toy_pending)) \<noteq> []"
    by (auto simp: abs_registry_find active_row_def filter_empty_conv dest!: find_SomeD)
  then have r: "snd (Revoke sql_ok (id_DeviceID toy_identity) 1 (as_db toy_pending)) = None"
    by (simp add: Revoke_def sql_ok_def exec_def insert_audit_def)
  have "as_challenges (auth_step toy_crypto (ATrust (TRevoke sql_ok (id_DeviceID toy_identity) 1)) toy_pending) toy_cid
      = Some toy_record"
    using toy_verify_facts(1) by simp
  with revoked_device_cannot_authenticate [OF toy_pending_inv r, of _ toy_crypto "[]" sql_ok None None 5]
  show ?thesis by (simp add: toy_record_def)
qed

end
