(* ===== verification/Bridge.thy ===== *)
theory Bridge
  imports Http Authenticator
begin

text \<open>
  \<open>internal/bridge/bridge.go\<close>: the two operations of the Agent's local signing bridge and the start of
  its listeners. The handler holds the device identity; a client sees the device id and signatures.
\<close>

section \<open>The handler\<close>

text \<open>\<open>Header().Set\<close> calls before an error or a JSON answer stay on the response.\<close>

definition with_headers :: "header \<Rightarrow> response \<Rightarrow> response" where
  "with_headers h r = r\<lparr>rs_Header := h @ rs_Header r\<rparr>"

definition decode_field :: "string \<Rightarrow> json \<Rightarrow> string option" where
  "decode_field name v = Option.bind (struct_fields v) (\<lambda>fs. field_str name fs [])"

definition identity_handler :: "identity \<Rightarrow> request \<Rightarrow> response" where
  "identity_handler i r =
     (if rq_Method r \<noteq> ''GET'' then http_Error ''method not allowed'' 405
      else with_headers [(''Access-Control-Allow-Origin'', ''*'')]
             (writeJSON (JObj [(''device_id'', JStr (id_DeviceID i))])))"

definition sign_handler :: "crypto \<Rightarrow> identity \<Rightarrow> request \<Rightarrow> response" where
  "sign_handler C i r =
     with_headers [(''Access-Control-Allow-Origin'', ''*''), (''Access-Control-Allow-Headers'', ''Content-Type'')]
      (if rq_Method r = ''OPTIONS'' then \<lparr>rs_Status = 204, rs_Header = [], rs_Body = []\<rparr>
       else if rq_Method r \<noteq> ''POST'' then http_Error ''method not allowed'' 405
       else (case Option.bind (Decode_limited (rq_Body r)) (decode_field ''challenge'') of
         None \<Rightarrow> http_Error ''invalid request'' 400
       | Some ch \<Rightarrow>
           (case DecodeString (TrimSpace ch) of
              None \<Rightarrow> http_Error ''invalid challenge'' 400
            | Some val \<Rightarrow>
                if length val \<noteq> 32 then http_Error ''invalid challenge'' 400
                else (case Sign C i val of
                  Inl _ \<Rightarrow> http_Error ''signing unavailable'' 503
                | Inr sig \<Rightarrow> writeJSON (JObj [(''signature'', JStr (EncodeSignature sig))])))))"

definition bridgeHandler :: "crypto \<Rightarrow> identity \<Rightarrow> request \<Rightarrow> response" where
  "bridgeHandler C i r =
     (if redirected r then redirect (cleanPath (rq_Path r))
      else if rq_Path r = ''/identity'' then identity_handler i r
      else if rq_Path r = ''/sign'' then sign_handler C i r
      else NotFound)"

section \<open>Starting the bridge\<close>

text \<open>
  \<open>Serve\<close>: a stale socket file is removed, then the unix and the TCP listener are tried; each that
  opened is served with an identity loaded when serving starts, and it is enough that one opened.
\<close>

datatype bridge_transport = OverUnix | OverTCP

datatype serve_result =
    ServeFailed go_error
  | Serving "bridge_transport list"

definition Serve :: "go_error option \<Rightarrow> go_error option \<Rightarrow> go_error + identity \<Rightarrow> serve_result" where
  "Serve unix_err tcp_err loaded =
     (let ls = (if unix_err = None then [OverUnix] else []) @ (if tcp_err = None then [OverTCP] else []) in
      if ls = [] then ServeFailed (case unix_err of Some e \<Rightarrow> e | None \<Rightarrow> the tcp_err)
      else (case loaded of Inl e \<Rightarrow> ServeFailed e | Inr _ \<Rightarrow> Serving ls))"

section \<open>What the clients of the bridge rely on\<close>

text \<open>
  The contract of a signing agent: it names its device, and the signature it returns for a 32-byte
  challenge is one the device's key accepts. \<open>ok\<close> singles out the agents that hold a usable identity.
\<close>

definition json_post :: "string \<Rightarrow> json \<Rightarrow> request" where
  "json_post path v = \<lparr>rq_Method = ''POST'', rq_Path = path,
     rq_Header = [(''Content-Type'', ''application/json'')], rq_Body = stringify v\<rparr>"

definition plain_get :: "string \<Rightarrow> request" where
  "plain_get path = \<lparr>rq_Method = ''GET'', rq_Path = path,
     rq_Header = [(''Content-Type'', ''application/json'')], rq_Body = []\<rparr>"

lemma request_simps [simp]:
  "rq_Method (json_post p v) = ''POST''" "rq_Path (json_post p v) = p"
  "rq_Body (json_post p v) = stringify v"
  "rq_Method (plain_get p) = ''GET''" "rq_Path (plain_get p) = p" "rq_Body (plain_get p) = []"
  by (simp_all add: json_post_def plain_get_def)

locale signing_agent =
  fixes ok :: "'a \<Rightarrow> bool" and serve :: "'a \<Rightarrow> request \<Rightarrow> response"
    and device :: "'a \<Rightarrow> string" and accepts :: "'a \<Rightarrow> bytes \<Rightarrow> bytes \<Rightarrow> bool"
  assumes names_device: "ok a \<Longrightarrow>
      rs_Status (serve a (plain_get ''/identity'')) = 200 \<and>
      rs_Body (serve a (plain_get ''/identity'')) = Marshal (JObj [(''device_id'', JStr (device a))]) @ newline"
    and signs: "ok a \<Longrightarrow> length v = 32 \<Longrightarrow>
      \<exists>sig. accepts a v sig \<and>
        rs_Status (serve a (json_post ''/sign'' (JObj [(''challenge'', JStr (EncodeToString v))]))) = 200 \<and>
        rs_Body (serve a (json_post ''/sign'' (JObj [(''challenge'', JStr (EncodeToString v))]))) =
          Marshal (JObj [(''signature'', JStr (EncodeToString sig))]) @ newline"
begin

lemma identity_parses:
  "ok a \<Longrightarrow> parse_first (rs_Body (serve a (plain_get ''/identity''))) = Some (JObj [(''device_id'', JStr (device a))])"
  by (simp add: names_device parse_first_newline)

lemma signature_parses:
  assumes "ok a" "length v = 32"
  obtains sig where "accepts a v sig"
    "Unmarshal (rs_Body (serve a (json_post ''/sign'' (JObj [(''challenge'', JStr (EncodeToString v))])))) =
       Some (JObj [(''signature'', JStr (EncodeToString sig))])"
  using signs [OF assms] by (auto simp: Unmarshal_newline)

end

section \<open>Lemmas\<close>

lemma esc_char_plain: "esc_char True c = [c] \<Longrightarrow> esc_char html c = [c]"
  by (cases html) (auto simp: esc_char_def esc_u_def split: if_splits)

lemma print_plain_any: "plain_str s \<Longrightarrow> print_str html s = CHR 0x22 # s @ [CHR 0x22]"
proof -
  assume "plain_str s"
  then have "concat (map (esc_char html) s) = s"
    by (induction s) (simp_all add: plain_str_def esc_char_plain)
  then show ?thesis by (simp add: print_str_def)
qed

lemma length_one_field:
  "plain_str k \<Longrightarrow> plain_str s \<Longrightarrow> length (print_json html (JObj [(k, JStr s)])) = length k + length s + 7"
  by (simp add: print_plain_any)

lemma length_two_fields:
  "plain_str k \<Longrightarrow> plain_str s \<Longrightarrow> plain_str l \<Longrightarrow> plain_str t \<Longrightarrow>
    length (print_json html (JObj [(k, JStr s), (l, JStr t)])) = length k + length s + length l + length t + 13"
  by (simp add: print_plain_any)

lemma plain_keys [simp]:
  "plain_str ''challenge''" "plain_str ''challenge_id''" "plain_str ''signature''" "plain_str ''device_id''"
  by (simp_all add: plain_str_def esc_char_def)

lemma decode_field_one [simp]: "decode_field k (JObj [(k, JStr s)]) = Some s"
  by (simp add: decode_field_def struct_fields_def)

lemma with_headers_simps [simp]:
  "rs_Status (with_headers h r) = rs_Status r" "rs_Body (with_headers h r) = rs_Body r"
  by (simp_all add: with_headers_def)

lemma clean_bridge_paths [simp]:
  "cleanPath ''/identity'' = ''/identity''" "cleanPath ''/sign'' = ''/sign''"
  by code_simp+

lemma bridge_signs:
  assumes C: "ed25519_ok C" and i: "good_identity C i" and v: "length v = 32"
  shows "bridgeHandler C i (json_post ''/sign'' (JObj [(''challenge'', JStr (EncodeToString v))])) =
    with_headers [(''Access-Control-Allow-Origin'', ''*''), (''Access-Control-Allow-Headers'', ''Content-Type'')]
      (writeJSON (JObj [(''signature'', JStr (EncodeToString (cr_sign C (id_privateKey i) v)))]))"
proof -
  have "length (stringify (JObj [(''challenge'', JStr (EncodeToString v))])) \<le> max_body"
    using v by (simp only: stringify_def) (simp add: length_one_field length_EncodeToString max_body_def del: print_json.simps print_fields.simps)
  then have "Decode_limited (stringify (JObj [(''challenge'', JStr (EncodeToString v))])) =
      Some (JObj [(''challenge'', JStr (EncodeToString v))])"
    by (intro Decode_limited_stringify) simp_all
  moreover have "length (id_privateKey i) = 64"
    using i generated_keyD [OF C] by (auto simp: good_identity_def)
  ultimately show ?thesis
    using v by (simp add: bridgeHandler_def sign_handler_def Sign_def key_sizes EncodeSignature_def)
qed

text \<open>The Agent's handler is such a signing agent when it holds an identity of Create's making.\<close>

definition bridge_agent_ok :: "crypto \<times> identity \<Rightarrow> bool" where
  "bridge_agent_ok a \<longleftrightarrow> ed25519_ok (fst a) \<and> good_identity (fst a) (snd a)"

definition bridge_accepts :: "crypto \<times> identity \<Rightarrow> bytes \<Rightarrow> bytes \<Rightarrow> bool" where
  "bridge_accepts a m sig \<longleftrightarrow> length sig = 64 \<and> cr_verify (fst a) (id_PublicKey (snd a)) m sig"

lemma good_identity_signs:
  assumes "ed25519_ok C" "good_identity C i"
  shows "bridge_accepts (C, i) m (cr_sign C (id_privateKey i) m)" "length (id_PublicKey i) = 32"
    "id_DeviceID i \<noteq> []" "length (id_PublicKey i) = PublicKeySize"
proof -
  from assms(2) have g: "generated_key C (id_privateKey i)" and p: "id_PublicKey i = public_of (id_privateKey i)"
    by (auto simp: good_identity_def)
  note k = generated_keyD [OF assms(1) g]
  from k p show "bridge_accepts (C, i) m (cr_sign C (id_privateKey i) m)" "length (id_PublicKey i) = 32"
    "length (id_PublicKey i) = PublicKeySize"
    by (simp_all add: bridge_accepts_def key_sizes)
  from assms(2) obtain b where "b \<noteq> []" "id_DeviceID i = EncodeToString b" by (auto simp: good_identity_def)
  then show "id_DeviceID i \<noteq> []" by simp
qed

interpretation bridge: signing_agent bridge_agent_ok "\<lambda>a. bridgeHandler (fst a) (snd a)"
    "\<lambda>a. id_DeviceID (snd a)" bridge_accepts
proof unfold_locales
  show "\<exists>sig. bridge_accepts a v sig \<and>
        rs_Status (bridgeHandler (fst a) (snd a) (json_post ''/sign'' (JObj [(''challenge'', JStr (EncodeToString v))]))) = 200 \<and>
        rs_Body (bridgeHandler (fst a) (snd a) (json_post ''/sign'' (JObj [(''challenge'', JStr (EncodeToString v))]))) =
          Marshal (JObj [(''signature'', JStr (EncodeToString sig))]) @ newline"
    if "bridge_agent_ok a" "length v = 32" for a v
  proof -
    obtain C i where a: "a = (C, i)" by (cases a)
    with that have "ed25519_ok C" "good_identity C i" by (simp_all add: bridge_agent_ok_def)
    with bridge_signs [OF this that(2)] good_identity_signs(1) [OF this, of v] a show ?thesis
      by (auto intro!: exI [of _ "cr_sign C (id_privateKey i) v"])
  qed
qed (auto simp: bridgeHandler_def identity_handler_def)

section \<open>Properties\<close>

text \<open>
  C16. The bridge gives away nothing of the private key beyond signatures: two identities with the same device
  id whose keys sign every 32-byte challenge alike get the same response to every request.
\<close>

theorem bridge_reveals_only_signatures:
  assumes "id_DeviceID i = id_DeviceID j" "\<forall>v. length v = 32 \<longrightarrow> Sign C i v = Sign C j v"
  shows "bridgeHandler C i r = bridgeHandler C j r"
  using assms
  by (auto simp: bridgeHandler_def identity_handler_def sign_handler_def split: option.splits)

theorem bridge_reveals_only_signatures_witness:
  "bridgeHandler toy_crypto toy_identity (json_post ''/sign'' (JObj [])) =
     bridgeHandler toy_crypto (toy_identity\<lparr>id_privateKey := replicate 32 CHR ''x'' @ toy_seed\<rparr>)
       (json_post ''/sign'' (JObj []))"
  by (rule bridge_reveals_only_signatures) (simp_all add: Sign_def toy_crypto_def public_of_def key_sizes)

text \<open>
  C15. A signing request with a 32-byte challenge in base64url is answered with a signature that the device's
  public key accepts, and any request the bridge answers with a signature is a POST to \<open>/sign\<close> whose
  challenge decodes to 32 bytes.
\<close>

theorem bridge_signs_challenges:
  assumes "ed25519_ok C" "good_identity C i"
  shows "(\<forall>v. length v = 32 \<longrightarrow> (\<exists>sig. bridge_accepts (C, i) v sig \<and>
      rs_Body (bridgeHandler C i (json_post ''/sign'' (JObj [(''challenge'', JStr (EncodeToString v))]))) =
        Marshal (JObj [(''signature'', JStr (EncodeToString sig))]) @ newline))
    \<and> (\<forall>r. rq_Path r = ''/sign'' \<and> rs_Status (bridgeHandler C i r) = 200 \<longrightarrow> rq_Method r = ''POST'' \<and>
        (\<exists>ch v. Option.bind (Decode_limited (rq_Body r)) (decode_field ''challenge'') = Some ch
           \<and> DecodeString (TrimSpace ch) = Some v \<and> length v = 32))"
proof (intro conjI allI impI)
  fix v :: bytes
  assume v: "length v = 32"
  show "\<exists>sig. bridge_accepts (C, i) v sig \<and>
      rs_Body (bridgeHandler C i (json_post ''/sign'' (JObj [(''challenge'', JStr (EncodeToString v))]))) =
        Marshal (JObj [(''signature'', JStr (EncodeToString sig))]) @ newline"
    using bridge_signs [OF assms v] good_identity_signs(1) [OF assms, of v] by (intro exI conjI) simp_all
next
  fix r
  assume r: "rq_Path r = ''/sign'' \<and> rs_Status (bridgeHandler C i r) = 200"
  then have s: "rs_Status (sign_handler C i r) = 200" by (auto simp: bridgeHandler_def)
  then show "rq_Method r = ''POST''"
    by (auto simp: sign_handler_def split: if_splits)
  from s show "\<exists>ch v. Option.bind (Decode_limited (rq_Body r)) (decode_field ''challenge'') = Some ch
           \<and> DecodeString (TrimSpace ch) = Some v \<and> length v = 32"
    by (auto simp: sign_handler_def split: if_splits option.splits)
qed

theorem bridge_signs_challenges_witness:
  "\<exists>sig. bridge_accepts (toy_crypto, toy_identity) toy_value sig \<and>
     rs_Body (bridgeHandler toy_crypto toy_identity
        (json_post ''/sign'' (JObj [(''challenge'', JStr (EncodeToString toy_value))]))) =
      Marshal (JObj [(''signature'', JStr (EncodeToString sig))]) @ newline"
  using bridge_signs_challenges [OF toy_crypto_ok toy_identity_good] by (simp add: toy_value_def)

end
