(* ===== verification/Go_Float.thy ===== *)
theory Go_Float
  imports Go_Strings "HOL-Library.Log_Nat"
begin

text \<open>
  What the program uses of float64: rounding to 53 significant bits, \<open>strconv.ParseFloat\<close>, and the whole units that
  \<open>Hours\<close>, \<open>Minutes\<close> and \<open>Seconds\<close> of a duration are cut to. A value that is not negative is a quotient of naturals.
\<close>

section \<open>Rounding to float64\<close>

text \<open>
  The quotient \<open>p / q\<close> rounded to 53 significant bits, ties to even, as a quotient again. Numbers below the normal
  range, which have fewer bits, are cut to 0 wherever the program meets them.
\<close>

definition round_half_even :: "nat \<Rightarrow> nat \<Rightarrow> nat" where
  "round_half_even p q =
     (let k = p div q; r = 2 * (p mod q) in if r < q \<or> (r = q \<and> even k) then k else k + 1)"

definition scale2 :: "nat \<Rightarrow> nat \<Rightarrow> int \<Rightarrow> nat \<times> nat" where
  "scale2 p q k = (if 0 \<le> k then (p * 2 ^ nat k, q) else (p, q * 2 ^ nat (- k)))"

definition float_exponent :: "nat \<Rightarrow> nat \<Rightarrow> int" where
  "float_exponent p q =
     (let k = 53 + bitlen (int q) - bitlen (int p) in
      case scale2 p q k of (a, b) \<Rightarrow> if 2 ^ 53 * b \<le> a then k - 1 else k)"

definition float64 :: "nat \<Rightarrow> nat \<Rightarrow> nat \<times> nat" where
  "float64 p q =
     (if p = 0 then (0, 1)
      else (let k = float_exponent p q in
            case scale2 p q k of (c, d) \<Rightarrow>
              (let m = round_half_even c d in if 0 \<le> k then (m, 2 ^ nat k) else (m * 2 ^ nat (- k), 1))))"

lemma round_whole: "0 < d \<Longrightarrow> round_half_even (m * d) d = m"
  by (simp add: round_half_even_def)

lemma round_close:
  assumes "0 < q"
  shows "\<bar>2 * (int (round_half_even p q) * int q) - 2 * int p\<bar> \<le> int q"
proof -
  have "int p = int (p div q) * int q + int (p mod q)" by (simp flip: of_nat_mult of_nat_add)
  moreover have "int (p mod q) < int q" using assms by simp
  ultimately show ?thesis
    unfolding round_half_even_def Let_def by (auto simp: algebra_simps)
qed

lemma round_ge: "0 < q \<Longrightarrow> m * q \<le> p \<Longrightarrow> m \<le> round_half_even p q"
  by (auto simp: round_half_even_def Let_def less_eq_div_iff_mult_less_eq le_SucI)

text \<open>The scaled quotient has at least 53 bits before the point.\<close>

lemma bitlen_pos_bounds:
  assumes "0 < n"
  obtains L where "bitlen (int n) = int (Suc L)" "2 ^ L \<le> n" "n < 2 ^ Suc L"
proof -
  define L where "L = floorlog 2 n"
  have "0 < L" using assms by (auto simp: L_def floorlog_def)
  with that [of "L - 1"] floorlog_bounds [of n 2] assms show thesis by (simp add: L_def bitlen_def)
qed

lemma scale2_start:
  assumes "0 < p" "0 < q" "scale2 p q (53 + bitlen (int q) - bitlen (int p)) = (a, b)"
  shows "2 ^ 52 * b < a"
proof -
  obtain P where P: "bitlen (int p) = int (Suc P)" "2 ^ P \<le> p" using assms(1) by (rule bitlen_pos_bounds)
  obtain Q where Q: "bitlen (int q) = int (Suc Q)" "q < 2 ^ Suc Q" using assms(2) by (rule bitlen_pos_bounds)
  show ?thesis
  proof (cases "P \<le> 53 + Q")
    case True
    then have "53 + bitlen (int q) - bitlen (int p) = int (53 + Q - P)" using P(1) Q(1) by simp
    with assms(3) have ab: "a = p * 2 ^ (53 + Q - P)" "b = q" by (simp_all add: scale2_def)
    have "2 ^ 52 * q < 2 ^ 52 * 2 ^ Suc Q" using Q(2) by simp
    also have "\<dots> = 2 ^ (53 + Q)" by (simp add: power_add)
    also have "\<dots> = 2 ^ P * 2 ^ (53 + Q - P)" using True by (simp flip: power_add)
    also have "\<dots> \<le> p * 2 ^ (53 + Q - P)" using P(2) by (simp only: mult_le_mono1)
    finally show ?thesis by (simp add: ab)
  next
    case False
    define j where "j = P - 53 - Q"
    then have j: "P = 53 + Q + j" "0 < j" using False by simp_all
    have "53 + bitlen (int q) - bitlen (int p) = - int j" using P(1) Q(1) j by simp
    with assms(3) j(2) have ab: "a = p" "b = q * 2 ^ j" by (simp_all add: scale2_def)
    have "2 ^ 52 * (q * 2 ^ j) < 2 ^ 52 * (2 ^ Suc Q * 2 ^ j)" using Q(2) by simp
    also have "\<dots> = 2 ^ P" by (simp add: j(1) power_add)
    finally show ?thesis using P(2) by (simp add: ab)
  qed
qed

lemma scale2_half:
  assumes "scale2 p q k = (a, b)" "scale2 p q (k - 1) = (c, d)"
  shows "2 * c * b = a * d"
proof (cases "1 \<le> k")
  case True
  then have "nat k = Suc (nat (k - 1))" by simp
  with assms True show ?thesis by (auto simp: scale2_def)
next
  case False
  then have "nat (1 - k) = Suc (nat (- k))" by simp
  with assms False show ?thesis by (auto simp: scale2_def split: if_splits)
qed

lemma scale2_pos: "scale2 p q k = (a, b) \<Longrightarrow> 0 < q \<Longrightarrow> 0 < b"
  by (auto simp: scale2_def split: if_splits)

lemma float64_parts:
  assumes "0 < p" "0 < q"
  obtains k c d where "scale2 p q k = (c, d)" "2 ^ 52 * d \<le> c" "0 < d"
    "float64 p q = (if 0 \<le> k then (round_half_even c d, 2 ^ nat k) else (round_half_even c d * 2 ^ nat (- k), 1))"
proof -
  define k0 where "k0 = 53 + bitlen (int q) - bitlen (int p)"
  obtain a b where ab: "scale2 p q k0 = (a, b)" by (cases "scale2 p q k0")
  have start: "2 ^ 52 * b < a" using scale2_start [OF assms] ab by (simp add: k0_def)
  define k where "k = float_exponent p q"
  obtain c d where cd: "scale2 p q k = (c, d)" by (cases "scale2 p q k")
  have d: "0 < d" and b: "0 < b" using scale2_pos cd ab assms(2) by blast+
  have "2 ^ 52 * d \<le> c"
  proof (cases "2 ^ 53 * b \<le> a")
    case True
    then have "k = k0 - 1" using ab by (simp add: k_def float_exponent_def Let_def flip: k0_def)
    with cd scale2_half [OF ab] have "2 * c * b = a * d" by simp
    moreover have "2 ^ 53 * b * d \<le> a * d" using True by (simp only: mult_le_mono1)
    ultimately have "(2 ^ 52 * d) * (2 * b) \<le> c * (2 * b)" by (simp add: algebra_simps)
    then show ?thesis using b by (simp only: mult_le_cancel2)
  next
    case False
    then have "k = k0" using ab by (simp add: k_def float_exponent_def Let_def flip: k0_def)
    with cd ab start show ?thesis by simp
  qed
  with that [OF cd _ d] assms cd show thesis by (simp add: float64_def Let_def flip: k_def)
qed

lemma float64_pos: "0 < snd (float64 p q)"
  by (auto simp: float64_def Let_def split: prod.splits)

text \<open>The relative error is at most \<open>2\<close> to the minus 53.\<close>

lemma float64_error:
  assumes "float64 p q = (a, b)" "0 < q"
  shows "0 < b" "2 ^ 53 * \<bar>int a * int q - int p * int b\<bar> \<le> int p * int b"
proof -
  show "0 < b" using float64_pos [of p q] assms(1) by simp
  show "2 ^ 53 * \<bar>int a * int q - int p * int b\<bar> \<le> int p * int b"
  proof (cases "p = 0")
    case True
    with assms(1) show ?thesis by (simp add: float64_def)
  next
    case False
    then obtain k c d where k: "scale2 p q k = (c, d)" "2 ^ 52 * d \<le> c" "0 < d"
      "float64 p q = (if 0 \<le> k then (round_half_even c d, 2 ^ nat k) else (round_half_even c d * 2 ^ nat (- k), 1))"
      using float64_parts [of p q] assms(2) by auto
    then have "int a * int q = int (round_half_even c d) * int d \<and> int p * int b = int c"
      using assms(1) by (auto simp: scale2_def split: if_splits)
    moreover have "2 ^ 52 * int d \<le> int c" using k(2) by (metis of_nat_le_iff of_nat_mult of_nat_numeral of_nat_power)
    ultimately show ?thesis using round_close [OF k(3), of c] by (simp add: abs_if split: if_splits)
  qed
qed

text \<open>A quotient of few bits is a float64 itself.\<close>

lemma float64_exact:
  assumes "0 < r" "r < 2 ^ 53" "0 < q"
  shows "\<exists>b. float64 (r * 2 ^ e * q) q = (r * 2 ^ e * b, b) \<and> 0 < b"
proof -
  have "0 < r * 2 ^ e * q" using assms by simp
  then obtain k c d where k: "scale2 (r * 2 ^ e * q) q k = (c, d)" "2 ^ 52 * d \<le> c" "0 < d"
    "float64 (r * 2 ^ e * q) q = (if 0 \<le> k then (round_half_even c d, 2 ^ nat k) else (round_half_even c d * 2 ^ nat (- k), 1))"
    using assms(3) by (rule float64_parts)
  show ?thesis
  proof (cases "0 \<le> k")
    case True
    with k(1) have "c = (r * 2 ^ e * 2 ^ nat k) * d" "d = q" by (auto simp: scale2_def)
    with k(3,4) True show ?thesis by (simp add: round_whole)
  next
    case False
    define j where "j = nat (- k)"
    from False k(1) have cd: "c = r * 2 ^ e * q" "d = q * 2 ^ j" by (auto simp: scale2_def j_def)
    with k(2) have "q * (2 ^ 52 * 2 ^ j) \<le> q * (r * 2 ^ e)" by (simp add: algebra_simps)
    then have "2 ^ 52 * 2 ^ j \<le> r * 2 ^ e" using assms(3) by (simp only: mult_le_cancel1)
    also have "\<dots> < 2 ^ 53 * 2 ^ e" using assms(2) by simp
    finally have "(2 :: nat) ^ (52 + j) < 2 ^ (53 + e)" by (simp add: power_add)
    then have "j \<le> e" using power_strict_increasing_iff [of "2 :: nat"] by fastforce
    then have "c = (r * 2 ^ (e - j)) * d" by (simp add: cd flip: power_add)
    with k(3,4) False \<open>j \<le> e\<close> show ?thesis by (simp add: round_whole j_def [symmetric] flip: power_add)
  qed
qed

lemma float64_nat:
  assumes "0 < n" "n < 2 ^ 53"
  shows "\<exists>q. float64 n 1 = (n * q, q) \<and> 0 < q"
  using float64_exact [OF assms, of 1 0] by simp

text \<open>Rounding does not cross a whole number from above.\<close>

lemma float64_ge:
  assumes "float64 p q = (a, b)" "0 < p" "0 < q" "h * q \<le> p" "h < 2 ^ 53"
  shows "h * b \<le> a"
proof -
  obtain k c d where k: "scale2 p q k = (c, d)" "2 ^ 52 * d \<le> c" "0 < d"
    "float64 p q = (if 0 \<le> k then (round_half_even c d, 2 ^ nat k) else (round_half_even c d * 2 ^ nat (- k), 1))"
    using assms(2,3) by (rule float64_parts)
  show ?thesis
  proof (cases "0 \<le> k")
    case True
    with k(1) have "h * 2 ^ nat k * d \<le> c" using assms(4) by (auto simp: scale2_def)
    from round_ge [OF k(3) this] True k(4) assms(1) show ?thesis by simp
  next
    case False
    have "2 ^ 52 \<le> round_half_even c d" using k(2,3) by (intro round_ge) simp_all
    moreover have "2 ^ 1 \<le> (2 :: nat) ^ nat (- k)" using False by (intro power_increasing) simp_all
    ultimately have m: "2 ^ 52 * 2 ^ 1 \<le> round_half_even c d * 2 ^ nat (- k)" by (rule mult_le_mono)
    have "a = round_half_even c d * 2 ^ nat (- k)" "b = 1" using assms(1) False k(4) by simp_all
    moreover have "h \<le> 2 ^ 52 * 2 ^ 1" using assms(5) by simp
    ultimately show ?thesis using m by simp
  qed
qed

section \<open>Whole units of a duration\<close>

text \<open>
  \<open>int(d.Hours())\<close> for the unit of an hour, and so on: the code adds the whole units and the rest divided by the unit as
  float64, and the conversion cuts the sum.
\<close>

definition whole_units :: "nat \<Rightarrow> nat \<Rightarrow> nat" where
  "whole_units unit d =
     (case float64 (d mod unit) unit of (p, q) \<Rightarrow>
        (case float64 ((d div unit) * q + p) q of (a, b) \<Rightarrow> a div b))"

text \<open>The error of one rounding, over the reals.\<close>

lemma float64_real:
  assumes "float64 p q = (a, b)" "0 < q"
  shows "\<bar>real a / real b - real p / real q\<bar> \<le> real p / real q / 2 ^ 53"
proof -
  have b: "0 < b" and e: "2 ^ 53 * \<bar>int a * int q - int p * int b\<bar> \<le> int p * int b" using float64_error [OF assms] by blast+
  have "real_of_int (2 ^ 53 * \<bar>int a * int q - int p * int b\<bar>) \<le> real_of_int (int p * int b)" using e by (simp only: of_int_le_iff)
  then have "2 ^ 53 * \<bar>real a * real q - real p * real b\<bar> \<le> real p * real b" by simp
  moreover have "\<bar>real a / real b - real p / real q\<bar> = \<bar>real a * real q - real p * real b\<bar> / (real b * real q)"
    using b assms(2) by (simp add: diff_divide_eq_iff divide_diff_eq_iff abs_mult field_simps)
  ultimately show ?thesis using b assms(2) by (simp add: field_simps)
qed

lemma rel_upper: "\<bar>x - y\<bar> \<le> y / 2 ^ 53 \<Longrightarrow> x \<le> y * (1 + 1 / 2 ^ 53)" for x y :: real
  using abs_ge_self [of "x - y"] by (simp only: distrib_left mult_1_right times_divide_eq_right)

lemma div_between:
  assumes "h * b \<le> a" "a < (h + 1) * b"
  shows "a div b = (h :: nat)"
  using assms by (simp add: div_nat_eqI mult.commute)

lemma whole_units_exact:
  assumes "0 < u" "d < 2 ^ 63" "d div u < 2 ^ 53" "d mod u + 3000 \<le> u"
  shows "whole_units u d = d div u"
proof (cases "d = 0")
  case True
  then show ?thesis by (simp add: whole_units_def float64_def)
next
  case False
  define h r where "h = d div u" and "r = d mod u"
  have d: "d = h * u + r" by (simp add: h_def r_def)
  obtain p q where p: "float64 r u = (p, q)" by (cases "float64 r u")
  obtain a b where a: "float64 (h * q + p) q = (a, b)" by (cases "float64 (h * q + p) q")
  have q: "0 < q" and b: "0 < b" using p a float64_pos [of r u] float64_pos [of "h * q + p" q] by simp_all
  have ru: "real p / real q \<le> real r / real u * (1 + 1 / 2 ^ 53)"
    using float64_real [OF p assms(1)] by (rule rel_upper)
  have v: "real (h * q + p) / real q = real h + real p / real q" using q by (simp add: field_simps)
  have s: "real a / real b \<le> (real h + real p / real q) * (1 + 1 / 2 ^ 53)"
    using float64_real [OF a q] unfolding v by (rule rel_upper)
  have du: "real h + real r / real u = real d / real u" using assms(1) by (simp add: d field_simps)
  have "real h + real p / real q \<le> (real h + real r / real u) * (1 + 1 / 2 ^ 53)"
    using add_mono [OF _ ru, of "real h" "real h * (1 + 1 / 2 ^ 53)"] by (simp only: distrib_right) simp
  then have "real a / real b \<le> real d / real u * (1 + 1 / 2 ^ 53) * (1 + 1 / 2 ^ 53)"
    using s mult_right_mono [of "real h + real p / real q" "(real h + real r / real u) * (1 + 1 / 2 ^ 53)" "1 + 1 / 2 ^ 53"]
    unfolding du by simp
  also have "\<dots> < real h + 1"
  proof -
    have "real d * (1 + 1 / 2 ^ 53) * (1 + 1 / 2 ^ 53) = real d + real d * (2 / 2 ^ 53 + 1 / 2 ^ 106)"
      by (simp add: algebra_simps flip: power_add)
    also have "real d * (2 / 2 ^ 53 + 1 / 2 ^ 106) \<le> 2 ^ 63 * (2 / 2 ^ 53 + 1 / 2 ^ 106)"
      using assms(2) by (intro mult_right_mono) simp_all
    also have "(2 :: real) ^ 63 * (2 / 2 ^ 53 + 1 / 2 ^ 106) < 3000" by simp
    finally have "real d * (1 + 1 / 2 ^ 53) * (1 + 1 / 2 ^ 53) < real d + 3000" by simp
    also have "real d + 3000 = real h * real u + real (r + 3000)" by (simp add: d)
    also have "real (r + 3000) \<le> real u" using assms(4) unfolding r_def by (simp only: of_nat_le_iff)
    also have "real h * real u + real u = (real h + 1) * real u" by (simp add: algebra_simps)
    finally show ?thesis using assms(1) by (simp add: field_simps)
  qed
  finally have "real a < real ((h + 1) * b)" using b by (simp add: field_simps)
  then have "a < (h + 1) * b" by (simp only: of_nat_less_iff)
  moreover have "h * b \<le> a"
  proof (cases "h * q + p = 0")
    case True
    then show ?thesis using q by simp
  next
    case False
    show ?thesis using float64_ge [OF a _ q, of h] False assms(3) by (simp add: h_def)
  qed
  ultimately have "a div b = h" by (intro div_between)
  with p a show ?thesis by (simp add: whole_units_def flip: h_def r_def)
qed

section \<open>Parsing\<close>

text \<open>
  \<open>strconv.ParseFloat(s, 64)\<close>. A finite result is a sign with a quotient; \<^const>\<open>None\<close> is a syntax error, or a number outside
  of the range.
\<close>

datatype go_float = NaN | Infinity bool | Finite bool nat nat

definition split_sign :: "string \<Rightarrow> bool \<times> string" where
  "split_sign s =
     (case s of c # r \<Rightarrow> if c = CHR ''-'' then (True, r) else if c = CHR ''+'' then (False, r) else (False, s) | [] \<Rightarrow> (False, s))"

definition special_float :: "string \<Rightarrow> go_float option" where
  "special_float s =
     (case split_sign s of (neg, t) \<Rightarrow>
        if ToLower t = ''inf'' \<or> ToLower t = ''infinity'' then Some (Infinity neg)
        else if ToLower s = ''nan'' then Some NaN else None)"

text \<open>Digits of the mantissa: whether there were any, their value, and how many follow the point.\<close>

definition hex_digit :: "char \<Rightarrow> bool" where
  "hex_digit c \<longleftrightarrow> 97 \<le> ord (lower_char c) \<and> ord (lower_char c) \<le> 102"

fun mantissa :: "bool \<Rightarrow> bool \<Rightarrow> bool \<Rightarrow> nat \<Rightarrow> nat \<Rightarrow> string \<Rightarrow> bool \<times> nat \<times> nat \<times> string" where
  "mantissa hex dot saw m places [] = (saw, m, places, [])"
| "mantissa hex dot saw m places (c # s) =
     (if c = CHR ''_'' then mantissa hex dot saw m places s
      else if c = CHR ''.'' then (if dot then (saw, m, places, c # s) else mantissa hex True saw m places s)
      else if is_digit c
        then mantissa hex dot True ((if hex then 16 else 10) * m + digit_val c) (if dot then places + 1 else places) s
      else if hex \<and> hex_digit c
        then mantissa hex dot True (16 * m + (ord (lower_char c) - 87)) (if dot then places + 1 else places) s
      else (saw, m, places, c # s))"

text \<open>Digits of the exponent; beyond 10000 they are skipped.\<close>

fun exponent_digits :: "nat \<Rightarrow> string \<Rightarrow> nat \<times> string" where
  "exponent_digits e [] = (e, [])"
| "exponent_digits e (c # s) =
     (if c = CHR ''_'' then exponent_digits e s
      else if is_digit c then exponent_digits (if e < 10000 then 10 * e + digit_val c else e) s
      else (e, c # s))"

definition float_scale :: "bool \<Rightarrow> string \<Rightarrow> (int \<times> string) option" where
  "float_scale hex s =
     (if s \<noteq> [] \<and> lower_char (hd s) = (if hex then CHR ''p'' else CHR ''e'')
      then (case split_sign (tl s) of (neg, t) \<Rightarrow>
        if t = [] \<or> \<not> is_digit (hd t) then None
        else (case exponent_digits 0 t of (e, r) \<Rightarrow> Some (if neg then - int e else int e, r)))
      else if hex then None else Some (0, s))"

text \<open>\<open>underscoreOK\<close>: an underscore stands between digits, or after a base prefix.\<close>

fun underscores_ok :: "bool \<Rightarrow> char \<Rightarrow> string \<Rightarrow> bool" where
  "underscores_ok hex saw [] \<longleftrightarrow> saw \<noteq> CHR ''_''"
| "underscores_ok hex saw (c # s) \<longleftrightarrow>
     (if is_digit c \<or> hex \<and> hex_digit c then underscores_ok hex CHR ''0'' s
      else if c = CHR ''_'' then saw = CHR ''0'' \<and> underscores_ok hex CHR ''_'' s
      else saw \<noteq> CHR ''_'' \<and> underscores_ok hex CHR ''!'' s)"

definition underscoreOK :: "string \<Rightarrow> bool" where
  "underscoreOK s =
     (case snd (split_sign s) of
        c # b # t \<Rightarrow>
          if c = CHR ''0'' \<and> lower_char b \<in> {CHR ''b'', CHR ''o'', CHR ''x''}
          then underscores_ok (lower_char b = CHR ''x'') CHR ''0'' t else underscores_ok False CHR ''^'' (c # b # t)
      | t \<Rightarrow> underscores_ok False CHR ''^'' t)"

definition base_prefix :: "string \<Rightarrow> bool \<times> string" where
  "base_prefix t =
     (if 2 < length t \<and> hd t = CHR ''0'' \<and> lower_char (t ! 1) = CHR ''x'' then (True, drop 2 t) else (False, t))"

text \<open>\<open>readFloat\<close>: the sign and the exact quotient.\<close>

definition read_float :: "string \<Rightarrow> (bool \<times> nat \<times> nat) option" where
  "read_float s =
     (let (neg, t) = split_sign s; (hex, u) = base_prefix t; (saw, m, places, r) = mantissa hex False False 0 0 u in
      if \<not> saw then None
      else (case float_scale hex r of None \<Rightarrow> None
      | Some (e, rest) \<Rightarrow>
          if rest \<noteq> [] \<or> CHR ''_'' \<in> set s \<and> \<not> underscoreOK s then None
          else (let k = e - (if hex then 4 else 1) * int places; base = (if hex then 2 else 10) in
                Some (neg, m * base ^ nat k, base ^ nat (- k)))))"

definition ParseFloat :: "string \<Rightarrow> go_float option" where
  "ParseFloat s =
     (case special_float s of Some f \<Rightarrow> Some f
      | None \<Rightarrow>
          (case read_float s of None \<Rightarrow> None
           | Some (neg, p, q) \<Rightarrow>
               (case float64 p q of (a, b) \<Rightarrow> if 2 ^ 1024 * b \<le> a then None else Some (Finite neg a b))))"

text \<open>A decimal number with two digits after the point, as the kernel prints times.\<close>

lemma digit_not_special: "is_digit c \<Longrightarrow> c \<noteq> CHR ''_'' \<and> c \<noteq> CHR ''.'' \<and> c \<noteq> CHR ''-'' \<and> c \<noteq> CHR ''+''"
  by (auto simp: is_digit_def)

lemma mantissa_digits:
  assumes "read_digits m ds = Some n" "ds \<noteq> []"
  shows "mantissa False dot saw m places (ds @ r) = mantissa False dot True n (if dot then places + length ds else places) r"
  using assms
proof (induction ds arbitrary: m saw places)
  case (Cons c ds)
  then have c: "is_digit c" "read_digits (10 * m + digit_val c) ds = Some n" by (auto split: if_splits)
  show ?case
  proof (cases "ds = []")
    case True
    with c digit_not_special [OF c(1)] show ?thesis by simp
  next
    case False
    with c digit_not_special [OF c(1)] Cons.IH [OF c(2) False] show ?thesis by simp
  qed
qed simp

definition cents_text :: "nat \<Rightarrow> nat \<Rightarrow> string" where
  "cents_text n cc = show_nat n @ [CHR ''.'', digit_char (cc div 10), digit_char (cc mod 10)]"

lemma cents_text_hd:
  obtains c r where "cents_text n cc = c # r" "is_digit c"
  using show_nat_hd_digit [of n] by (cases "show_nat n") (auto simp: cents_text_def)

lemma lower_digit: "is_digit c \<Longrightarrow> lower_char c = c"
  by (simp add: lower_char_def is_digit_def is_upper_def)

lemma cents_text_plain:
  "split_sign (cents_text n cc) = (False, cents_text n cc)" "special_float (cents_text n cc) = None"
proof -
  obtain c r where c: "cents_text n cc = c # r" "is_digit c" by (rule cents_text_hd)
  show "split_sign (cents_text n cc) = (False, cents_text n cc)" using c digit_not_special [OF c(2)] by (simp add: split_sign_def)
  then show "special_float (cents_text n cc) = None"
    using c by (simp add: special_float_def ToLower_def lower_digit) (auto simp: is_digit_def)
qed

lemma cents_text_chars: "cc < 100 \<Longrightarrow> x \<in> set (cents_text n cc) \<Longrightarrow> is_digit x \<or> x = CHR ''.''"
  using show_nat_digits [of n] by (auto simp: cents_text_def)

lemma read_float_cents:
  assumes "cc < 100"
  shows "read_float (cents_text n cc) = Some (False, 100 * n + cc, 100)"
proof -
  have x: "\<not> (lower_char (cents_text n cc ! 1) = CHR ''x'' \<and> 2 < length (cents_text n cc))"
  proof
    assume l: "lower_char (cents_text n cc ! 1) = CHR ''x'' \<and> 2 < length (cents_text n cc)"
    then have "is_digit (cents_text n cc ! 1) \<or> cents_text n cc ! 1 = CHR ''.''"
      using cents_text_chars [OF assms, of "cents_text n cc ! 1" n] by simp
    with l show False by (auto simp: lower_digit lower_char_def is_digit_def is_upper_def)
  qed
  then have "base_prefix (cents_text n cc) = (False, cents_text n cc)" by (auto simp: base_prefix_def)
  moreover have "CHR ''_'' \<notin> set (cents_text n cc)" using cents_text_chars [OF assms] by (force simp: is_digit_def)
  moreover have "mantissa False False False 0 0 (cents_text n cc) = (True, 100 * n + cc, 2, [])"
  proof -
    have "read_digits n [digit_char (cc div 10), digit_char (cc mod 10)] = Some (100 * n + cc)"
      using assms by simp
    from mantissa_digits [OF this, of True True 0 "[]"]
    have "mantissa False True True n 0 [digit_char (cc div 10), digit_char (cc mod 10)] = (True, 100 * n + cc, 2, [])" by simp
    then show ?thesis
      unfolding cents_text_def using mantissa_digits [OF read_digits_show_nat, of n False False 0] by simp
  qed
  ultimately show ?thesis by (simp add: read_float_def cents_text_plain float_scale_def)
qed

lemma ParseFloat_cents:
  assumes "n < 2 ^ 32" "cc < 100" "float64 (100 * n + cc) 100 = (a, b)"
  shows "ParseFloat (cents_text n cc) = Some (Finite False a b)"
proof -
  have "0 < b" using float64_pos [of "100 * n + cc" 100] assms(3) by simp
  have "real a / real b \<le> real (100 * n + cc) / real 100 * (1 + 1 / 2 ^ 53)" using float64_real [OF assms(3)] by (intro rel_upper) simp
  also have "\<dots> \<le> 2 ^ 33 * 2"
  proof (rule mult_mono)
    have "real (100 * n + cc) \<le> real (100 * 2 ^ 32)" using assms(1,2) by (intro of_nat_mono) simp
    then show "real (100 * n + cc) / real 100 \<le> 2 ^ 33" by simp
  qed simp_all
  also have "\<dots> < (2 :: real) ^ 1024" by simp
  finally have "real a / real b < 2 ^ 1024" .
  then have "real a < real (2 ^ 1024 * b)" using \<open>0 < b\<close> by (simp only: pos_divide_less_eq of_nat_0_less_iff of_nat_mult of_nat_power of_nat_numeral)
  then have "a < 2 ^ 1024 * b" by (simp only: of_nat_less_iff)
  then show ?thesis
    unfolding ParseFloat_def cents_text_plain(2) read_float_cents [OF assms(2)] by (simp only: option.case prod.case assms(3)) (simp add: not_le)
qed

end
