(* ===== verification/System_Info.thy ===== *)
theory System_Info
  imports Json Errors Go_Time Go_Float Paths "HOL-Library.Word"
begin

text \<open>
  \<open>internal/system/system.go\<close>: the host description served at \<open>/api/system\<close>, the rendering of an uptime,
  and the permission helpers. The files under \<open>/proc\<close> and \<open>/etc\<close> are inputs; sizes are uint64 and
  wrap as in the code, and the uptime goes through float64.
\<close>

unbundle bit_operations_syntax

section \<open>Lines of a file\<close>

text \<open>
  \<open>bufio.Scanner\<close> with its default split: a trailing carriage return goes, an unterminated last line
  counts, and a line of 65536 bytes or more ends the scan with an error (the flag).
\<close>

definition drop_cr :: "string \<Rightarrow> string" where
  "drop_cr s = (if s \<noteq> [] \<and> ord (last s) = 13 then butlast s else s)"

function scan_lines :: "string \<Rightarrow> string list \<times> bool" where
  "scan_lines [] = ([], False)"
| "scan_lines (c # s) =
     (let line = takeWhile (\<lambda>d. ord d \<noteq> 10) (c # s); rest = drop (Suc (length line)) (c # s) in
      if length line \<ge> 65536 then ([], True)
      else (case scan_lines rest of (ls, err) \<Rightarrow> (drop_cr line # ls, err)))"
  by pat_completeness auto
termination
  by (relation "measure length") auto

definition Lines :: "string \<Rightarrow> string list" where
  "Lines s = fst (scan_lines s)"

section \<open>The host\<close>

text \<open>
  \<open>h_out_of_range\<close> is what the conversion of a float64 outside of int64 gives, which the language leaves to the platform.
\<close>

record host =
  h_GOOS :: string
  h_GOARCH :: string
  h_NumCPU :: int
  h_out_of_range :: duration
  h_files :: "string \<rightharpoonup> bytes"
  h_statfs :: "string \<rightharpoonup> 64 word \<times> int \<times> 64 word"

record Info =
  in_OS :: string
  in_Arch :: string
  in_Distribution :: string
  in_Kernel :: string
  in_Uptime :: duration
  in_NumCPU :: int
  in_CPUModel :: string
  in_MemoryTotal :: "64 word"
  in_MemoryAvailable :: "64 word"
  in_DiskTotal :: "64 word"
  in_DiskAvailable :: "64 word"

fun cpu_model_lines :: "string list \<Rightarrow> string" where
  "cpu_model_lines [] = []"
| "cpu_model_lines (l # ls) =
     (case Cut l CHR '':'' of
        Some (key, val) \<Rightarrow>
          if TrimSpace key = ''model name'' \<or> TrimSpace key = ''Hardware'' then TrimSpace val
          else cpu_model_lines ls
      | None \<Rightarrow> cpu_model_lines ls)"

definition cpuModel :: "host \<Rightarrow> string" where
  "cpuModel h = (case h_files h ''/proc/cpuinfo'' of None \<Rightarrow> [] | Some f \<Rightarrow> cpu_model_lines (Lines f))"

definition mem_line :: "string \<Rightarrow> 64 word \<times> 64 word \<Rightarrow> 64 word \<times> 64 word" where
  "mem_line l acc =
     (case Fields l of
        name # val # _ \<Rightarrow>
          (case ParseUint64 val of None \<Rightarrow> acc
           | Some n \<Rightarrow>
               (let key = TrimSuffix name '':'' in
                if key = ''MemTotal'' then (of_nat n * 1024, snd acc)
                else if key = ''MemAvailable'' then (fst acc, of_nat n * 1024)
                else acc))
      | _ \<Rightarrow> acc)"

definition memory :: "host \<Rightarrow> 64 word \<times> 64 word" where
  "memory h = (case h_files h ''/proc/meminfo'' of None \<Rightarrow> (0, 0) | Some f \<Rightarrow> fold mem_line (Lines f) (0, 0))"

definition disk :: "host \<Rightarrow> string \<Rightarrow> 64 word \<times> 64 word" where
  "disk h path = (case h_statfs h path of None \<Rightarrow> (0, 0)
     | Some (blocks, bsize, bavail) \<Rightarrow> (blocks * word_of_int bsize, bavail * word_of_int bsize))"

definition IsSupportedOS :: "host \<Rightarrow> bool" where
  "IsSupportedOS h \<longleftrightarrow> h_GOOS h = ''linux''"

definition quote_char :: "char \<Rightarrow> bool" where
  "quote_char c \<longleftrightarrow> ord c = 34 \<or> ord c = 39"

definition Trim_quotes :: "string \<Rightarrow> string" where
  "Trim_quotes s = rev (dropWhile quote_char (rev (dropWhile quote_char s)))"

definition os_release_line :: "string \<Rightarrow> string \<times> string \<Rightarrow> string \<times> string" where
  "os_release_line l acc =
     (case Cut l CHR ''='' of None \<Rightarrow> acc
      | Some (key, val) \<Rightarrow>
          (let v = Trim_quotes (TrimSpace val) in
           if TrimSpace key = ''PRETTY_NAME'' then (fst acc, v)
           else if TrimSpace key = ''NAME'' then (v, snd acc)
           else acc))"

definition distribution :: "host \<Rightarrow> string" where
  "distribution h =
     (case h_files h ''/etc/os-release'' of None \<Rightarrow> []
      | Some f \<Rightarrow>
          (case scan_lines f of (ls, err) \<Rightarrow>
             (case fold os_release_line ls ([], []) of (name, pretty) \<Rightarrow>
                if err then [] else if pretty \<noteq> [] then pretty else name)))"

definition kernelRelease :: "host \<Rightarrow> string" where
  "kernelRelease h =
     (case h_files h ''/proc/sys/kernel/osrelease'' of None \<Rightarrow> [] | Some f \<Rightarrow> TrimSpace f)"

definition seconds_field :: "bytes \<Rightarrow> string" where
  "seconds_field f = (case Cut (TrimSpace f) CHR '' '' of None \<Rightarrow> TrimSpace f | Some (a, _) \<Rightarrow> a)"

definition uptime :: "host \<Rightarrow> duration" where
  "uptime h =
     (case h_files h ''/proc/uptime'' of None \<Rightarrow> 0
      | Some f \<Rightarrow>
          (case ParseFloat (seconds_field f) of
             None \<Rightarrow> 0
           | Some NaN \<Rightarrow> h_out_of_range h
           | Some (Infinity neg) \<Rightarrow> if neg then 0 else h_out_of_range h
           | Some (Finite neg a b) \<Rightarrow>
               if neg \<and> 0 < a then 0
               else (case float64 (a * 10 ^ 9) b of (p, q) \<Rightarrow>
                       if int (p div q) \<le> max_int64 then int (p div q) else h_out_of_range h)))"

definition Collect :: "host \<Rightarrow> Info" where
  "Collect h =
     \<lparr>in_OS = h_GOOS h, in_Arch = h_GOARCH h, in_Distribution = distribution h,
      in_Kernel = kernelRelease h, in_Uptime = uptime h, in_NumCPU = h_NumCPU h,
      in_CPUModel = cpuModel h, in_MemoryTotal = fst (memory h), in_MemoryAvailable = snd (memory h),
      in_DiskTotal = fst (disk h ''/''), in_DiskAvailable = snd (disk h ''/'')\<rparr>"

text \<open>The struct has no JSON tags, so the encoder uses the field names.\<close>

definition JUint :: "64 word \<Rightarrow> json" where
  "JUint w = JNum (show_nat (unat w))"

definition Info_json :: "Info \<Rightarrow> json" where
  "Info_json i = JObj
     [(''OS'', JStr (in_OS i)), (''Arch'', JStr (in_Arch i)), (''Distribution'', JStr (in_Distribution i)),
      (''Kernel'', JStr (in_Kernel i)), (''Uptime'', JInt (in_Uptime i)), (''NumCPU'', JInt (in_NumCPU i)),
      (''CPUModel'', JStr (in_CPUModel i)), (''MemoryTotal'', JUint (in_MemoryTotal i)),
      (''MemoryAvailable'', JUint (in_MemoryAvailable i)), (''DiskTotal'', JUint (in_DiskTotal i)),
      (''DiskAvailable'', JUint (in_DiskAvailable i))]"

section \<open>Uptime\<close>

definition FormatUptime :: "duration \<Rightarrow> string" where
  "FormatUptime d =
     (if d \<le> 0 then ''unknown''
      else (let hrs = whole_units (nat Hour) (nat d); days = hrs div 24; hours = hrs mod 24;
                minutes = whole_units (nat Minute) (nat d) mod 60 in
        if days > 0 then Itoa (int days) @ ''d '' @ Itoa (int hours) @ ''h '' @ Itoa (int minutes) @ ''m''
        else if hours > 0 then Itoa (int hours) @ ''h '' @ Itoa (int minutes) @ ''m''
        else if minutes = 0 then Itoa (int (whole_units (nat Second) (nat d))) @ ''s''
        else Itoa (int minutes) @ ''m''))"

section \<open>Permissions\<close>

text \<open>The octal constants of the code in hexadecimal: 0750, 0640, 0600 and the mask 0777.\<close>

type_synonym FileMode = "32 word"

definition DirMode :: FileMode where "DirMode = 0x1E8"
definition ConfigMode :: FileMode where "ConfigMode = 0x1A0"
definition PrivateFileMode :: FileMode where "PrivateFileMode = 0x180"

definition Perm :: "FileMode \<Rightarrow> FileMode" where
  "Perm m = m AND 0x1FF"

definition IsWorldAccessible :: "FileMode \<Rightarrow> bool" where
  "IsWorldAccessible m \<longleftrightarrow> Perm m AND 0x7 \<noteq> 0"

definition IsGroupWritable :: "FileMode \<Rightarrow> bool" where
  "IsGroupWritable m \<longleftrightarrow> Perm m AND 0x10 \<noteq> 0"

text \<open>The verb \<open>%#o\<close>.\<close>

function show_oct :: "nat \<Rightarrow> string" where
  "show_oct n = (if n < 8 then [digit_char n] else show_oct (n div 8) @ [digit_char (n mod 8)])"
  by pat_completeness auto
termination by (relation "measure id") auto

declare show_oct.simps [simp del]

definition octal :: "FileMode \<Rightarrow> string" where
  "octal m = (if m = 0 then ''0'' else CHR ''0'' # show_oct (unat m))"

record stat =
  st_Mode :: FileMode
  st_IsDir :: bool

type_synonym filesystem = "string \<rightharpoonup> stat"

datatype dir_op = OpMkdirAll | OpStat | OpChmod

type_synonym dir_faults = "dir_op \<Rightarrow> go_error option"

definition not_a_directory :: go_error where
  "not_a_directory = StdErr OtherOS ''not a directory''"

text \<open>\<open>os.MkdirAll\<close> on the leaf: an existing directory is left as it is, a new one gets the mode less the umask.\<close>

definition MkdirAll :: "go_error option \<Rightarrow> FileMode \<Rightarrow> string \<Rightarrow> FileMode \<Rightarrow> filesystem \<Rightarrow> go_error + filesystem" where
  "MkdirAll fault umask dir mode fs =
     (case fault of Some e \<Rightarrow> Inl e
      | None \<Rightarrow>
          (case fs dir of
             None \<Rightarrow> Inr (fs(dir \<mapsto> \<lparr>st_Mode = Perm mode AND NOT umask, st_IsDir = True\<rparr>))
           | Some st \<Rightarrow> if st_IsDir st then Inr fs else Inl not_a_directory))"

definition Stat :: "go_error option \<Rightarrow> string \<Rightarrow> filesystem \<Rightarrow> go_error + stat" where
  "Stat fault path fs =
     (case fault of Some e \<Rightarrow> Inl e
      | None \<Rightarrow> (case fs path of None \<Rightarrow> Inl (StdErr NotExist ''no such file or directory'') | Some st \<Rightarrow> Inr st))"

definition EnsureDir ::
  "dir_faults \<Rightarrow> FileMode \<Rightarrow> string \<Rightarrow> FileMode \<Rightarrow> filesystem \<Rightarrow> filesystem \<times> go_error option" where
  "EnsureDir flt umask dir mode fs =
     (if dir = [] then (fs, Some (New KindValidation ''system.EnsureDir'' ''directory path is empty''))
      else if \<not> IsAbs dir
      then (fs, Some (New KindValidation ''system.EnsureDir'' (''directory path must be absolute, got '' @ Quote dir)))
      else (case MkdirAll (flt OpMkdirAll) umask dir mode fs of
        Inl e \<Rightarrow> (fs, Some (wrap_err KindPermission ''system.EnsureDir'' (''failed to create directory '' @ dir) e))
      | Inr fs1 \<Rightarrow>
          (case Stat (flt OpStat) dir fs1 of
             Inl e \<Rightarrow> (fs1, Some (wrap_err KindPermission ''system.EnsureDir'' (''failed to inspect directory '' @ dir) e))
           | Inr st \<Rightarrow>
               if \<not> st_IsDir st
               then (fs1, Some (New KindValidation ''system.EnsureDir'' (''path '' @ dir @ '' exists but is not a directory'')))
               else if Perm (st_Mode st) \<noteq> Perm mode
               then (case flt OpChmod of
                   Some e \<Rightarrow> (fs1, Some (wrap_err KindPermission ''system.EnsureDir''
                     (''failed to set permissions '' @ octal (Perm mode) @ '' on directory '' @ dir) e))
                 | None \<Rightarrow> (fs1(dir \<mapsto> st\<lparr>st_Mode := mode\<rparr>), None))
               else (fs1, None))))"

definition CheckFilePermissions :: "go_error option \<Rightarrow> string \<Rightarrow> filesystem \<Rightarrow> bool \<times> go_error option" where
  "CheckFilePermissions fault path fs =
     (case Stat fault path fs of
        Inl e \<Rightarrow>
          (if IsNotExist e then (False, None)
           else (False, Some (wrap_err KindPermission ''system.CheckFilePermissions'' (''failed to inspect '' @ path) e)))
      | Inr st \<Rightarrow>
          (if IsWorldAccessible (st_Mode st)
           then (True, Some (New KindPermission ''system.CheckFilePermissions''
             (path @ '' is accessible to all users (permissions '' @ octal (Perm (st_Mode st))
              @ ''); tighten it to '' @ octal (Perm PrivateFileMode))))
           else (True, None)))"

section \<open>Lemmas\<close>

lemma Perm_idem [simp]: "Perm (Perm m) = Perm m"
  by (simp add: Perm_def ac_simps)

lemma masks: "(0x7 :: 32 word) = mask 3" "(0x1FF :: 32 word) = mask 9"
  by (simp_all add: mask_eq_exp_minus_1)

lemma IsWorldAccessible_bits: "IsWorldAccessible m \<longleftrightarrow> bit m 0 \<or> bit m 1 \<or> bit m 2"
proof -
  have three: "n < 3 \<longleftrightarrow> n = 0 \<or> n = 1 \<or> n = 2" for n :: nat by auto
  have "IsWorldAccessible m \<longleftrightarrow> (\<exists>n < 32. n < 9 \<and> bit m n \<and> n < 3)"
    by (auto simp: IsWorldAccessible_def Perm_def masks bit_eq_iff bit_and_iff bit_mask_iff)
  also have "\<dots> \<longleftrightarrow> (\<exists>n. bit m n \<and> n < 3)"
    by (rule iffI) (blast, use order_less_trans [of _ 3 "9 :: nat"] order_less_trans [of _ 3 "32 :: nat"] in force)
  finally have "IsWorldAccessible m \<longleftrightarrow> (\<exists>n. bit m n \<and> n < 3)" .
  then show ?thesis unfolding three by auto
qed

lemma EnsureDir_only_dir: "x \<noteq> dir \<Longrightarrow> fst (EnsureDir flt umask dir mode fs) x = fs x"
  by (auto simp: EnsureDir_def MkdirAll_def split: sum.splits option.splits if_splits)

lemma Info_json_wf [simp]: "wf_json (Info_json i)"
proof -
  have "wf_num (show_nat n)" for n
    using wf_num_Itoa [of "int n"] by (simp add: Itoa_def)
  then show ?thesis by (simp add: Info_json_def JUint_def)
qed

section \<open>Properties\<close>

text \<open>
  EnsureDir repairs permissions: where the path is absolute, no call fails and nothing but a directory is in
  the way, afterwards the directory exists with exactly the permission bits asked for, whatever the
  umask and the earlier mode were, and no other path changed.
\<close>

theorem ensure_dir_enforces_mode:
  assumes "dir \<noteq> []" "IsAbs dir" "\<And>op. flt op = None" "\<And>st. fs dir = Some st \<Longrightarrow> st_IsDir st"
  shows "\<exists>st. EnsureDir flt umask dir mode fs = (fs(dir \<mapsto> st), None) \<and> st_IsDir st
    \<and> Perm (st_Mode st) = Perm mode"
proof (cases "fs dir")
  case None
  let ?new = "\<lparr>st_Mode = Perm mode AND NOT umask, st_IsDir = True\<rparr>"
  show ?thesis
  proof (cases "Perm (st_Mode ?new) = Perm mode")
    case True
    with None assms show ?thesis
      by (intro exI [of _ ?new]) (simp add: EnsureDir_def MkdirAll_def Stat_def)
  next
    case False
    with None assms show ?thesis
      by (intro exI [of _ "?new\<lparr>st_Mode := mode\<rparr>"]) (simp add: EnsureDir_def MkdirAll_def Stat_def)
  qed
next
  case (Some st)
  show ?thesis
  proof (cases "Perm (st_Mode st) = Perm mode")
    case True
    with Some assms show ?thesis
      by (intro exI [of _ st]) (simp add: EnsureDir_def MkdirAll_def Stat_def map_upd_triv)
  next
    case False
    with Some assms show ?thesis
      by (intro exI [of _ "st\<lparr>st_Mode := mode\<rparr>"]) (simp add: EnsureDir_def MkdirAll_def Stat_def)
  qed
qed

theorem ensure_dir_enforces_mode_witness:
  "\<exists>st. EnsureDir (\<lambda>_. None) 0x12 ''/var/lib/infrapilot'' DirMode [''/var/lib/infrapilot'' \<mapsto>
      \<lparr>st_Mode = 0x1FF, st_IsDir = True\<rparr>] = ([''/var/lib/infrapilot'' \<mapsto> st], None) \<and> Perm (st_Mode st) = Perm DirMode"
proof -
  have "IsAbs ''/var/lib/infrapilot''" by code_simp
  from ensure_dir_enforces_mode [of "''/var/lib/infrapilot''" "\<lambda>_. None"
      "[''/var/lib/infrapilot'' \<mapsto> \<lparr>st_Mode = 0x1FF, st_IsDir = True\<rparr>]" "0x12" DirMode, OF _ this]
  show ?thesis by auto
qed

text \<open>
  A file passes the permission check exactly when it is missing, or present and no permission bit for
  others is set; a file that can be inspected and fails it is reported as present.
\<close>

theorem permission_check_decides:
  "(snd (CheckFilePermissions None path fs) = None \<longleftrightarrow>
      (case fs path of None \<Rightarrow> True
       | Some st \<Rightarrow> \<not> bit (st_Mode st) 0 \<and> \<not> bit (st_Mode st) 1 \<and> \<not> bit (st_Mode st) 2))
   \<and> fst (CheckFilePermissions None path fs) = (fs path \<noteq> None)"
  by (auto simp: CheckFilePermissions_def Stat_def IsWorldAccessible_bits split: option.splits)

end
