(* ===== verification/Web_Server.thy ===== *)
theory Web_Server
  imports Bridge System_Info
begin

text \<open>
  \<open>internal/web/server.go\<close>: the panel's handlers, its sessions and its dispatch. Each request brings the
  clock readings, random bytes and outside answers its handler meets; a handler maps the server state
  to the next one and a response, or panics.
\<close>

section \<open>State and surroundings\<close>

record server =
  sv_auth :: auth_state
  sv_sessions :: "string \<rightharpoonup> instant"

text \<open>
  The surroundings of one request: the two clock readings of the longest handler, the random reads in
  order, the SQL faults, the answer of the Agent's socket, what Collect, CollectStatus and Services
  return, and the embedded files.
\<close>

record env =
  ev_now :: instant
  ev_later :: instant
  ev_rand :: "nat \<Rightarrow> bytes option"
  ev_sql :: sql_faults
  ev_bridge :: "request \<Rightarrow> go_error + response"
  ev_host :: host
  ev_status :: json
  ev_services :: "go_error + json"
  ev_static :: "string \<Rightarrow> response"
  ev_index :: "bytes option"

type_synonym handler = "crypto \<Rightarrow> env \<Rightarrow> request \<Rightarrow> server \<Rightarrow> server \<times> response call"

definition JoinHostPort :: "string \<Rightarrow> string \<Rightarrow> string" where
  "JoinHostPort hst port =
     (if CHR '':'' \<in> set hst \<or> CHR ''%'' \<in> set hst then ''['' @ hst @ '']:'' @ port else hst @ '':'' @ port)"

definition server_addr :: "string \<Rightarrow> string" where
  "server_addr bind_address =
     JoinHostPort (if bind_address = [] then ''127.0.0.1'' else bind_address) ''8090''"

definition New_server :: "database \<Rightarrow> server" where
  "New_server db = \<lparr>sv_auth = NewAuthenticator db, sv_sessions = Map.empty\<rparr>"

section \<open>Sessions\<close>

definition session_lifetime :: duration where "session_lifetime = 15 * Minute"

definition put_session :: "string \<Rightarrow> instant \<Rightarrow> server \<Rightarrow> server" where
  "put_session tok expiry sv = sv\<lparr>sv_sessions := (sv_sessions sv)(tok \<mapsto> expiry)\<rparr>"

definition delete_session :: "string \<Rightarrow> server \<Rightarrow> server" where
  "delete_session tok sv = sv\<lparr>sv_sessions := (sv_sessions sv)(tok := None)\<rparr>"

definition bearer :: "request \<Rightarrow> string" where
  "bearer r = TrimSpace (TrimPrefix (Header_Get ''Authorization'' (rq_Header r)) ''Bearer '')"

definition protected :: "handler \<Rightarrow> handler" where
  "protected nxt C env r sv =
     (let token = bearer r; expiry = sv_sessions sv token;
          expired = (case expiry of Some t \<Rightarrow> t < ev_now env | None \<Rightarrow> False);
          sv' = (if expired then delete_session token sv else sv) in
      if token = [] \<or> expiry = None \<or> expired
      then (sv', Return (http_Error ''authentication required'' 401))
      else nxt C env r sv')"

section \<open>Handlers\<close>

definition bridgeRequest :: "env \<Rightarrow> string \<Rightarrow> string \<Rightarrow> bytes \<Rightarrow> go_error + response" where
  "bridgeRequest env meth path body =
     ev_bridge env \<lparr>rq_Method = meth, rq_Path = path,
       rq_Header = [(''Content-Type'', ''application/json'')], rq_Body = body\<rparr>"

definition unavailable :: response where
  "unavailable = writeJSON (JObj [(''available'', JBool False), (''reason'', JStr ''identity unavailable'')])"

text \<open>
  The first branch reads \<open>err.Error()\<close> also when the error is nil and only the status is not 200: a nil
  dereference, which is the panic here.
\<close>

definition discover :: handler where
  "discover C env r sv =
     (if rq_Method r \<noteq> ''GET'' then (sv, Return (http_Error ''method not allowed'' 405))
      else (case bridgeRequest env ''GET'' ''/identity'' [] of
        Inl _ \<Rightarrow> (sv, Return unavailable)
      | Inr resp \<Rightarrow>
          if rs_Status resp \<noteq> 200
          then (sv, Panic ''invalid memory address or nil pointer dereference'')
          else (case Option.bind (parse_first (rs_Body resp)) (decode_field ''device_id'') of
            None \<Rightarrow> (sv, Return unavailable)
          | Some d \<Rightarrow>
              if d = [] then (sv, Return unavailable)
              else (sv, Return (writeJSON (JObj [(''available'', JBool True), (''device_id'', JStr d)]))))))"

text \<open>The status of the bridge is passed on as it is: one below 100 makes \<open>WriteHeader\<close> panic.\<close>

definition sign :: handler where
  "sign C env r sv =
     (if rq_Method r \<noteq> ''POST'' then (sv, Return (http_Error ''method not allowed'' 405))
      else (case ReadAll_limited (rq_Body r) of
        None \<Rightarrow> (sv, Return (http_Error ''invalid request'' 400))
      | Some b \<Rightarrow>
          (case bridgeRequest env ''POST'' ''/sign'' b of
             Inl _ \<Rightarrow> (sv, Return (http_Error ''agent bridge unavailable'' 503))
           | Inr resp \<Rightarrow>
               if \<not> WriteHeader_ok (rs_Status resp)
               then (sv, Panic (''invalid WriteHeader code '' @ show_nat (rs_Status resp)))
               else (sv, Return (written (rs_Status resp) [(''Content-Type'', ''application/json'')] (rs_Body resp))))))"

definition diagnostics :: handler where
  "diagnostics C env r sv =
     (let connected = (case bridgeRequest env ''GET'' ''/identity'' [] of
            Inl _ \<Rightarrow> None | Inr resp \<Rightarrow> if rs_Status resp = 200 then Some resp else None);
          found = (case connected of None \<Rightarrow> False
            | Some resp \<Rightarrow>
                (case Option.bind (parse_first (rs_Body resp)) (decode_field ''device_id'') of
                   None \<Rightarrow> False | Some d \<Rightarrow> d \<noteq> []))
      in (sv, Return (writeJSON (JObj
           [(''api'', JStr ''connected''),
            (''bridge'', JStr (if connected = None then ''unavailable'' else ''connected'')),
            (''identity'', JStr (if found then ''discovered'' else ''unavailable''))]))))"

definition challenge :: handler where
  "challenge C env r sv =
     (if rq_Method r \<noteq> ''POST'' then (sv, Return (http_Error ''method not allowed'' 405))
      else (case Option.bind (Decode_limited (rq_Body r)) (decode_field ''device_id'') of
        None \<Rightarrow> (sv, Return (http_Error ''invalid request'' 400))
      | Some d \<Rightarrow>
          if d = [] then (sv, Return (http_Error ''invalid request'' 400))
          else (case Challenge (ev_sql env) d (ev_rand env 0) (ev_rand env 1) (ev_now env) (sv_auth sv) of
            (au, Inl _) \<Rightarrow> (sv\<lparr>sv_auth := au\<rparr>, Return (http_Error ''authentication unavailable'' 403))
          | (au, Inr (cid, val)) \<Rightarrow>
              (sv\<lparr>sv_auth := au\<rparr>, Return (writeJSON (JObj
                [(''challenge'', JStr (EncodeToString val)), (''challenge_id'', JStr cid)]))))))"

text \<open>The two fields of a verification, challenge id and signature.\<close>

definition verify_fields :: "bytes \<Rightarrow> (string \<times> string) option" where
  "verify_fields body =
     Option.bind (Decode_limited body) (\<lambda>v.
     Option.bind (decode_field ''challenge_id'' v) (\<lambda>cid.
     map_option (Pair cid) (decode_field ''signature'' v)))"

text \<open>The challenge is not touched unless the request is well-formed; a failed random read comes after it is spent.\<close>

definition verify :: handler where
  "verify C env r sv =
     (if rq_Method r \<noteq> ''POST'' then (sv, Return (http_Error ''method not allowed'' 405))
      else (case verify_fields (rq_Body r) of
        None \<Rightarrow> (sv, Return (http_Error ''invalid request'' 400))
      | Some (cid, sigtext) \<Rightarrow>
          (case DecodeString sigtext of
             None \<Rightarrow> (sv, Return (http_Error ''authentication failed'' 401))
           | Some sig \<Rightarrow>
               if cid = [] then (sv, Return (http_Error ''authentication failed'' 401))
               else (case Verify C (ev_sql env) cid sig (ev_now env) (sv_auth sv) of
                 (au, Panic m) \<Rightarrow> (sv\<lparr>sv_auth := au\<rparr>, Panic m)
               | (au, Return (Some _)) \<Rightarrow> (sv\<lparr>sv_auth := au\<rparr>, Return (http_Error ''authentication failed'' 401))
               | (au, Return None) \<Rightarrow>
                   (case ev_rand env 0 of
                      None \<Rightarrow> (sv\<lparr>sv_auth := au\<rparr>, Return (http_Error ''authentication unavailable'' 500))
                    | Some b \<Rightarrow>
                        (let token = EncodeToString b in
                         (put_session token (ev_later env + session_lifetime) (sv\<lparr>sv_auth := au\<rparr>),
                          Return (writeJSON (JObj [(''session'', JStr token)])))))))))"

definition logout :: handler where
  "logout C env r sv =
     (if rq_Method r \<noteq> ''POST'' then (sv, Return (http_Error ''method not allowed'' 405))
      else (delete_session (bearer r) sv, Return \<lparr>rs_Status = 204, rs_Header = [], rs_Body = []\<rparr>))"

definition status_handler :: handler where
  "status_handler C env r sv = (sv, Return (writeJSON (ev_status env)))"

definition system_handler :: handler where
  "system_handler C env r sv = (sv, Return (writeJSON (Info_json (Collect (ev_host env)))))"

definition services_handler :: handler where
  "services_handler C env r sv =
     (sv, Return (case ev_services env of Inl _ \<Rightarrow> http_Error ''service inspection failed'' 500
                  | Inr items \<Rightarrow> writeJSON items))"

definition index_handler :: handler where
  "index_handler C env r sv =
     (sv, Return (if rq_Path r \<noteq> ''/'' then NotFound
       else (case ev_index env of None \<Rightarrow> http_Error ''panel unavailable'' 500
             | Some data \<Rightarrow> \<lparr>rs_Status = 200, rs_Header = [(''Content-Type'', ''text/html; charset=utf-8'')],
                             rs_Body = data\<rparr>)))"

definition route :: "string \<Rightarrow> handler" where
  "route path =
     (if HasPrefix path ''/assets/'' then (\<lambda>C env r sv. (sv, Return (ev_static env (TrimPrefix path ''/assets/''))))
      else if path = ''/assets'' then (\<lambda>C env r sv. (sv, Return (redirect ''/assets/'')))
      else if path = ''/api/auth/challenge'' then challenge
      else if path = ''/api/auth/discover'' then discover
      else if path = ''/api/auth/sign'' then sign
      else if path = ''/api/diagnostics'' then diagnostics
      else if path = ''/api/auth/verify'' then verify
      else if path = ''/api/auth/logout'' then logout
      else if path = ''/api/status'' then protected status_handler
      else if path = ''/api/system'' then protected system_handler
      else if path = ''/api/services'' then protected services_handler
      else index_handler)"

definition handle :: handler where
  "handle C env r sv =
     (if redirected r then (sv, Return (redirect (cleanPath (rq_Path r))))
      else route (rq_Path r) C env r sv)"

section \<open>What each handler changes\<close>

interpretation session_store: kv_store sv_sessions put_session delete_session
  by unfold_locales (simp_all add: put_session_def delete_session_def)

lemma session_simps [simp]:
  "sv_auth (put_session t e sv) = sv_auth sv" "sv_auth (delete_session t sv) = sv_auth sv"
  "sv_sessions (put_session t e sv) = (sv_sessions sv)(t \<mapsto> e)"
  "sv_sessions (delete_session t sv) = (sv_sessions sv)(t := None)"
  by (simp_all add: put_session_def delete_session_def)

definition quiet :: "handler \<Rightarrow> bool" where
  "quiet h \<longleftrightarrow> (\<forall>C env r sv. fst (h C env r sv) = sv)"

lemma quietD: "quiet h \<Longrightarrow> fst (h C env r sv) = sv"
  by (simp add: quiet_def)

lemma quiet_handlers [simp]:
  "quiet discover" "quiet sign" "quiet diagnostics" "quiet status_handler" "quiet system_handler"
  "quiet services_handler" "quiet index_handler" "quiet (\<lambda>C env r sv. (sv, f env))"
  by (simp_all add: quiet_def discover_def sign_def diagnostics_def status_handler_def system_handler_def
      services_handler_def index_handler_def Let_def split: sum.splits option.splits)

text \<open>A handler changes nothing, drops one session, or is one of the two authentication steps.\<close>

definition verify_request :: "request \<Rightarrow> (string \<times> bytes) option" where
  "verify_request r =
     (case verify_fields (rq_Body r) of None \<Rightarrow> None
      | Some (cid, sigtext) \<Rightarrow>
          (case DecodeString sigtext of None \<Rightarrow> None
           | Some sig \<Rightarrow> if cid = [] then None else Some (cid, sig)))"

definition challenge_request :: "request \<Rightarrow> string option" where
  "challenge_request r =
     Option.bind (Option.bind (Decode_limited (rq_Body r)) (decode_field ''device_id'')) (\<lambda>d.
       if d = [] then None else Some d)"

lemma challenge_eq:
  "challenge C env r sv =
     (if rq_Method r \<noteq> ''POST'' then (sv, Return (http_Error ''method not allowed'' 405))
      else (case challenge_request r of None \<Rightarrow> (sv, Return (http_Error ''invalid request'' 400))
       | Some d \<Rightarrow>
          (case Challenge (ev_sql env) d (ev_rand env 0) (ev_rand env 1) (ev_now env) (sv_auth sv) of
            (au, Inl _) \<Rightarrow> (sv\<lparr>sv_auth := au\<rparr>, Return (http_Error ''authentication unavailable'' 403))
          | (au, Inr (cid, val)) \<Rightarrow>
              (sv\<lparr>sv_auth := au\<rparr>, Return (writeJSON (JObj
                [(''challenge'', JStr (EncodeToString val)), (''challenge_id'', JStr cid)]))))))"
  unfolding challenge_def challenge_request_def
  by (cases "Option.bind (Decode_limited (rq_Body r)) (decode_field ''device_id'')") (simp_all del: bind_assoc)

lemma verify_ignores:
  assumes "rq_Method r \<noteq> ''POST'' \<or> verify_request r = None"
  shows "fst (verify C env r sv) = sv \<and> (\<exists>resp. snd (verify C env r sv) = Return resp \<and> rs_Status resp \<noteq> 200)"
  using assms by (auto simp: verify_def verify_request_def split: option.splits if_splits)

lemma verify_eq:
  assumes "rq_Method r = ''POST''" "verify_request r = Some (cid, sig)"
  shows "verify C env r sv =
    (case Verify C (ev_sql env) cid sig (ev_now env) (sv_auth sv) of
       (au, Panic m) \<Rightarrow> (sv\<lparr>sv_auth := au\<rparr>, Panic m)
     | (au, Return (Some _)) \<Rightarrow> (sv\<lparr>sv_auth := au\<rparr>, Return (http_Error ''authentication failed'' 401))
     | (au, Return None) \<Rightarrow>
         (case ev_rand env 0 of
            None \<Rightarrow> (sv\<lparr>sv_auth := au\<rparr>, Return (http_Error ''authentication unavailable'' 500))
          | Some b \<Rightarrow>
              (put_session (EncodeToString b) (ev_later env + session_lifetime) (sv\<lparr>sv_auth := au\<rparr>),
               Return (writeJSON (JObj [(''session'', JStr (EncodeToString b))])))))"
  using assms
  by (auto simp: verify_def verify_request_def Let_def split: option.splits if_splits prod.splits call.splits)

text \<open>Who gets a session, and when: the request verifies a signature over a pending challenge.\<close>

definition logs_in :: "crypto \<Rightarrow> env \<Rightarrow> request \<Rightarrow> server \<Rightarrow> string \<Rightarrow> instant \<Rightarrow> bool" where
  "logs_in C env r sv tok expiry \<longleftrightarrow>
     rq_Method r = ''POST'' \<and> rq_Path r = ''/api/auth/verify'' \<and>
     (\<exists>cid sig b. verify_request r = Some (cid, sig)
        \<and> snd (Verify C (ev_sql env) cid sig (ev_now env) (sv_auth sv)) = Return None
        \<and> ev_rand env 0 = Some b \<and> tok = EncodeToString b \<and> expiry = ev_later env + session_lifetime)"

lemma quiet_protected:
  assumes "quiet h"
  shows "fst (protected h C env r sv) = sv \<or> fst (protected h C env r sv) = delete_session (bearer r) sv"
  using assms by (auto simp: protected_def Let_def quietD)

lemma challenge_sessions [simp]: "sv_sessions (fst (challenge C env r sv)) = sv_sessions sv"
  by (simp add: challenge_eq split: option.splits sum.splits prod.splits)

lemma challenge_auth:
  "sv_auth (fst (challenge C env r sv)) = sv_auth sv \<or>
   (\<exists>d. rq_Method r = ''POST'' \<and> challenge_request r = Some d \<and> sv_auth (fst (challenge C env r sv)) =
      auth_step C (AChallenge (ev_sql env) d (ev_rand env 0) (ev_rand env 1) (ev_now env)) (sv_auth sv))"
  by (simp add: challenge_eq split: option.splits sum.splits prod.splits)

lemma verify_auth:
  "sv_auth (fst (verify C env r sv)) = sv_auth sv \<or>
   (\<exists>cid sig. sv_auth (fst (verify C env r sv)) =
      auth_step C (AVerify (ev_sql env) cid sig (ev_now env)) (sv_auth sv))"
proof (cases "rq_Method r \<noteq> ''POST'' \<or> verify_request r = None")
  case True
  from verify_ignores [OF this] show ?thesis by simp
next
  case False
  then obtain cid sig where v: "rq_Method r = ''POST''" "verify_request r = Some (cid, sig)" by auto
  show ?thesis
    by (rule disjI2, rule exI [of _ cid], rule exI [of _ sig])
      (simp add: verify_eq [OF v] split: prod.splits call.splits option.splits)
qed

lemma verify_sessions:
  assumes "sv_sessions (fst (verify C env r sv)) tok = Some e" "rq_Path r = ''/api/auth/verify''"
  shows "sv_sessions sv tok = Some e \<or> logs_in C env r sv tok e"
proof (cases "rq_Method r \<noteq> ''POST'' \<or> verify_request r = None")
  case True
  from verify_ignores [OF this] assms show ?thesis by simp
next
  case False
  then obtain cid sig where v: "rq_Method r = ''POST''" "verify_request r = Some (cid, sig)" by auto
  with assms show ?thesis
    by (auto simp: verify_eq [OF v] logs_in_def split: prod.splits call.splits option.splits if_splits)
qed

text \<open>The handler a request reaches.\<close>

lemma route_kinds:
  assumes "path \<noteq> ''/api/auth/challenge''" "path \<noteq> ''/api/auth/verify''"
  shows "quiet (route path) \<or> route path = logout \<or> (\<exists>h. quiet h \<and> route path = protected h)"
proof -
  have "quiet (\<lambda>C env r sv. (sv, Return (ev_static env (TrimPrefix path ''/assets/''))))"
    "quiet (\<lambda>C env r sv. (sv, Return (redirect ''/assets/'')))" by (simp_all add: quiet_def)
  moreover have "\<exists>h. quiet h \<and> protected status_handler = protected h"
    "\<exists>h. quiet h \<and> protected system_handler = protected h"
    "\<exists>h. quiet h \<and> protected services_handler = protected h"
    using quiet_handlers by blast+
  ultimately show ?thesis
    using assms unfolding route_def by (simp only: quiet_handlers if_splits) simp
qed

lemma handle_cases:
  obtains (quiet) "fst (handle C env r sv) = sv"
  | (challenge) "rq_Path r = ''/api/auth/challenge''" "handle C env r sv = challenge C env r sv"
  | (verify) "rq_Path r = ''/api/auth/verify''" "handle C env r sv = verify C env r sv"
  | (drop) tok where "fst (handle C env r sv) = delete_session tok sv"
proof (cases "redirected r")
  case True
  then show ?thesis by (intro quiet) (simp add: handle_def)
next
  case False
  then have h: "handle C env r sv = route (rq_Path r) C env r sv" by (simp add: handle_def)
  show ?thesis
  proof (cases "rq_Path r = ''/api/auth/challenge'' \<or> rq_Path r = ''/api/auth/verify''")
    case True
    then show ?thesis
      by (elim disjE; intro challenge verify; simp_all add: h route_def HasPrefix_def)
  next
    case False
    then consider "quiet (route (rq_Path r))" | "route (rq_Path r) = logout"
      | g where "quiet g" "route (rq_Path r) = protected g"
      using route_kinds [of "rq_Path r"] by blast
    then have "fst (handle C env r sv) = sv \<or> (\<exists>tok. fst (handle C env r sv) = delete_session tok sv)"
    proof cases
      case 1
      then show ?thesis by (simp add: h quietD)
    next
      case 2
      then show ?thesis unfolding h by (auto simp: logout_def)
    next
      case 3
      then show ?thesis using quiet_protected [OF 3(1), of C env r sv] unfolding h by auto
    qed
    then show ?thesis using quiet drop by blast
  qed
qed

section \<open>Runs of the panel\<close>

text \<open>Requests of any client, interleaved with what other processes do to the trust tables.\<close>

datatype web_op = WReq env request | WTrust trust_op

fun web_step :: "crypto \<Rightarrow> web_op \<Rightarrow> server \<Rightarrow> server" where
  "web_step C (WReq env r) sv = fst (handle C env r sv)"
| "web_step C (WTrust op) sv = sv\<lparr>sv_auth := auth_step C (ATrust op) (sv_auth sv)\<rparr>"

definition web_inv :: "server \<Rightarrow> bool" where
  "web_inv sv \<longleftrightarrow> auth_inv (sv_auth sv)"

definition web_grows :: "server \<Rightarrow> server \<Rightarrow> bool" where
  "web_grows sv sv' \<longleftrightarrow> auth_grows (sv_auth sv) (sv_auth sv')"

lemma web_inv_New [wf_intros]: "db_ok db \<Longrightarrow> web_inv (New_server db)"
  by (simp add: web_inv_def New_server_def auth_inv_def NewAuthenticator_def)

lemma web_step_auth:
  "sv_auth (web_step C op sv) = sv_auth sv \<or> (\<exists>aop. sv_auth (web_step C op sv) = auth_step C aop (sv_auth sv))"
proof (cases op)
  case (WReq env r)
  show ?thesis
  proof (rule handle_cases [of C env r sv])
    assume "handle C env r sv = challenge C env r sv"
    with WReq challenge_auth [of C env r sv] show ?thesis by (auto simp del: auth_step.simps)
  next
    assume "handle C env r sv = verify C env r sv"
    with WReq verify_auth [of C env r sv] show ?thesis by (auto simp del: auth_step.simps)
  qed (use WReq in simp_all)
next
  case (WTrust top)
  then show ?thesis by (intro disjI2 exI [of _ "ATrust top"]) simp
qed

interpretation web: history_machine "web_step C" web_inv web_grows for C
proof unfold_locales
  show "web_inv s \<Longrightarrow> web_inv (web_step C op s)" for op s
    using web_step_auth [of C op s] by (auto simp: web_inv_def auth_step_inv)
  show "web_inv s \<Longrightarrow> web_grows s (web_step C op s)" for op s
    using web_step_auth [of C op s] by (auto simp: web_grows_def web_inv_def auth_step_grows authenticator.before_refl)
qed (auto simp: web_grows_def authenticator.before_refl intro: authenticator.before_trans)

text \<open>Sessions come from logins, pending challenges from challenge requests.\<close>

definition session_in :: "server \<Rightarrow> string \<times> instant \<Rightarrow> bool" where
  "session_in sv x \<longleftrightarrow> sv_sessions sv (fst x) = Some (snd x)"

fun login_op :: "crypto \<Rightarrow> web_op \<Rightarrow> server \<Rightarrow> string \<times> instant \<Rightarrow> bool" where
  "login_op C (WReq env r) sv x \<longleftrightarrow> logs_in C env r sv (fst x) (snd x)"
| "login_op C (WTrust op) sv x \<longleftrightarrow> False"

definition challenge_in :: "server \<Rightarrow> string \<times> challengeRecord \<Rightarrow> bool" where
  "challenge_in sv x \<longleftrightarrow> as_challenges (sv_auth sv) (fst x) = Some (snd x)"

definition issues :: "env \<Rightarrow> request \<Rightarrow> server \<Rightarrow> string \<times> challengeRecord \<Rightarrow> bool" where
  "issues env r sv x \<longleftrightarrow> rq_Method r = ''POST'' \<and> rq_Path r = ''/api/auth/challenge''
     \<and> (\<exists>pub idRaw. challenge_request r = Some (ch_deviceID (snd x))
         \<and> abs_registry (as_db (sv_auth sv)) (ch_deviceID (snd x)) = Some (pub, True)
         \<and> ev_rand env 0 = Some idRaw \<and> fst x = EncodeToString idRaw
         \<and> ev_rand env 1 = Some (ch_value (snd x)) \<and> ch_expires (snd x) = ev_now env + challengeLifetime)"

fun issue_op :: "web_op \<Rightarrow> server \<Rightarrow> string \<times> challengeRecord \<Rightarrow> bool" where
  "issue_op (WReq env r) sv x \<longleftrightarrow> issues env r sv x"
| "issue_op (WTrust op) sv x \<longleftrightarrow> False"

interpretation session_origin: provenance "web_step C" session_in "login_op C" for C
proof unfold_locales
  fix op sv x
  assume has: "session_in (web_step C op sv) x"
  show "session_in sv x \<or> login_op C op sv x"
  proof (cases op)
    case (WReq env r)
    show ?thesis
    proof (rule handle_cases [of C env r sv])
      assume "rq_Path r = ''/api/auth/verify''" "handle C env r sv = verify C env r sv"
      with has WReq verify_sessions [of C env r sv "fst x" "snd x"] show ?thesis
        by (simp add: session_in_def)
    qed (use has WReq in \<open>auto simp: session_in_def split: if_splits\<close>)
  qed (use has in \<open>simp add: session_in_def\<close>)
qed

lemma Challenge_new:
  assumes "as_challenges (fst (Challenge flt d r1 r2 now st)) cid = Some rec" "as_challenges st cid \<noteq> Some rec"
  shows "\<exists>pub idRaw. abs_registry (as_db st) d = Some (pub, True) \<and> r1 = Some idRaw \<and> cid = EncodeToString idRaw
    \<and> r2 = Some (ch_value rec) \<and> ch_deviceID rec = d \<and> ch_expires rec = now + challengeLifetime"
proof (cases "snd (Challenge flt d r1 r2 now st)")
  case (Inl err)
  then have "Challenge flt d r1 r2 now st = (fst (Challenge flt d r1 r2 now st), Inl err)"
    by (simp add: prod_eq_iff)
  from Challenge_InlD [OF this] assms show ?thesis by simp
next
  case (Inr p)
  obtain c v where "p = (c, v)" by (cases p)
  with Inr have "Challenge flt d r1 r2 now st = (fst (Challenge flt d r1 r2 now st), Inr (c, v))"
    by (simp add: prod_eq_iff)
  from Challenge_InrD [OF this] obtain idRaw dev where
    e: "r1 = Some idRaw" "r2 = Some v" "c = EncodeToString idRaw" "Get flt d (as_db st) = Inr dev"
      "dv_Status dev = ''active''"
      "fst (Challenge flt d r1 r2 now st) =
        put_challenge c \<lparr>ch_deviceID = d, ch_value = v, ch_expires = now + challengeLifetime\<rparr> st"
    by blast
  with assms have "cid = c" "rec = \<lparr>ch_deviceID = d, ch_value = v, ch_expires = now + challengeLifetime\<rparr>"
    by (auto split: if_splits)
  with e Get_InrD [OF e(4)] show ?thesis by simp
qed

interpretation challenge_origin: provenance "web_step C" challenge_in issue_op for C
proof unfold_locales
  fix op sv x
  assume has: "challenge_in (web_step C op sv) x"
  show "challenge_in sv x \<or> issue_op op sv x"
  proof (cases op)
    case (WReq env r)
    show ?thesis
    proof (rule handle_cases [of C env r sv])
      assume p: "rq_Path r = ''/api/auth/challenge''" "handle C env r sv = challenge C env r sv"
      show ?thesis
      proof (rule disjCI)
        assume new: "\<not> issue_op op sv x"
        show "challenge_in sv x"
        proof (rule ccontr)
          assume old: "\<not> challenge_in sv x"
          with challenge_auth [of C env r sv] has WReq p(2)
          obtain d where d: "rq_Method r = ''POST''" "challenge_request r = Some d"
            "sv_auth (fst (challenge C env r sv)) =
              fst (Challenge (ev_sql env) d (ev_rand env 0) (ev_rand env 1) (ev_now env) (sv_auth sv))"
            by (auto simp: challenge_in_def)
          from Challenge_new [of "ev_sql env" d "ev_rand env 0" "ev_rand env 1" "ev_now env" "sv_auth sv" "fst x" "snd x"]
            has old WReq p d have "issue_op op sv x"
            by (auto simp: challenge_in_def issues_def)
          with new show False ..
        qed
      qed
    next
      assume "rq_Path r = ''/api/auth/verify''" and v: "handle C env r sv = verify C env r sv"
      from verify_auth [of C env r sv] v WReq has show ?thesis
        by (auto simp: challenge_in_def split: if_splits)
    qed (use has WReq in \<open>auto simp: challenge_in_def\<close>)
  qed (use has in \<open>simp add: challenge_in_def\<close>)
qed

section \<open>Protected handlers\<close>

definition protected_path :: "string \<Rightarrow> bool" where
  "protected_path p \<longleftrightarrow> p \<in> {''/api/status'', ''/api/system'', ''/api/services''}"

lemma clean_protected [simp]:
  "cleanPath ''/api/status'' = ''/api/status''" "cleanPath ''/api/system'' = ''/api/system''"
  "cleanPath ''/api/services'' = ''/api/services''"
  by code_simp+

lemma clean_auth_paths [simp]:
  "cleanPath ''/api/auth/challenge'' = ''/api/auth/challenge''"
  "cleanPath ''/api/auth/discover'' = ''/api/auth/discover''"
  "cleanPath ''/api/auth/sign'' = ''/api/auth/sign''"
  "cleanPath ''/api/auth/verify'' = ''/api/auth/verify''"
  "cleanPath ''/api/auth/logout'' = ''/api/auth/logout''"
  "cleanPath ''/api/diagnostics'' = ''/api/diagnostics''"
  by code_simp+

lemma handle_paths:
  "rq_Path r = ''/api/auth/challenge'' \<Longrightarrow> handle C env r sv = challenge C env r sv"
  "rq_Path r = ''/api/auth/discover'' \<Longrightarrow> handle C env r sv = discover C env r sv"
  "rq_Path r = ''/api/auth/sign'' \<Longrightarrow> handle C env r sv = sign C env r sv"
  "rq_Path r = ''/api/auth/verify'' \<Longrightarrow> handle C env r sv = verify C env r sv"
  "rq_Path r = ''/api/auth/logout'' \<Longrightarrow> handle C env r sv = logout C env r sv"
  "rq_Path r = ''/api/diagnostics'' \<Longrightarrow> handle C env r sv = diagnostics C env r sv"
  "rq_Path r = ''/api/status'' \<Longrightarrow> handle C env r sv = protected status_handler C env r sv"
  "rq_Path r = ''/api/system'' \<Longrightarrow> handle C env r sv = protected system_handler C env r sv"
  "rq_Path r = ''/api/services'' \<Longrightarrow> handle C env r sv = protected services_handler C env r sv"
  by (simp_all add: handle_def route_def HasPrefix_def)

lemma protected_refuses:
  assumes "bearer r = [] \<or> sv_sessions sv (bearer r) = None
    \<or> (\<exists>t. sv_sessions sv (bearer r) = Some t \<and> t < ev_now env)"
  shows "snd (protected h C env r sv) = Return (http_Error ''authentication required'' 401)"
  using assms by (auto simp: protected_def Let_def)

lemma protected_admits:
  assumes "bearer r \<noteq> []" "sv_sessions sv (bearer r) = Some t" "ev_now env \<le> t"
  shows "protected h C env r sv = h C env r sv"
  using assms by (simp add: protected_def)

lemma protected_path_refuses:
  assumes "protected_path (rq_Path r)"
    "bearer r = [] \<or> sv_sessions sv (bearer r) = None
      \<or> (\<exists>t. sv_sessions sv (bearer r) = Some t \<and> t < ev_now env)"
  shows "snd (handle C env r sv) = Return (http_Error ''authentication required'' 401)"
  using assms(1) protected_refuses [OF assms(2)] by (auto simp: protected_path_def handle_paths)

section \<open>Panics\<close>

definition calm :: "handler \<Rightarrow> bool" where
  "calm h \<longleftrightarrow> (\<forall>C env r sv m. snd (h C env r sv) \<noteq> Panic m)"

lemma calm_handlers [simp]:
  "calm diagnostics" "calm challenge" "calm logout" "calm status_handler" "calm system_handler"
  "calm services_handler" "calm index_handler"
  by (simp_all add: calm_def diagnostics_def challenge_eq logout_def status_handler_def system_handler_def
      services_handler_def index_handler_def Let_def split: sum.splits option.splits prod.splits)

lemma calm_protected: "calm h \<Longrightarrow> calm (protected h)"
  by (simp add: calm_def protected_def Let_def)

lemma calmD: "calm h \<Longrightarrow> snd (h C env r sv) \<noteq> Panic m"
  by (simp add: calm_def)

lemma route_calm:
  assumes "path \<noteq> ''/api/auth/discover''" "path \<noteq> ''/api/auth/sign''" "path \<noteq> ''/api/auth/verify''"
  shows "calm (route path)"
proof -
  have "calm (\<lambda>C env r sv. (sv, Return (ev_static env (TrimPrefix path ''/assets/''))))"
    "calm (\<lambda>C env r sv. (sv, Return (redirect ''/assets/'')))" by (simp_all add: calm_def)
  with assms show ?thesis
    unfolding route_def by (simp add: calm_protected)
qed

lemma verify_calm:
  assumes "web_inv sv"
  shows "snd (verify C env r sv) \<noteq> Panic m"
proof (cases "rq_Method r \<noteq> ''POST'' \<or> verify_request r = None")
  case True
  from verify_ignores [OF this, of C env sv] show ?thesis by auto
next
  case False
  then obtain cid sig where v: "rq_Method r = ''POST''" "verify_request r = Some (cid, sig)" by auto
  have "snd (Verify C (ev_sql env) cid sig (ev_now env) (sv_auth sv)) \<noteq> Panic m"
    using assms by (intro Verify_no_panic) (simp add: web_inv_def)
  then show ?thesis
    by (auto simp: verify_eq [OF v] split: prod.splits call.splits option.splits)
qed

lemma discover_panics:
  "(\<exists>m. snd (discover C env r sv) = Panic m) \<longleftrightarrow> rq_Method r = ''GET'' \<and>
    (\<exists>resp. bridgeRequest env ''GET'' ''/identity'' [] = Inr resp \<and> rs_Status resp \<noteq> 200)"
  by (auto simp: discover_def split: sum.splits option.splits)

lemma sign_panics:
  "(\<exists>m. snd (sign C env r sv) = Panic m) \<longleftrightarrow> rq_Method r = ''POST'' \<and> length (rq_Body r) \<le> max_body \<and>
    (\<exists>resp. bridgeRequest env ''POST'' ''/sign'' (rq_Body r) = Inr resp \<and> \<not> WriteHeader_ok (rs_Status resp))"
  by (auto simp: sign_def ReadAll_limited_def split: sum.splits)

text \<open>The Agent's own bridge answers with statuses of three digits, and its identity with 200.\<close>

lemma bridge_status_ok: "WriteHeader_ok (rs_Status (bridgeHandler C i r))"
  by (simp add: bridgeHandler_def sign_handler_def identity_handler_def WriteHeader_ok_def redirect_def NotFound_def
      split: option.splits sum.splits)

lemma bridge_identity_200: "rq_Path r = ''/identity'' \<Longrightarrow> rq_Method r = ''GET'' \<Longrightarrow> rs_Status (bridgeHandler C i r) = 200"
  by (simp add: bridgeHandler_def identity_handler_def)

section \<open>A concrete run\<close>

text \<open>Surroundings in which nothing fails and the Agent holds the concrete identity.\<close>

definition toy_host :: host where
  "toy_host = \<lparr>h_GOOS = ''linux'', h_GOARCH = ''amd64'', h_NumCPU = 8, h_out_of_range = 0,
     h_files = Map.empty, h_statfs = Map.empty\<rparr>"

definition toy_env :: env where
  "toy_env = \<lparr>ev_now = 0, ev_later = 0, ev_rand = (\<lambda>n. Some (if n = 0 then replicate 32 CHR ''c'' else toy_value)),
     ev_sql = sql_ok, ev_bridge = (\<lambda>r. Inr (bridgeHandler toy_crypto toy_identity r)), ev_host = toy_host,
     ev_status = JNull, ev_services = Inr JNull, ev_static = (\<lambda>_. NotFound), ev_index = None\<rparr>"

definition toy_session :: string where "toy_session = EncodeToString (replicate 32 CHR ''c'')"

definition toy_server :: server where
  "toy_server = put_session toy_session session_lifetime (New_server toy_db)"

definition toy_get :: "string \<Rightarrow> string \<Rightarrow> request" where
  "toy_get path tok = \<lparr>rq_Method = ''GET'', rq_Path = path,
     rq_Header = [(''Authorization'', ''Bearer '' @ tok)], rq_Body = []\<rparr>"

lemma bearer_toy_get: "bearer (toy_get path (EncodeToString b)) = EncodeToString b"
  by (simp add: bearer_def toy_get_def TrimPrefix_def HasPrefix_def)

lemma toy_session_live:
  "sv_sessions toy_server toy_session = Some session_lifetime" "toy_session \<noteq> []"
  by (simp_all add: toy_server_def toy_session_def)

section \<open>Properties\<close>

text \<open>
  C1. Nothing behind the login answers without one. If, after any requests of any clients and any changes of the
  tables by other processes, a protected path answers anything but 401, then an earlier request verified
  a signature by the registered key of a device active at that moment, over a challenge still
  pending, which an earlier request still had been issued from fresh random bytes for that device while
  active; the answered request carries that login's token and comes at most fifteen minutes after it.
\<close>

theorem protected_needs_login:
  assumes "db_ok db" "sv = fold (web_step C) ops (New_server db)" "protected_path (rq_Path r)"
    and "snd (handle C env r sv) \<noteq> Return (http_Error ''authentication required'' 401)"
  shows "\<exists>before e0 r0 after cid sig rec pub tok.
      ops = before @ WReq e0 r0 # after
    \<and> rq_Method r0 = ''POST'' \<and> rq_Path r0 = ''/api/auth/verify'' \<and> verify_request r0 = Some (cid, sig)
    \<and> challenge_in (fold (web_step C) before (New_server db)) (cid, rec) \<and> ev_now e0 < ch_expires rec
    \<and> abs_registry (as_db (sv_auth (fold (web_step C) before (New_server db)))) (ch_deviceID rec) = Some (pub, True)
    \<and> cr_verify C pub (ch_value rec) sig
    \<and> ev_rand e0 0 = Some tok \<and> bearer r = EncodeToString tok \<and> ev_now env \<le> ev_later e0 + session_lifetime
    \<and> (\<exists>first e1 r1 second. before = first @ WReq e1 r1 # second
         \<and> issues e1 r1 (fold (web_step C) first (New_server db)) (cid, rec))"
proof -
  have "\<not> (bearer r = [] \<or> sv_sessions sv (bearer r) = None
      \<or> (\<exists>t. sv_sessions sv (bearer r) = Some t \<and> t < ev_now env))"
    using protected_path_refuses [OF assms(3), of sv env C] assms(4) by blast
  then obtain t where t: "sv_sessions sv (bearer r) = Some t" "ev_now env \<le> t" by auto
  then have "session_in (fold (web_step C) ops (New_server db)) (bearer r, t)"
    by (simp add: session_in_def assms(2))
  moreover have "\<not> session_in (New_server db) (bearer r, t)"
    by (simp add: session_in_def New_server_def)
  ultimately obtain before op after where o: "ops = before @ op # after"
      "login_op C op (fold (web_step C) before (New_server db)) (bearer r, t)"
    by (rule session_origin.origin)
  let ?s = "fold (web_step C) before (New_server db)"
  from o(2) obtain e0 r0 where op: "op = WReq e0 r0" and l: "logs_in C e0 r0 ?s (bearer r) t"
    by (cases op) auto
  from l obtain cid sig tok where v: "rq_Method r0 = ''POST''" "rq_Path r0 = ''/api/auth/verify''"
      "verify_request r0 = Some (cid, sig)" "ev_rand e0 0 = Some tok" "bearer r = EncodeToString tok"
      "t = ev_later e0 + session_lifetime"
      "snd (Verify C (ev_sql e0) cid sig (ev_now e0) (sv_auth ?s)) = Return None"
    by (auto simp: logs_in_def)
  then have "Verify C (ev_sql e0) cid sig (ev_now e0) (sv_auth ?s) =
      (fst (Verify C (ev_sql e0) cid sig (ev_now e0) (sv_auth ?s)), Return None)" by (simp add: prod_eq_iff)
  from Verify_NoneD [OF this] obtain rec pub where
    a: "as_challenges (sv_auth ?s) cid = Some rec" "ev_now e0 < ch_expires rec"
      "abs_registry (as_db (sv_auth ?s)) (ch_deviceID rec) = Some (pub, True)" "cr_verify C pub (ch_value rec) sig"
    by blast
  then have "challenge_in ?s (cid, rec)" by (simp add: challenge_in_def)
  moreover have "\<not> challenge_in (New_server db) (cid, rec)"
    by (simp add: challenge_in_def New_server_def NewAuthenticator_def)
  ultimately obtain first op1 second where
    "before = first @ op1 # second" "issue_op op1 (fold (web_step C) first (New_server db)) (cid, rec)"
    by (rule challenge_origin.origin)
  then obtain e1 r1 where "before = first @ WReq e1 r1 # second"
      "issues e1 r1 (fold (web_step C) first (New_server db)) (cid, rec)"
    by (cases op1) auto
  with o(1) op v a \<open>challenge_in ?s (cid, rec)\<close> t(2) show ?thesis by blast
qed

text \<open>The concrete run: a challenge request, a verification and a protected request.\<close>

definition toy_challenge_request :: request where
  "toy_challenge_request = json_post ''/api/auth/challenge'' (JObj [(''device_id'', JStr (id_DeviceID toy_identity))])"

definition toy_verify_request :: request where
  "toy_verify_request = json_post ''/api/auth/verify''
     (JObj [(''challenge_id'', JStr toy_cid), (''signature'', JStr (EncodeToString toy_sig))])"

definition toy_run :: "web_op list" where
  "toy_run = [WReq toy_env toy_challenge_request, WReq toy_env toy_verify_request]"

lemma toy_challenge_step:
  "web_step toy_crypto (WReq toy_env toy_challenge_request) (New_server toy_db) =
     (New_server toy_db)\<lparr>sv_auth := toy_pending\<rparr>"
proof -
  let ?v = "JObj [(''device_id'', JStr (id_DeviceID toy_identity))]"
  have "Decode_limited (stringify ?v) = Some ?v"
    by (rule Decode_limited_stringify)
      (simp_all add: stringify_def length_one_field length_EncodeToString max_body_def del: print_json.simps print_fields.simps)
  then have "challenge_request toy_challenge_request = Some (id_DeviceID toy_identity)"
    by (simp add: challenge_request_def toy_challenge_request_def del: toy_identity_simps) simp
  then show ?thesis
    using toy_issue
    by (simp add: handle_paths challenge_eq toy_challenge_request_def toy_env_def toy_auth_def New_server_def
        del: toy_identity_simps)
qed

lemma toy_login_step:
  "sv_sessions (web_step toy_crypto (WReq toy_env toy_verify_request) ((New_server toy_db)\<lparr>sv_auth := toy_pending\<rparr>))
     toy_session = Some session_lifetime"
proof -
  let ?v = "JObj [(''challenge_id'', JStr toy_cid), (''signature'', JStr (EncodeToString toy_sig))]"
  have p: "plain_str toy_cid" "length toy_cid = 43" "toy_cid \<noteq> []"
    by (simp_all add: toy_cid_def length_EncodeToString)
  have "length toy_sig = 64" by (simp add: toy_sig_def)
  with p have "Decode_limited (stringify ?v) = Some ?v"
    by (intro Decode_limited_stringify)
      (simp_all add: stringify_def length_two_fields length_EncodeToString max_body_def del: print_json.simps print_fields.simps)
  then have v: "verify_request toy_verify_request = Some (toy_cid, toy_sig)"
    using p by (simp add: verify_request_def verify_fields_def toy_verify_request_def decode_field_def
        struct_fields_def fold_eval)
  have now: "0 < ch_expires toy_record"
    by (simp add: toy_record_def challengeLifetime_def time_units)
  from Verify_accepts [OF toy_verify_facts(1) now _ toy_verify_facts(3) _ toy_verify_facts(4), of sql_ok]
  have "snd (Verify toy_crypto sql_ok toy_cid toy_sig 0 toy_pending) = Return None"
    by (simp add: sql_ok_def)
  then have "Verify toy_crypto sql_ok toy_cid toy_sig 0 toy_pending =
      (fst (Verify toy_crypto sql_ok toy_cid toy_sig 0 toy_pending), Return None)" by (simp add: prod_eq_iff)
  then have "\<exists>au. verify toy_crypto toy_env toy_verify_request ((New_server toy_db)\<lparr>sv_auth := toy_pending\<rparr>) =
      (put_session toy_session (0 + session_lifetime) ((New_server toy_db)\<lparr>sv_auth := au\<rparr>),
       Return (writeJSON (JObj [(''session'', JStr toy_session)])))"
    using verify_eq [OF _ v, of toy_crypto toy_env "(New_server toy_db)\<lparr>sv_auth := toy_pending\<rparr>"]
    by (simp add: toy_env_def toy_session_def toy_verify_request_def split: prod.splits) auto
  then show ?thesis
    by (auto simp: handle_paths toy_verify_request_def)
qed

theorem protected_needs_login_witness:
  "\<exists>before e0 r0 after. toy_run = before @ WReq e0 r0 # after \<and> rq_Path r0 = ''/api/auth/verify''
     \<and> ev_now toy_env \<le> ev_later e0 + session_lifetime"
proof -
  let ?sv = "fold (web_step toy_crypto) toy_run (New_server toy_db)"
  have live: "sv_sessions ?sv toy_session = Some session_lifetime"
    using toy_login_step by (simp add: toy_run_def toy_challenge_step del: web_step.simps)
  have b: "bearer (toy_get ''/api/status'' toy_session) = toy_session"
    by (simp add: toy_session_def bearer_toy_get)
  have "handle toy_crypto toy_env (toy_get ''/api/status'' toy_session) ?sv =
      protected status_handler toy_crypto toy_env (toy_get ''/api/status'' toy_session) ?sv"
    by (rule handle_paths) (simp add: toy_get_def)
  also have "\<dots> = status_handler toy_crypto toy_env (toy_get ''/api/status'' toy_session) ?sv"
    by (rule protected_admits [of _ _ session_lifetime])
      (simp_all add: b live toy_session_live(2) toy_env_def session_lifetime_def time_units)
  finally have s: "snd (handle toy_crypto toy_env (toy_get ''/api/status'' toy_session) ?sv) = Return (writeJSON (ev_status toy_env))"
    by (simp add: status_handler_def)
  have "writeJSON (ev_status toy_env) \<noteq> http_Error ''authentication required'' 401"
    by (simp add: writeJSON_def http_Error_def)
  with protected_needs_login [OF toy_db_ok refl, of "toy_get ''/api/status'' toy_session" toy_crypto toy_env toy_run] s
  show ?thesis by (fastforce simp: protected_path_def toy_get_def)
qed

text \<open>
  C12. With sound tables, the requests that make a handler panic are exactly two: a GET of
  \<open>/api/auth/discover\<close> while the Agent's bridge answers with a status other than 200, and a POST to
  \<open>/api/auth/sign\<close>, its body within the limit, while the bridge answers with a status below 100 or above
  999. So with the Agent's own bridge handler behind the socket no request panics.
\<close>

theorem bridge_statuses_panic:
  assumes "web_inv sv"
  shows "((\<exists>m. snd (handle C env r sv) = Panic m) \<longleftrightarrow>
        (rq_Path r = ''/api/auth/discover'' \<and> rq_Method r = ''GET''
         \<and> (\<exists>resp. bridgeRequest env ''GET'' ''/identity'' [] = Inr resp \<and> rs_Status resp \<noteq> 200))
        \<or> (rq_Path r = ''/api/auth/sign'' \<and> rq_Method r = ''POST'' \<and> length (rq_Body r) \<le> max_body
         \<and> (\<exists>resp. bridgeRequest env ''POST'' ''/sign'' (rq_Body r) = Inr resp
              \<and> (rs_Status resp < 100 \<or> 999 < rs_Status resp))))
    \<and> (\<forall>K i m. ev_bridge env = (\<lambda>q. Inr (bridgeHandler K i q)) \<longrightarrow> snd (handle C env r sv) \<noteq> Panic m)"
    (is "((\<exists>m. ?panics m) \<longleftrightarrow> ?discover \<or> ?sign) \<and> ?calm")
proof
  show iff: "(\<exists>m. ?panics m) \<longleftrightarrow> ?discover \<or> ?sign"
  proof (cases "rq_Path r \<in> {''/api/auth/discover'', ''/api/auth/sign'', ''/api/auth/verify''}")
    case True
    then consider "rq_Path r = ''/api/auth/discover''" | "rq_Path r = ''/api/auth/sign''"
      | "rq_Path r = ''/api/auth/verify''" by blast
    then show ?thesis
    proof cases
      case 1
      then show ?thesis by (simp add: handle_paths discover_panics)
    next
      case 2
      then show ?thesis by (simp add: handle_paths sign_panics WriteHeader_ok_def not_le)
    next
      case 3
      then show ?thesis by (simp add: handle_paths verify_calm [OF assms])
    qed
  next
    case False
    then have "calm (route (rq_Path r))" by (intro route_calm) simp_all
    then have "snd (handle C env r sv) \<noteq> Panic m" for m by (simp add: handle_def calmD)
    with False show ?thesis by simp
  qed
  show ?calm
  proof (intro allI impI)
    fix K i m
    assume own: "ev_bridge env = (\<lambda>q. Inr (bridgeHandler K i q))"
    have "\<not> ?discover" by (simp add: bridgeRequest_def own bridge_identity_200)
    moreover have "\<not> ?sign"
      using bridge_status_ok [of K i] by (auto simp: bridgeRequest_def own WriteHeader_ok_def not_less)
    ultimately show "\<not> ?panics m" using iff by blast
  qed
qed

theorem bridge_statuses_panic_witness:
  "(\<exists>m. snd (handle toy_crypto (toy_env\<lparr>ev_bridge := (\<lambda>_. Inr NotFound)\<rparr>) (toy_get ''/api/auth/discover'' [])
     (New_server toy_db)) = Panic m)
   \<and> (\<exists>m. snd (handle toy_crypto (toy_env\<lparr>ev_bridge := (\<lambda>_. Inr (NotFound\<lparr>rs_Status := 99\<rparr>))\<rparr>)
     (json_post ''/api/auth/sign'' JNull) (New_server toy_db)) = Panic m)
   \<and> snd (handle toy_crypto toy_env (toy_get ''/api/auth/discover'' []) (New_server toy_db)) \<noteq> Panic []"
proof -
  have inv: "web_inv (New_server toy_db)" by (rule web_inv_New) simp
  have len: "length (stringify JNull) \<le> max_body" by (simp add: stringify_def max_body_def)
  from bridge_statuses_panic [OF inv, of toy_crypto "toy_env\<lparr>ev_bridge := (\<lambda>_. Inr NotFound)\<rparr>"
      "toy_get ''/api/auth/discover'' []"]
    bridge_statuses_panic [OF inv, of toy_crypto "toy_env\<lparr>ev_bridge := (\<lambda>_. Inr (NotFound\<lparr>rs_Status := 99\<rparr>))\<rparr>"
      "json_post ''/api/auth/sign'' JNull"] len
    bridge_statuses_panic [OF inv, of toy_crypto toy_env "toy_get ''/api/auth/discover'' []"]
  show ?thesis by (simp add: toy_get_def bridgeRequest_def NotFound_def toy_env_def)
qed

text \<open>
  C14. A live session is independent of the tables: no change of them by other processes, a revocation of the
  very device that logged in included, alters the answer to a protected request.
\<close>

theorem sessions_survive_revocation:
  assumes "protected_path (rq_Path r)"
  shows "snd (handle C env r (web_step C (WTrust op) sv)) = snd (handle C env r sv)"
proof -
  have "snd (protected h C env r (web_step C (WTrust op) sv)) = snd (protected h C env r sv)"
    if "\<And>C env r s s'. snd (h C env r s) = snd (h C env r s')" for h :: handler
    using that [of C env r] by (simp add: protected_def Let_def)
  from this [of status_handler] this [of system_handler] this [of services_handler] show ?thesis
    using assms
    by (auto simp: protected_path_def handle_paths status_handler_def system_handler_def services_handler_def)
qed

theorem sessions_survive_revocation_witness:
  "snd (handle toy_crypto toy_env (toy_get ''/api/status'' toy_session)
      (web_step toy_crypto (WTrust (TRevoke sql_ok (id_DeviceID toy_identity) 0)) toy_server)) =
   Return (writeJSON JNull)"
proof -
  have "protected_path (rq_Path (toy_get ''/api/status'' toy_session))"
    by (simp add: protected_path_def toy_get_def)
  note eq = sessions_survive_revocation [OF this, of toy_crypto toy_env "TRevoke sql_ok (id_DeviceID toy_identity) 0" toy_server]
  have b: "bearer (toy_get ''/api/status'' toy_session) = toy_session"
    by (simp add: toy_session_def bearer_toy_get)
  have "handle toy_crypto toy_env (toy_get ''/api/status'' toy_session) toy_server =
      protected status_handler toy_crypto toy_env (toy_get ''/api/status'' toy_session) toy_server"
    by (rule handle_paths) (simp add: toy_get_def)
  also have "\<dots> = status_handler toy_crypto toy_env (toy_get ''/api/status'' toy_session) toy_server"
    by (rule protected_admits [of _ _ session_lifetime])
      (simp_all add: b toy_session_live toy_env_def session_lifetime_def time_units)
  finally show ?thesis unfolding eq by (simp add: status_handler_def toy_env_def)
qed

text \<open>
  Logging out ends the session: after a POST to \<open>/api/auth/logout\<close> with a token, and any requests that do
  not log in to the same random token again, a protected request with that token is refused.
\<close>

theorem logout_ends_session:
  assumes "rq_Method r = ''POST''" "rq_Path r = ''/api/auth/logout''" "bearer r2 = bearer r"
    and "protected_path (rq_Path r2)"
    and "\<forall>e q. WReq e q \<in> set ops \<longrightarrow> (\<forall>b. ev_rand e 0 = Some b \<longrightarrow> EncodeToString b \<noteq> bearer r)"
  shows "snd (handle C env2 r2 (fold (web_step C) ops (fst (handle C env r sv)))) =
    Return (http_Error ''authentication required'' 401)"
proof -
  let ?sv1 = "fst (handle C env r sv)"
  have gone: "sv_sessions ?sv1 (bearer r) = None"
    using assms(1,2) by (simp add: handle_paths logout_def)
  have "sv_sessions (fold (web_step C) ops ?sv1) (bearer r) = None"
  proof (rule ccontr)
    assume "sv_sessions (fold (web_step C) ops ?sv1) (bearer r) \<noteq> None"
    then obtain t where "session_in (fold (web_step C) ops ?sv1) (bearer r, t)"
      by (auto simp: session_in_def)
    moreover have "\<not> session_in ?sv1 (bearer r, t)" by (simp add: session_in_def gone)
    ultimately obtain before op after where o: "ops = before @ op # after"
        "login_op C op (fold (web_step C) before ?sv1) (bearer r, t)"
      by (rule session_origin.origin)
    from o(1) have mem: "op \<in> set ops" by simp
    show False
    proof (cases op)
      case (WReq e q)
      with o(2) obtain b where "ev_rand e 0 = Some b" "bearer r = EncodeToString b"
        by (auto simp: logs_in_def)
      with assms(5) mem WReq show False by metis
    qed (use o(2) in simp)
  qed
  with protected_path_refuses [OF assms(4)] assms(3) show ?thesis by simp
qed

theorem logout_ends_session_witness:
  "snd (handle toy_crypto toy_env (toy_get ''/api/status'' toy_session)
     (fst (handle toy_crypto toy_env ((toy_get ''/api/auth/logout'' toy_session)\<lparr>rq_Method := ''POST''\<rparr>) toy_server))) =
   Return (http_Error ''authentication required'' 401)"
  using logout_ends_session [of "(toy_get ''/api/auth/logout'' toy_session)\<lparr>rq_Method := ''POST''\<rparr>"
      "toy_get ''/api/status'' toy_session" "[]" toy_crypto toy_env toy_env toy_server]
  by (simp add: toy_get_def protected_path_def bearer_def)

end
