(* ===== verification/Web_Client.thy ===== *)
theory Web_Client
  imports Web_Server
begin

text \<open>
  The browser side: \<open>web-ui/src/api/client.ts\<close>, \<open>auth.ts\<close> and \<open>system.ts\<close>, and the script
  \<open>internal/web/assets/app.js\<close>. A promise is a result in the order the code awaits it; the network is a
  function that answers one request and moves the rest of the world on. Every exception of this code is
  an \<open>Error\<close>, so a rejection is its message.
\<close>

section \<open>JavaScript values\<close>

text \<open>A value is a JSON value or undefined.\<close>

type_synonym jsval = "json option"

definition js_zero :: "string \<Rightarrow> bool" where
  "js_zero lit \<longleftrightarrow> list_all (\<lambda>c. c \<in> {CHR ''-'', CHR ''0'', CHR ''.''})
     (takeWhile (\<lambda>c. c \<noteq> CHR ''e'' \<and> c \<noteq> CHR ''E'') lit)"

definition truthy_js :: "jsval \<Rightarrow> bool" where
  "truthy_js v = (case v of None \<Rightarrow> False | Some JNull \<Rightarrow> False | Some (JBool b) \<Rightarrow> b
     | Some (JNum lit) \<Rightarrow> \<not> js_zero lit | Some (JStr s) \<Rightarrow> s \<noteq> [] | Some (JArr _) \<Rightarrow> True | Some (JObj _) \<Rightarrow> True)"

text \<open>\<open>String(v)\<close>; the text of a number is the one of its literal.\<close>

fun js_string :: "json \<Rightarrow> string" and js_items :: "json list \<Rightarrow> string" where
  "js_string JNull = ''null''"
| "js_string (JBool b) = (if b then ''true'' else ''false'')"
| "js_string (JNum lit) = lit"
| "js_string (JStr s) = s"
| "js_string (JArr vs) = js_items vs"
| "js_string (JObj _) = ''[object Object]''"
| "js_items [] = []"
| "js_items [v] = (if v = JNull then [] else js_string v)"
| "js_items (v # w # vs) = (if v = JNull then [] else js_string v) @ '','' @ js_items (w # vs)"

definition js_text :: "jsval \<Rightarrow> string" where
  "js_text v = (case v of None \<Rightarrow> ''undefined'' | Some j \<Rightarrow> js_string j)"

text \<open>\<open>v.name\<close>: a TypeError on null and undefined; \<open>JSON.parse\<close> keeps the last of equal names.\<close>

definition js_field :: "jsval \<Rightarrow> string \<Rightarrow> string + jsval" where
  "js_field v name =
     (case v of
        None \<Rightarrow> Inl (''Cannot read properties of undefined (reading '' @ [CHR 0x27] @ name @ [CHR 0x27] @ '')'')
      | Some JNull \<Rightarrow> Inl (''Cannot read properties of null (reading '' @ [CHR 0x27] @ name @ [CHR 0x27] @ '')'')
      | Some (JObj fs) \<Rightarrow> Inr (map_of (rev fs) name)
      | Some _ \<Rightarrow> Inr None)"

text \<open>\<open>JSON.stringify\<close> of an object literal: undefined members are left out.\<close>

definition js_object :: "(string \<times> jsval) list \<Rightarrow> string" where
  "js_object fs = stringify (JObj (List.map_filter (\<lambda>(k, v). map_option (Pair k) v) fs))"

definition js_or :: "jsval \<Rightarrow> string \<Rightarrow> jsval" where
  "js_or v dflt = (if truthy_js v then v else Some (JStr dflt))"

section \<open>The browser\<close>

text \<open>The tab: its \<open>sessionStorage\<close> entry and the rest of the world behind the network.\<close>

record 'w browser =
  br_session :: "string option"
  br_world :: 'w

type_synonym 'w net = "request \<Rightarrow> 'w \<Rightarrow> 'w \<times> (string + response)"

definition fetch :: "'w net \<Rightarrow> request \<Rightarrow> 'w browser \<Rightarrow> 'w browser \<times> (string + response)" where
  "fetch net r b = (case net r (br_world b) of (w, res) \<Rightarrow> (b\<lparr>br_world := w\<rparr>, res))"

definition response_ok :: "response \<Rightarrow> bool" where
  "response_ok resp \<longleftrightarrow> 200 \<le> rs_Status resp \<and> rs_Status resp \<le> 299"

definition syntax_error :: string where
  "syntax_error = ''Unexpected token in JSON''"

definition response_json :: "response \<Rightarrow> string + jsval" where
  "response_json resp = (case Unmarshal (rs_Body resp) of None \<Rightarrow> Inl syntax_error | Some v \<Rightarrow> Inr (Some v))"

text \<open>\<open>headers.set\<close>: replaces every value of the name.\<close>

definition set_header :: "string \<Rightarrow> string \<Rightarrow> header \<Rightarrow> header" where
  "set_header name v h = filter (\<lambda>(k, _). \<not> EqualFold k name) h @ [(name, v)]"

definition api :: "'w net \<Rightarrow> request \<Rightarrow> 'w browser \<Rightarrow> 'w browser \<times> (string + jsval)" where
  "api net init b =
     (let h = (case br_session b of
                 Some token \<Rightarrow> if token \<noteq> [] then set_header ''Authorization'' (''Bearer '' @ token) (rq_Header init)
                               else rq_Header init
               | None \<Rightarrow> rq_Header init) in
      case fetch net (init\<lparr>rq_Header := h\<rparr>) b of
        (b1, Inl e) \<Rightarrow> (b1, Inl e)
      | (b1, Inr resp) \<Rightarrow>
          (if \<not> response_ok resp
           then (b1, Inl (if rs_Body resp \<noteq> [] then rs_Body resp
                          else ''Request failed ('' @ show_nat (rs_Status resp) @ '')''))
           else if rs_Status resp = 204 then (b1, Inr None)
           else (b1, response_json resp)))"

section \<open>auth.ts and system.ts\<close>

definition js_post :: "string \<Rightarrow> (string \<times> jsval) list \<Rightarrow> request" where
  "js_post path fs = \<lparr>rq_Method = ''POST'', rq_Path = path,
     rq_Header = [(''Content-Type'', ''application/json'')], rq_Body = js_object fs\<rparr>"

definition js_get :: "string \<Rightarrow> request" where
  "js_get path = \<lparr>rq_Method = ''GET'', rq_Path = path, rq_Header = [], rq_Body = []\<rparr>"

record Discovery =
  ds_available :: bool
  ds_device_id :: jsval

definition discover_js :: "'w net \<Rightarrow> 'w browser \<Rightarrow> 'w browser \<times> (string + Discovery)" where
  "discover_js net b =
     (case fetch net (js_get ''/api/auth/discover'') b of
        (b1, Inl e) \<Rightarrow> (b1, Inl e)
      | (b1, Inr resp) \<Rightarrow>
          (b1, if \<not> response_ok resp then Inl ''InfraPilot Agent unavailable''
               else res_bind (response_json resp) (\<lambda>local.
                    res_bind (js_field local ''device_id'') (\<lambda>d.
                    Inr \<lparr>ds_available = truthy_js d, ds_device_id = d\<rparr>))))"

text \<open>A step that may reject: what follows an await.\<close>

definition await :: "'w browser \<times> (string + 'a) \<Rightarrow> ('a \<Rightarrow> 'w browser \<Rightarrow> 'w browser \<times> (string + 'b)) \<Rightarrow> 'w browser \<times> (string + 'b)" where
  "await p f = (case p of (b, Inl e) \<Rightarrow> (b, Inl e) | (b, Inr x) \<Rightarrow> f x b)"

definition pure_js :: "string + 'a \<Rightarrow> 'w browser \<Rightarrow> 'w browser \<times> (string + 'a)" where
  "pure_js r b = (b, r)"

definition authenticate :: "'w net \<Rightarrow> jsval \<Rightarrow> 'w browser \<Rightarrow> 'w browser \<times> (string + jsval)" where
  "authenticate net deviceId b =
     await (api net (js_post ''/api/auth/challenge'' [(''device_id'', deviceId)]) b) (\<lambda>ch b.
     await (pure_js (js_field ch ''challenge'') b) (\<lambda>val b.
     await (fetch net (js_post ''/api/auth/sign'' [(''challenge'', val)]) b) (\<lambda>local b.
       if \<not> response_ok local then (b, Inl ''Local InfraPilot Agent unavailable'')
       else
     await (pure_js (response_json local) b) (\<lambda>signed b.
     await (pure_js (js_field ch ''challenge_id'') b) (\<lambda>cid b.
     await (pure_js (js_field signed ''signature'') b) (\<lambda>sig b.
     await (api net (js_post ''/api/auth/verify'' [(''challenge_id'', cid), (''signature'', sig)]) b) (\<lambda>session b.
     await (pure_js (js_field session ''session'') b) (\<lambda>tok b.
       (b\<lparr>br_session := Some (js_text tok)\<rparr>, Inr session)))))))))"

definition logout_js :: "'w net \<Rightarrow> 'w browser \<Rightarrow> 'w browser \<times> (string + jsval)" where
  "logout_js net b =
     (case api net \<lparr>rq_Method = ''POST'', rq_Path = ''/api/auth/logout'', rq_Header = [], rq_Body = []\<rparr> b of
        (b1, res) \<Rightarrow> (b1\<lparr>br_session := None\<rparr>, res))"

definition getSystem :: "'w net \<Rightarrow> 'w browser \<Rightarrow> 'w browser \<times> (string + jsval)" where
  "getSystem net b = api net (js_get ''/api/system'') b"

section \<open>The panel behind the network\<close>

text \<open>
  The world of a browser that talks to the panel: the server and the surroundings of the requests to
  come. A panic aborts the connection, which a fetch reports as a TypeError.
\<close>

type_synonym panel_world = "server \<times> env list"

definition panel_net :: "crypto \<Rightarrow> panel_world net" where
  "panel_net C r w =
     (case w of
        (sv, []) \<Rightarrow> ((sv, []), Inl ''Failed to fetch'')
      | (sv, env # envs) \<Rightarrow>
          (case handle C env r sv of
             (sv', Panic _) \<Rightarrow> ((sv', envs), Inl ''Failed to fetch'')
           | (sv', Return resp) \<Rightarrow> ((sv', envs), Inr resp)))"

lemma fetch_panel:
  assumes "handle C env r sv = (sv', Return resp)" "br_world b = (sv, env # envs)"
  shows "fetch (panel_net C) r b = (b\<lparr>br_world := (sv', envs)\<rparr>, Inr resp)"
  using assms by (simp add: fetch_def panel_net_def)

lemma await_simps [simp]:
  "await (b, Inl e) f = (b, Inl e)" "await (b, Inr x) f = f x b"
  by (simp_all add: await_def)

lemma pure_js_simps [simp]: "pure_js r b = (b, r)"
  by (simp add: pure_js_def)

definition api_header :: "'w browser \<Rightarrow> request \<Rightarrow> request" where
  "api_header b r = r\<lparr>rq_Header := (case br_session b of
      Some token \<Rightarrow> if token \<noteq> [] then set_header ''Authorization'' (''Bearer '' @ token) (rq_Header r) else rq_Header r
    | None \<Rightarrow> rq_Header r)\<rparr>"

lemma api_header_simps [simp]:
  "rq_Method (api_header b r) = rq_Method r" "rq_Path (api_header b r) = rq_Path r"
  "rq_Body (api_header b r) = rq_Body r"
  by (simp_all add: api_header_def)

lemma api_panel_ok:
  assumes "handle C env (api_header b r) sv = (sv', Return (writeJSON v))" "wf_json v"
    "br_world b = (sv, env # envs)"
  shows "api (panel_net C) r b = (b\<lparr>br_world := (sv', envs)\<rparr>, Inr (Some v))"
  using fetch_panel [OF assms(1,3)] assms(2)
  by (simp add: api_def api_header_def Let_def response_ok_def response_json_def Unmarshal_newline)

lemma api_panel_error:
  assumes "handle C env (api_header b r) sv = (sv', Return (http_Error m code))" "code \<ge> 400" "m \<noteq> []"
    "br_world b = (sv, env # envs)"
  shows "api (panel_net C) r b = (b\<lparr>br_world := (sv', envs)\<rparr>, Inl (m @ newline))"
  using fetch_panel [OF assms(1,4)] assms(2,3)
  by (simp add: api_def api_header_def Let_def response_ok_def)

lemma js_object_strs:
  "js_object [(k, Some v)] = stringify (JObj [(k, v)])"
  "js_object [(k, Some v), (l, Some w)] = stringify (JObj [(k, v), (l, w)])"
  by (simp_all add: js_object_def map_filter_simps)

lemma js_field_found [simp]:
  "js_field (Some (JObj [(k, v)])) k = Inr (Some v)"
  "k \<noteq> l \<Longrightarrow> js_field (Some (JObj [(k, v), (l, w)])) k = Inr (Some v)"
  "js_field (Some (JObj [(k, v), (l, w)])) l = Inr (Some w)"
  by (simp_all add: js_field_def)

section \<open>The login of a paired device\<close>

text \<open>The request bodies the client sends are short enough for the limited readers.\<close>

lemma challenge_request_post:
  assumes "plain_str d" "length d \<le> 2000" "d \<noteq> []"
  shows "challenge_request (api_header b (js_post ''/api/auth/challenge'' [(''device_id'', Some (JStr d))])) = Some d"
proof -
  have "Decode_limited (stringify (JObj [(''device_id'', JStr d)])) = Some (JObj [(''device_id'', JStr d)])"
    using assms by (intro Decode_limited_stringify)
      (simp_all add: stringify_def length_one_field max_body_def del: print_json.simps print_fields.simps)
  with assms(3) show ?thesis
    by (simp add: challenge_request_def js_post_def js_object_strs)
qed

lemma decode_two_fields:
  "decode_field ''challenge_id'' (JObj [(''challenge_id'', JStr c), (''signature'', JStr s)]) = Some c"
  "decode_field ''signature'' (JObj [(''challenge_id'', JStr c), (''signature'', JStr s)]) = Some s"
  by (simp_all add: decode_field_def struct_fields_def fold_eval)

lemma verify_request_post:
  assumes "length idRaw = 32" "length sig = 64"
  shows "verify_request (api_header b (js_post ''/api/auth/verify''
      [(''challenge_id'', Some (JStr (EncodeToString idRaw))), (''signature'', Some (JStr (EncodeToString sig)))]))
    = Some (EncodeToString idRaw, sig)"
proof -
  let ?v = "JObj [(''challenge_id'', JStr (EncodeToString idRaw)), (''signature'', JStr (EncodeToString sig))]"
  have "idRaw \<noteq> []" using assms by auto
  moreover have "Decode_limited (stringify ?v) = Some ?v"
    using assms by (intro Decode_limited_stringify)
      (simp_all add: stringify_def length_two_fields length_EncodeToString max_body_def
        del: print_json.simps print_fields.simps)
  ultimately show ?thesis
    by (simp add: verify_request_def verify_fields_def js_post_def js_object_strs decode_two_fields)
qed

text \<open>The proxied signature.\<close>

lemma sign_proxy:
  assumes "bridge_agent_ok (C, i)" "length v = 32"
    "ev_bridge env = (\<lambda>r. Inr (bridgeHandler C i r))"
  obtains sig resp where "sig = cr_sign C (id_privateKey i) v"
    "handle C env (js_post ''/api/auth/sign'' [(''challenge'', Some (JStr (EncodeToString v)))]) sv = (sv, Return resp)"
    "rs_Status resp = 200" "rs_Body resp = Marshal (JObj [(''signature'', JStr (EncodeToString sig))]) @ newline"
proof -
  let ?v = "JObj [(''challenge'', JStr (EncodeToString v))]"
  have len: "length (stringify ?v) \<le> max_body"
    using assms(2) by (simp add: stringify_def length_one_field length_EncodeToString max_body_def
        del: print_json.simps print_fields.simps)
  let ?sig = "cr_sign C (id_privateKey i) v"
  have sig: "rs_Status (bridgeHandler C i (json_post ''/sign'' ?v)) = 200"
      "rs_Body (bridgeHandler C i (json_post ''/sign'' ?v)) = Marshal (JObj [(''signature'', JStr (EncodeToString ?sig))]) @ newline"
    using bridge_signs [OF _ _ assms(2), of C i] assms(1) by (simp_all add: bridge_agent_ok_def)
  let ?resp = "\<lparr>rs_Status = 200, rs_Header = [(''Content-Type'', ''application/json'')],
        rs_Body = Marshal (JObj [(''signature'', JStr (EncodeToString ?sig))]) @ newline\<rparr> :: response"
  have h: "handle C env (js_post ''/api/auth/sign'' [(''challenge'', Some (JStr (EncodeToString v)))]) sv =
      (sv, Return ?resp)"
    using len sig assms(3)
    by (simp add: handle_paths js_post_def sign_def ReadAll_limited_def js_object_strs bridgeRequest_def json_post_def)
  show ?thesis by (rule that [OF refl h]) simp_all
qed

text \<open>What a login needs of the three requests it makes: working randomness and lookups, a reachable Agent, and time.\<close>

definition login_envs :: "crypto \<Rightarrow> identity \<Rightarrow> bytes \<Rightarrow> env \<Rightarrow> env \<Rightarrow> env \<Rightarrow> bool" where
  "login_envs C i tok e1 e2 e3 \<longleftrightarrow>
     ev_sql e1 SqlGet = None \<and> ev_sql e3 SqlGet = None
     \<and> (\<exists>c v. ev_rand e1 0 = Some c \<and> length c = 32 \<and> ev_rand e1 1 = Some v \<and> length v = 32)
     \<and> ev_rand e3 0 = Some tok \<and> length tok = 32
     \<and> ev_bridge e2 = (\<lambda>r. Inr (bridgeHandler C i r))
     \<and> ev_now e3 < ev_now e1 + challengeLifetime"

lemma device_id_short:
  assumes "good_identity C i"
  shows "plain_str (id_DeviceID i)" "length (id_DeviceID i) \<le> 2000"
  using assms by (auto simp: good_identity_def length_EncodeToString)

lemma api_header_post [simp]:
  "rq_Method (js_post p fs) = ''POST''" "rq_Path (js_post p fs) = p"
  by (simp_all add: js_post_def)

lemma challenge_step:
  assumes "plain_str d" "length d \<le> 2000" "d \<noteq> []"
    "ev_sql env SqlGet = None" "ev_rand env 0 = Some c" "ev_rand env 1 = Some v"
    "abs_registry (as_db (sv_auth sv)) d = Some (pub, True)"
  shows "handle C env (api_header b (js_post ''/api/auth/challenge'' [(''device_id'', Some (JStr d))])) sv =
    (sv\<lparr>sv_auth := put_challenge (EncodeToString c)
        \<lparr>ch_deviceID = d, ch_value = v, ch_expires = ev_now env + challengeLifetime\<rparr> (sv_auth sv)\<rparr>,
     Return (writeJSON (JObj [(''challenge'', JStr (EncodeToString v)), (''challenge_id'', JStr (EncodeToString c))])))"
  using challenge_request_post [OF assms(1-3), of b] assms(5,6) Challenge_issues [of "ev_sql env" "sv_auth sv" d pub c v "ev_now env"] assms(4,7)
  by (simp add: handle_paths challenge_eq)

lemma verify_step:
  assumes "length c = 32" "length sig = 64" "ev_sql env SqlGet = None" "ev_rand env 0 = Some tok"
    "as_challenges (sv_auth sv) (EncodeToString c) = Some rec" "ev_now env < ch_expires rec"
    "abs_registry (as_db (sv_auth sv)) (ch_deviceID rec) = Some (pub, True)" "length pub = 32"
    "cr_verify C pub (ch_value rec) sig"
  shows "\<exists>au. as_challenges au (EncodeToString c) = None \<and> handle C env (api_header b (js_post ''/api/auth/verify''
      [(''challenge_id'', Some (JStr (EncodeToString c))), (''signature'', Some (JStr (EncodeToString sig)))])) sv =
    (put_session (EncodeToString tok) (ev_later env + session_lifetime) (sv\<lparr>sv_auth := au\<rparr>),
     Return (writeJSON (JObj [(''session'', JStr (EncodeToString tok))])))"
proof -
  let ?r = "api_header b (js_post ''/api/auth/verify''
      [(''challenge_id'', Some (JStr (EncodeToString c))), (''signature'', Some (JStr (EncodeToString sig)))])"
  have "verify C env ?r sv = (put_session (EncodeToString tok) (ev_later env + session_lifetime)
      (sv\<lparr>sv_auth := fst (Verify C (ev_sql env) (EncodeToString c) sig (ev_now env) (sv_auth sv))\<rparr>),
     Return (writeJSON (JObj [(''session'', JStr (EncodeToString tok))])))"
    using Verify_accepts [of "sv_auth sv" "EncodeToString c" rec "ev_now env" "ev_sql env" pub C sig] assms(3-9)
    by (simp add: verify_eq [OF _ verify_request_post [OF assms(1,2)]])
  then show ?thesis by (auto simp: handle_paths intro!: exI [of _ "fst (Verify C (ev_sql env) (EncodeToString c) sig (ev_now env) (sv_auth sv))"])
qed

lemma verify_step_rejected:
  assumes "length c = 32" "length sig = 64"
    "as_challenges (sv_auth sv) (EncodeToString c) = Some rec"
    "abs_registry (as_db (sv_auth sv)) (ch_deviceID rec) = Some (pub, a)" "length pub = 32"
    "\<not> cr_verify C pub (ch_value rec) sig"
  shows "\<exists>au. as_challenges au (EncodeToString c) = None \<and> handle C env (api_header b (js_post ''/api/auth/verify''
      [(''challenge_id'', Some (JStr (EncodeToString c))), (''signature'', Some (JStr (EncodeToString sig)))])) sv =
    (sv\<lparr>sv_auth := au\<rparr>, Return (http_Error ''authentication failed'' 401))"
proof -
  let ?r = "api_header b (js_post ''/api/auth/verify''
      [(''challenge_id'', Some (JStr (EncodeToString c))), (''signature'', Some (JStr (EncodeToString sig)))])"
  let ?V = "Verify C (ev_sql env) (EncodeToString c) sig (ev_now env) (sv_auth sv)"
  have "snd ?V \<noteq> Return None"
  proof
    assume "snd ?V = Return None"
    then have "?V = (fst ?V, Return None)" by (simp add: prod_eq_iff)
    from Verify_NoneD [OF this] assms(3,4,6) show False by auto
  qed
  moreover have "snd ?V \<noteq> Panic m" for m
  proof
    assume p: "snd ?V = Panic m"
    show False
    proof (cases "Get (ev_sql env) (ch_deviceID rec) (as_db (sv_auth sv))")
      case (Inl err)
      with p assms(3) show False
        by (simp add: Verify_def take_challenge_def check_signature_def Let_def split: if_splits)
    next
      case (Inr dev)
      with Get_InrD [OF Inr] p assms(3-5) show False
        by (simp add: Verify_def take_challenge_def check_signature_def Let_def key_sizes split: if_splits)
    qed
  qed
  ultimately obtain e where "snd ?V = Return (Some e)"
    by (metis call.exhaust option.exhaust)
  then have "verify C env ?r sv = (sv\<lparr>sv_auth := fst ?V\<rparr>, Return (http_Error ''authentication failed'' 401))"
    by (subst verify_eq [OF _ verify_request_post [OF assms(1,2)]]) (cases ?V, simp)+
  then show ?thesis by (auto simp: handle_paths intro!: exI [of _ "fst (Verify C (ev_sql env) (EncodeToString c) sig (ev_now env) (sv_auth sv))"])
qed

lemma sign_fetch:
  assumes "bridge_agent_ok (C, i)" "length v = 32" "ev_bridge env = (\<lambda>r. Inr (bridgeHandler C i r))"
    "br_world b = (sv, env # envs)"
  obtains sig resp where "sig = cr_sign C (id_privateKey i) v"
    "fetch (panel_net C) (js_post ''/api/auth/sign'' [(''challenge'', Some (JStr (EncodeToString v)))]) b =
       (b\<lparr>br_world := (sv, envs)\<rparr>, Inr resp)"
    "response_ok resp" "response_json resp = Inr (Some (JObj [(''signature'', JStr (EncodeToString sig))]))"
proof -
  from sign_proxy [OF assms(1-3)] obtain sig resp where
    s: "sig = cr_sign C (id_privateKey i) v"
      "handle C env (js_post ''/api/auth/sign'' [(''challenge'', Some (JStr (EncodeToString v)))]) sv = (sv, Return resp)"
      "rs_Status resp = 200" "rs_Body resp = Marshal (JObj [(''signature'', JStr (EncodeToString sig))]) @ newline"
    by metis
  from s(3,4) have "response_ok resp"
      "response_json resp = Inr (Some (JObj [(''signature'', JStr (EncodeToString sig))]))"
    by (simp_all add: response_ok_def response_json_def Unmarshal_newline)
  with that [OF s(1) fetch_panel [OF s(2) assms(4)]] show ?thesis by blast
qed

text \<open>The conversation up to the verification, for whichever key the Agent holds.\<close>

lemma authenticate_until_verify:
  assumes i: "bridge_agent_ok (C, i)" and d: "plain_str d" "length d \<le> 2000" "d \<noteq> []"
    and reg: "abs_registry (as_db (sv_auth sv)) d = Some (pub, True)"
    and e1: "ev_sql e1 SqlGet = None" "ev_rand e1 0 = Some c" "ev_rand e1 1 = Some v" "length v = 32"
    and e2: "ev_bridge e2 = (\<lambda>r. Inr (bridgeHandler C i r))"
    and w: "br_world b = (sv, e1 # e2 # envs)"
  obtains sig sv1 where "sig = cr_sign C (id_privateKey i) v"
    "sv1 = sv\<lparr>sv_auth := put_challenge (EncodeToString c)
        \<lparr>ch_deviceID = d, ch_value = v, ch_expires = ev_now e1 + challengeLifetime\<rparr> (sv_auth sv)\<rparr>"
    "authenticate (panel_net C) (Some (JStr d)) b =
       await (api (panel_net C) (js_post ''/api/auth/verify''
          [(''challenge_id'', Some (JStr (EncodeToString c))), (''signature'', Some (JStr (EncodeToString sig)))])
          (b\<lparr>br_world := (sv1, envs)\<rparr>)) (\<lambda>session b.
       await (pure_js (js_field session ''session'') b) (\<lambda>tok b.
         (b\<lparr>br_session := Some (js_text tok)\<rparr>, Inr session)))"
proof -
  let ?sv1 = "sv\<lparr>sv_auth := put_challenge (EncodeToString c)
        \<lparr>ch_deviceID = d, ch_value = v, ch_expires = ev_now e1 + challengeLifetime\<rparr> (sv_auth sv)\<rparr>"
  let ?ch = "JObj [(''challenge'', JStr (EncodeToString v)), (''challenge_id'', JStr (EncodeToString c))]"
  let ?b1 = "b\<lparr>br_world := (?sv1, e2 # envs)\<rparr>"
  have ch: "api (panel_net C) (js_post ''/api/auth/challenge'' [(''device_id'', Some (JStr d))]) b = (?b1, Inr (Some ?ch))"
    by (rule api_panel_ok [OF challenge_step [OF d e1(1-3) reg] _ w]) simp
  obtain sig resp where s: "sig = cr_sign C (id_privateKey i) v"
    "fetch (panel_net C) (js_post ''/api/auth/sign'' [(''challenge'', Some (JStr (EncodeToString v)))]) ?b1 =
       (?b1\<lparr>br_world := (?sv1, envs)\<rparr>, Inr resp)"
    "response_ok resp" "response_json resp = Inr (Some (JObj [(''signature'', JStr (EncodeToString sig))]))"
    by (rule sign_fetch [OF i e1(4) e2, of ?b1 ?sv1 envs]) simp_all
  show ?thesis
    by (rule that [OF s(1) refl]) (simp add: authenticate_def ch s(2-4))
qed

text \<open>The verification decides: the session of a good signature, or the refusal, and the challenge spent.\<close>

lemma login_decides:
  assumes i: "bridge_agent_ok (C, i)"
    and reg: "abs_registry (as_db (sv_auth sv)) (id_DeviceID i) = Some (pub, True)" "length pub = 32"
    and envs: "login_envs C i tok e1 e2 e3" "ev_rand e1 0 = Some c" "ev_rand e1 1 = Some v"
    and w: "br_world b = (sv, e1 # e2 # e3 # envs)"
  shows "if cr_verify C pub v (cr_sign C (id_privateKey i) v)
    then \<exists>sv'. authenticate (panel_net C) (Some (JStr (id_DeviceID i))) b =
        (b\<lparr>br_world := (sv', envs), br_session := Some (EncodeToString tok)\<rparr>,
         Inr (Some (JObj [(''session'', JStr (EncodeToString tok))])))
      \<and> sv_sessions sv' = (sv_sessions sv)(EncodeToString tok \<mapsto> ev_later e3 + session_lifetime)
      \<and> as_challenges (sv_auth sv') (EncodeToString c) = None
    else \<exists>sv'. authenticate (panel_net C) (Some (JStr (id_DeviceID i))) b =
        (b\<lparr>br_world := (sv', envs)\<rparr>, Inl (''authentication failed'' @ newline))
      \<and> sv_sessions sv' = sv_sessions sv
      \<and> as_challenges (sv_auth sv') (EncodeToString c) = None"
proof -
  from i have C: "ed25519_ok C" and g: "good_identity C i" by (simp_all add: bridge_agent_ok_def)
  from envs have e1: "ev_sql e1 SqlGet = None" "ev_rand e1 0 = Some c" "ev_rand e1 1 = Some v"
      "length v = 32" "length c = 32" and e2: "ev_bridge e2 = (\<lambda>r. Inr (bridgeHandler C i r))"
      and e3: "ev_sql e3 SqlGet = None" "ev_rand e3 0 = Some tok" "ev_now e3 < ev_now e1 + challengeLifetime"
    by (auto simp: login_envs_def)
  note d = device_id_short [OF g] good_identity_signs(3) [OF C g]
  let ?rec = "\<lparr>ch_deviceID = id_DeviceID i, ch_value = v, ch_expires = ev_now e1 + challengeLifetime\<rparr>"
  from authenticate_until_verify [OF i d reg(1) e1(1-4) e2 w] obtain sig sv1 where
    sig_eq: "sig = cr_sign C (id_privateKey i) v"
    and sv1: "sv1 = sv\<lparr>sv_auth := put_challenge (EncodeToString c) ?rec (sv_auth sv)\<rparr>"
    and auth: "authenticate (panel_net C) (Some (JStr (id_DeviceID i))) b =
       await (api (panel_net C) (js_post ''/api/auth/verify''
          [(''challenge_id'', Some (JStr (EncodeToString c))), (''signature'', Some (JStr (EncodeToString sig)))])
          (b\<lparr>br_world := (sv1, e3 # envs)\<rparr>)) (\<lambda>session b.
       await (pure_js (js_field session ''session'') b) (\<lambda>tok b.
         (b\<lparr>br_session := Some (js_text tok)\<rparr>, Inr session)))" by blast
  let ?r = "js_post ''/api/auth/verify''
      [(''challenge_id'', Some (JStr (EncodeToString c))), (''signature'', Some (JStr (EncodeToString sig)))]"
  let ?b1 = "b\<lparr>br_world := (sv1, e3 # envs)\<rparr>"
  have facts: "length sig = 64" "as_challenges (sv_auth sv1) (EncodeToString c) = Some ?rec"
      "abs_registry (as_db (sv_auth sv1)) (ch_deviceID ?rec) = Some (pub, True)" "sv_sessions sv1 = sv_sessions sv"
    using good_identity_signs(1) [OF C g, of v] reg by (simp_all add: sig_eq sv1 bridge_accepts_def)
  show ?thesis
  proof (cases "cr_verify C pub v (cr_sign C (id_privateKey i) v)")
    case True
    from verify_step [OF e1(5) facts(1) e3(1,2) facts(2) _ facts(3) reg(2), of C ?b1] True e3(3)
    obtain au where spent: "as_challenges au (EncodeToString c) = None" and ver: "handle C e3 (api_header ?b1 ?r) sv1 =
      (put_session (EncodeToString tok) (ev_later e3 + session_lifetime) (sv1\<lparr>sv_auth := au\<rparr>),
       Return (writeJSON (JObj [(''session'', JStr (EncodeToString tok))])))"
      by (auto simp: sig_eq)
    let ?sv' = "put_session (EncodeToString tok) (ev_later e3 + session_lifetime) (sv1\<lparr>sv_auth := au\<rparr>)"
    have "api (panel_net C) ?r ?b1 =
        (?b1\<lparr>br_world := (?sv', envs)\<rparr>, Inr (Some (JObj [(''session'', JStr (EncodeToString tok))])))"
      by (rule api_panel_ok [OF ver]) simp_all
    then show ?thesis
      using True spent facts(4) by (auto simp: auth js_text_def intro!: exI [of _ ?sv'])
  next
    case False
    from verify_step_rejected [OF e1(5) facts(1,2,3) reg(2), of C e3 ?b1] False
    obtain au where spent: "as_challenges au (EncodeToString c) = None" and ver: "handle C e3 (api_header ?b1 ?r) sv1 =
      (sv1\<lparr>sv_auth := au\<rparr>, Return (http_Error ''authentication failed'' 401))"
      by (auto simp: sig_eq)
    have "api (panel_net C) ?r ?b1 =
        (?b1\<lparr>br_world := (sv1\<lparr>sv_auth := au\<rparr>, envs)\<rparr>, Inl (''authentication failed'' @ newline))"
      by (rule api_panel_error [OF ver]) simp_all
    then show ?thesis
      using False spent facts(4) by (auto simp: auth intro!: exI [of _ "sv1\<lparr>sv_auth := au\<rparr>"])
  qed
qed

lemma login_succeeds:
  assumes i: "bridge_agent_ok (C, i)"
    and reg: "abs_registry (as_db (sv_auth sv)) (id_DeviceID i) = Some (id_PublicKey i, True)"
    and envs: "login_envs C i tok e1 e2 e3"
    and w: "br_world b = (sv, e1 # e2 # e3 # envs)"
  shows "\<exists>sv'. authenticate (panel_net C) (Some (JStr (id_DeviceID i))) b =
      (b\<lparr>br_world := (sv', envs), br_session := Some (EncodeToString tok)\<rparr>,
       Inr (Some (JObj [(''session'', JStr (EncodeToString tok))])))
    \<and> sv_sessions sv' = (sv_sessions sv)(EncodeToString tok \<mapsto> ev_later e3 + session_lifetime)"
proof -
  from i have ok: "ed25519_ok C" "good_identity C i" by (simp_all add: bridge_agent_ok_def)
  from envs obtain c v where r: "ev_rand e1 0 = Some c" "ev_rand e1 1 = Some v" by (auto simp: login_envs_def)
  have "cr_verify C (id_PublicKey i) v (cr_sign C (id_privateKey i) v)"
    using good_identity_signs(1) [OF ok, of v] by (simp add: bridge_accepts_def)
  with login_decides [OF i reg good_identity_signs(2) [OF ok] envs r w] show ?thesis by auto
qed

text \<open>With a session the system page loads until the session's last instant.\<close>

lemma bearer_of_session:
  assumes "br_session b = Some (EncodeToString tok)" "tok \<noteq> []"
  shows "bearer (api_header b (js_get path)) = EncodeToString tok"
  using assms
  by (simp add: bearer_def api_header_def js_get_def set_header_def TrimPrefix_def HasPrefix_def)

lemma getSystem_admitted:
  assumes "br_session b = Some (EncodeToString tok)" "tok \<noteq> []" "br_world b = (sv, env # envs)"
    "sv_sessions sv (EncodeToString tok) = Some t" "ev_now env \<le> t"
  shows "getSystem (panel_net C) b =
    (b\<lparr>br_world := (sv, envs)\<rparr>, Inr (Some (Info_json (Collect (ev_host env)))))"
proof -
  let ?r = "api_header b (js_get ''/api/system'')"
  have r: "rq_Path ?r = ''/api/system''" by (simp add: js_get_def)
  have "bearer ?r = EncodeToString tok" by (rule bearer_of_session [OF assms(1,2)])
  then have "handle C env ?r sv = system_handler C env ?r sv"
    unfolding handle_paths(8) [OF r] using assms(2,4,5) by (intro protected_admits) simp_all
  then have "handle C env ?r sv = (sv, Return (writeJSON (Info_json (Collect (ev_host env)))))"
    by (simp add: system_handler_def)
  from api_panel_ok [OF this _ assms(3)] show ?thesis by (simp add: getSystem_def)
qed

section \<open>app.js\<close>

text \<open>
  The script without a framework. Its page is the text it assigns to \<open>innerHTML\<close> (values are
  concatenated in as they are), with the device the login button is for, or a message.
\<close>

definition el :: "string \<Rightarrow> (string \<times> string) list \<Rightarrow> string \<Rightarrow> string" where
  "el tag attrs body =
     ''<'' @ tag @ concat (map (\<lambda>(k, v). '' '' @ k @ ''='' @ [CHR 0x22] @ v @ [CHR 0x22]) attrs) @ ''>''
     @ body @ ''</'' @ tag @ ''>''"

definition cls :: "string \<Rightarrow> (string \<times> string) list" where
  "cls c = [(''class'', c)]"

datatype page =
    ConnectPage string "jsval option"
  | ShowPage string
  | MessagePage string

definition connect_html :: "bool \<Rightarrow> string \<Rightarrow> string" where
  "connect_html available device =
     el ''section'' (cls ''connect'')
       (el ''div'' (cls ''mark'') ''IP'' @ el ''h1'' [] ''Welcome to InfraPilot''
        @ el ''p'' [] (if available then ''Device detected'' else ''No device detected'')
        @ (if available
           then el ''p'' (cls ''muted'') (''Device: '' @ device) @ el ''button'' [(''id'', ''login'')] ''Authenticate''
           else el ''p'' (cls ''muted'') (''Run '' @ el ''code'' [] ''infrapilot sk create'' @ '', then refresh.''))
        @ el ''p'' [(''id'', ''error''), (''class'', ''muted'')] ''The private key stays in the local Agent.'')"

definition show_html :: "string \<Rightarrow> string \<Rightarrow> string \<Rightarrow> string" where
  "show_html os kern cpus =
     el ''div'' (cls ''dashboard'')
       (el ''header'' (cls ''top'')
          (el ''div'' [] (el ''div'' (cls ''eyebrow'') ''Infrastructure control plane'' @ el ''h1'' [] ''InfraPilot'')
           @ el ''span'' (cls ''status'') ''Connected'')
        @ el ''section'' (cls ''grid'')
          (el ''article'' (cls ''card'') (el ''h2'' [] ''System'' @ el ''div'' (cls ''value'') os @ el ''p'' (cls ''muted'') kern)
           @ el ''article'' (cls ''card'') (el ''h2'' [] ''Compute'' @ el ''div'' (cls ''value'') (cpus @ '' CPUs''))
           @ el ''article'' (cls ''card'') (el ''h2'' [] ''Services'' @ el ''div'' (cls ''value status'') ''Agent'')
           @ el ''article'' (cls ''card'') (el ''h2'' [] ''Modules'' @ el ''div'' (cls ''empty'') ''No modules installed'')))"

definition show_js :: "jsval \<Rightarrow> string + string" where
  "show_js system =
     res_bind (js_field system ''os'') (\<lambda>os. res_bind (js_field system ''kernel'') (\<lambda>kern.
     res_bind (js_field system ''cpus'') (\<lambda>cpus.
       Inr (show_html (js_text (js_or os ''Unknown'')) (js_text (js_or kern [])) (js_text (js_or cpus ''--''))))))"

definition load_js :: "'w net \<Rightarrow> 'w browser \<Rightarrow> 'w browser \<times> page" where
  "load_js net b =
     (case await (fetch net (js_get ''/api/system'') b) (\<lambda>r b.
         if rs_Status r = 401 then
           await (fetch net (js_get ''/api/auth/discover'') b) (\<lambda>x b.
           await (pure_js (response_json x) b) (\<lambda>d b.
           await (pure_js (js_field d ''available'') b) (\<lambda>av b.
           await (pure_js (js_field d ''device_id'') b) (\<lambda>dev b.
             (b, Inr (ConnectPage (connect_html (truthy_js av) (js_text dev)) (if truthy_js av then Some dev else None)))))))
         else
           await (pure_js (response_json r) b) (\<lambda>system b.
           await (pure_js (show_js system) b) (\<lambda>h b. (b, Inr (ShowPage h))))) of
        (b, Inl _) \<Rightarrow> (b, MessagePage ''Unable to connect'')
      | (b, Inr pg) \<Rightarrow> (b, pg))"

text \<open>
  A request to another origin with a JSON body: the browser asks first with OPTIONS, and hands the
  answer over only if it names the origin or any.
\<close>

definition cors_allows :: "response \<Rightarrow> bool" where
  "cors_allows r \<longleftrightarrow> Header_Get ''Access-Control-Allow-Origin'' (rs_Header r) = ''*''"

definition preflight_ok :: "response \<Rightarrow> bool" where
  "preflight_ok r \<longleftrightarrow> response_ok r \<and> cors_allows r
     \<and> EqualFold (Header_Get ''Access-Control-Allow-Headers'' (rs_Header r)) ''Content-Type''"

definition cors_fetch :: "'w net \<Rightarrow> request \<Rightarrow> 'w browser \<Rightarrow> 'w browser \<times> (string + response)" where
  "cors_fetch net r b =
     await (fetch net \<lparr>rq_Method = ''OPTIONS'', rq_Path = rq_Path r, rq_Header = [], rq_Body = []\<rparr> b) (\<lambda>pre b.
       if \<not> preflight_ok pre then (b, Inl ''Failed to fetch'')
       else await (fetch net r b) (\<lambda>resp b.
         if cors_allows resp then (b, Inr resp) else (b, Inl ''Failed to fetch'')))"

definition login_js :: "'w net \<Rightarrow> jsval \<Rightarrow> 'w browser \<Rightarrow> 'w browser \<times> page" where
  "login_js net dev b =
     (case await (fetch net (js_post ''/api/auth/challenge'' [(''device_id'', dev)]) b) (\<lambda>r b.
         if \<not> response_ok r then (b, Inl ''Device not paired'') else
         await (pure_js (response_json r) b) (\<lambda>c b.
         await (pure_js (js_field c ''challenge'') b) (\<lambda>ch b.
         await (cors_fetch net (js_post ''http://127.0.0.1:8091/sign'' [(''challenge'', ch)]) b) (\<lambda>s b.
         if \<not> response_ok s then (b, Inl ''Local Agent unavailable'') else
         await (pure_js (response_json s) b) (\<lambda>sg b.
         await (pure_js (js_field c ''challenge_id'') b) (\<lambda>cid b.
         await (pure_js (js_field sg ''signature'') b) (\<lambda>sig b.
         await (fetch net (js_post ''/api/auth/verify'' [(''challenge_id'', cid), (''signature'', sig)]) b) (\<lambda>r b.
         if \<not> response_ok r then (b, Inl ''Device authentication failed'') else
         await (pure_js (response_json r) b) (\<lambda>session b.
         await (pure_js (js_field session ''session'') b) (\<lambda>tok b.
         (let b = b\<lparr>br_session := Some (js_text tok)\<rparr> in
         await (fetch net ((js_get ''/api/system'')\<lparr>rq_Header := [(''Authorization'', ''Bearer '' @ js_text tok)]\<rparr>) b) (\<lambda>x b.
         await (pure_js (response_json x) b) (\<lambda>dat b.
         await (pure_js (show_js dat) b) (\<lambda>h b. (b, Inr (ShowPage h)))))))))))))))) of
        (b, Inl e) \<Rightarrow> (b, MessagePage e)
      | (b, Inr pg) \<Rightarrow> (b, pg))"

text \<open>What the server's system description gives under the names the pages ask for.\<close>

lemma map_of_rev_lacks: "k \<notin> set (map fst fs) \<Longrightarrow> map_of (rev fs) k = None"
  by (simp add: map_of_eq_None_iff)

lemma Info_lacks [simp]:
  "js_field (Some (Info_json i)) ''os'' = Inr None"
  "js_field (Some (Info_json i)) ''kernel'' = Inr None"
  "js_field (Some (Info_json i)) ''cpus'' = Inr None"
  "js_field (Some (Info_json i)) ''memory'' = Inr None"
  "js_field (Some (Info_json i)) ''disk'' = Inr None"
  "js_field (Some (Info_json i)) ''uptime'' = Inr None"
  "js_field (Some (Info_json i)) ''architecture'' = Inr None"
  unfolding js_field_def Info_json_def
  by (simp_all only: option.case json.case sum.inject, rule_tac [!] map_of_rev_lacks, simp_all)

lemma show_Info: "show_js (Some (Info_json i)) = Inr (show_html ''Unknown'' [] ''--'')"
  by (simp add: show_js_def js_or_def truthy_js_def js_text_def)

section \<open>Scripts of other origins\<close>

text \<open>The Agent's TCP listener as a browser reaches it, at \<open>http://127.0.0.1:8091\<close>.\<close>

definition bridge_url :: string where "bridge_url = ''http://127.0.0.1:8091''"

definition bridge_net :: "crypto \<Rightarrow> identity \<Rightarrow> unit net" where
  "bridge_net C i r w =
     ((), if HasPrefix (rq_Path r) bridge_url
          then Inr (bridgeHandler C i (r\<lparr>rq_Path := TrimPrefix (rq_Path r) bridge_url\<rparr>))
          else Inl ''Failed to fetch'')"

lemma bridge_cors:
  assumes "rq_Path r = bridge_url @ ''/sign''"
  shows "bridge_net C i r w = ((), Inr (sign_handler C i (r\<lparr>rq_Path := ''/sign''\<rparr>)))"
  using assms by (simp add: bridge_net_def bridgeHandler_def HasPrefix_def TrimPrefix_def)

lemma sign_handler_cors [simp]: "cors_allows (sign_handler C i r)"
  by (simp add: cors_allows_def sign_handler_def with_headers_def)

lemma sign_handler_preflight: "rq_Method r = ''OPTIONS'' \<Longrightarrow> preflight_ok (sign_handler C i r)"
  by (simp add: preflight_ok_def response_ok_def sign_handler_def with_headers_def cors_allows_def fold_eval)

section \<open>Properties\<close>

text \<open>
  C13. A login over the panel, its lookups and random reads working and in time, is decided by the key that is
  registered for the Agent's device id: when the signature the Agent's key gives over the issued challenge
  verifies under the registered key, the panel makes the session of its random token and the browser
  stores it; otherwise the page is told that authentication failed, no session is made and the browser
  stores none. Either way the challenge is spent.
\<close>

theorem login_needs_registered_key:
  assumes "bridge_agent_ok (C, i)"
    and "abs_registry (as_db (sv_auth sv)) (id_DeviceID i) = Some (pub, True)" "length pub = 32"
    and "login_envs C i tok e1 e2 e3" "ev_rand e1 0 = Some c" "ev_rand e1 1 = Some v"
    and "br_world b = (sv, e1 # e2 # e3 # envs)"
  shows "if cr_verify C pub v (cr_sign C (id_privateKey i) v)
    then \<exists>sv'. authenticate (panel_net C) (Some (JStr (id_DeviceID i))) b =
        (b\<lparr>br_world := (sv', envs), br_session := Some (EncodeToString tok)\<rparr>,
         Inr (Some (JObj [(''session'', JStr (EncodeToString tok))])))
      \<and> sv_sessions sv' = (sv_sessions sv)(EncodeToString tok \<mapsto> ev_later e3 + session_lifetime)
      \<and> as_challenges (sv_auth sv') (EncodeToString c) = None
    else \<exists>sv'. authenticate (panel_net C) (Some (JStr (id_DeviceID i))) b =
        (b\<lparr>br_world := (sv', envs)\<rparr>, Inl (''authentication failed'' @ newline))
      \<and> sv_sessions sv' = sv_sessions sv
      \<and> as_challenges (sv_auth sv') (EncodeToString c) = None"
  by (rule login_decides [OF assms])

definition other_seed :: bytes where "other_seed = replicate 32 CHR ''o''"

definition other_identity :: identity where
  "other_identity = \<lparr>id_DeviceID = EncodeToString (replicate 16 CHR ''d''), id_PublicKey = other_seed,
     id_privateKey = other_seed @ other_seed\<rparr>"

lemma other_agent_ok: "bridge_agent_ok (toy_crypto, other_identity)"
proof -
  have "generated_key toy_crypto (other_seed @ other_seed)"
    unfolding generated_key_def by (intro exI [of _ other_seed]) (simp add: toy_crypto_def other_seed_def)
  moreover have "public_of (other_seed @ other_seed) = other_seed" by (simp add: public_of_def other_seed_def)
  moreover have "\<exists>b. b \<noteq> [] \<and> length b \<le> 1024 \<and> EncodeToString (replicate 16 CHR ''d'') = EncodeToString b"
    by (intro exI [of _ "replicate 16 CHR ''d''"]) simp
  ultimately show ?thesis
    by (simp add: bridge_agent_ok_def good_identity_def other_identity_def toy_crypto_ok)
qed

definition toy_env2 :: env where
  "toy_env2 = toy_env\<lparr>ev_bridge := (\<lambda>r. Inr (bridgeHandler toy_crypto other_identity r))\<rparr>"

theorem login_needs_registered_key_witness:
  "(\<exists>sv'. authenticate (panel_net toy_crypto) (Some (JStr (id_DeviceID other_identity)))
      \<lparr>br_session = None, br_world = (New_server toy_db, [toy_env, toy_env2, toy_env])\<rparr> =
      (\<lparr>br_session = None, br_world = (sv', [])\<rparr>, Inl (''authentication failed'' @ newline)))
   \<and> (\<exists>sv'. fst (authenticate (panel_net toy_crypto) (Some (JStr (id_DeviceID toy_identity)))
      \<lparr>br_session = None, br_world = (New_server toy_db, [toy_env, toy_env, toy_env])\<rparr>) =
      \<lparr>br_session = Some toy_session, br_world = (sv', [])\<rparr>)"
proof -
  have reg: "abs_registry (as_db (sv_auth (New_server toy_db))) (id_DeviceID j) = Some (toy_seed, True)"
    if "id_DeviceID j = id_DeviceID toy_identity" for j
    using toy_registry that by (simp add: New_server_def NewAuthenticator_def)
  have same: "id_DeviceID other_identity = id_DeviceID toy_identity" by (simp add: other_identity_def)
  have r: "ev_rand toy_env 0 = Some (replicate 32 CHR ''c'')" "ev_rand toy_env 1 = Some toy_value"
    by (simp_all add: toy_env_def)
  have envs: "login_envs toy_crypto other_identity (replicate 32 CHR ''c'') toy_env toy_env2 toy_env"
      "login_envs toy_crypto toy_identity (replicate 32 CHR ''c'') toy_env toy_env toy_env"
    by (simp_all add: login_envs_def toy_env_def toy_env2_def sql_ok_def toy_value_def challengeLifetime_def time_units)
  have ne: "hd toy_seed \<noteq> hd other_seed" by (simp add: toy_seed_def other_seed_def numeral_eq_Suc)
  have diff: "toy_seed @ x \<noteq> other_seed @ y" for x y
    using ne by (metis hd_append2 length_0_conv toy_seed_length zero_neq_numeral other_seed_def length_replicate)
  have no: "\<not> cr_verify toy_crypto toy_seed toy_value (cr_sign toy_crypto (id_privateKey other_identity) toy_value)"
    using diff [of "[]" "[]"] by (auto simp: toy_crypto_def other_identity_def public_of_def other_seed_def)
  have toy_ok: "bridge_agent_ok (toy_crypto, toy_identity)"
    by (simp add: bridge_agent_ok_def toy_crypto_ok toy_identity_good)
  have yes: "cr_verify toy_crypto toy_seed toy_value (cr_sign toy_crypto (id_privateKey toy_identity) toy_value)"
    using good_identity_signs(1) [OF toy_crypto_ok toy_identity_good, of toy_value] by (simp add: bridge_accepts_def)
  from login_needs_registered_key [OF other_agent_ok reg [OF same] _ envs(1) r,
      of "\<lparr>br_session = None, br_world = (New_server toy_db, [toy_env, toy_env2, toy_env])\<rparr>" "[]"] no
    login_needs_registered_key [OF toy_ok reg [OF refl] _ envs(2) r,
      of "\<lparr>br_session = None, br_world = (New_server toy_db, [toy_env, toy_env, toy_env])\<rparr>" "[]"] yes
  show ?thesis by (auto simp: toy_session_def)
qed

text \<open>
  The Agent's TCP listener signs for every web page: a script of any origin passes the browser's preflight
  and receives the device's signature over a 32-byte challenge of its choice.
\<close>

theorem any_origin_obtains_signature:
  assumes "bridge_agent_ok (C, i)" "length v = 32"
  shows "\<exists>resp sig. cors_fetch (bridge_net C i)
      (js_post (bridge_url @ ''/sign'') [(''challenge'', Some (JStr (EncodeToString v)))]) b = (b, Inr resp)
    \<and> response_json resp = Inr (Some (JObj [(''signature'', JStr (EncodeToString sig))]))
    \<and> bridge_accepts (C, i) v sig"
proof -
  let ?r = "js_post (bridge_url @ ''/sign'') [(''challenge'', Some (JStr (EncodeToString v)))]"
  let ?v = "JObj [(''challenge'', JStr (EncodeToString v))]"
  from assms(1) have ok: "ed25519_ok C" "good_identity C i" by (simp_all add: bridge_agent_ok_def)
  have b: "b\<lparr>br_world := ()\<rparr> = b" by (cases b) simp
  have resp: "sign_handler C i (?r\<lparr>rq_Path := ''/sign''\<rparr>) = bridgeHandler C i (json_post ''/sign'' ?v)"
    by (simp add: bridgeHandler_def js_post_def json_post_def js_object_strs)
  have pre: "fetch (bridge_net C i) \<lparr>rq_Method = ''OPTIONS'', rq_Path = bridge_url @ ''/sign'', rq_Header = [], rq_Body = []\<rparr> b =
      (b, Inr (sign_handler C i \<lparr>rq_Method = ''OPTIONS'', rq_Path = ''/sign'', rq_Header = [], rq_Body = []\<rparr>))"
    by (simp add: fetch_def bridge_cors b)
  have post: "fetch (bridge_net C i) ?r b = (b, Inr (bridgeHandler C i (json_post ''/sign'' ?v)))"
    using resp by (simp add: fetch_def bridge_cors js_post_def b)
  have "cors_allows (bridgeHandler C i (json_post ''/sign'' ?v))"
    by (simp flip: resp)
  then have "cors_fetch (bridge_net C i) ?r b = (b, Inr (bridgeHandler C i (json_post ''/sign'' ?v)))"
    by (simp add: cors_fetch_def pre post sign_handler_preflight)
  moreover have "response_json (bridgeHandler C i (json_post ''/sign'' ?v)) =
      Inr (Some (JObj [(''signature'', JStr (EncodeToString (cr_sign C (id_privateKey i) v)))]))"
    by (simp add: bridge_signs [OF ok assms(2)] response_json_def Unmarshal_newline)
  ultimately show ?thesis using good_identity_signs(1) [OF ok, of v] by blast
qed

theorem any_origin_obtains_signature_witness:
  "\<exists>resp sig. snd (cors_fetch (bridge_net toy_crypto other_identity)
      (js_post (bridge_url @ ''/sign'') [(''challenge'', Some (JStr (EncodeToString toy_value)))])
      \<lparr>br_session = None, br_world = ()\<rparr>) = Inr resp
    \<and> bridge_accepts (toy_crypto, other_identity) toy_value sig"
  using any_origin_obtains_signature [OF other_agent_ok, of toy_value "\<lparr>br_session = None, br_world = ()\<rparr>"]
  by (auto simp: toy_value_def)

text \<open>
  \<open>app.js\<close> never starts on the dashboard: its first request carries no token, so whatever the browser has
  stored, the panel answers 401 and the script shows the connect page or its error message.
\<close>

theorem appjs_ignores_stored_session: "\<forall>h. snd (load_js (panel_net C) b) \<noteq> ShowPage h"
proof -
  have no: "snd (handle C env (js_get ''/api/system'') sv) = Return (http_Error ''authentication required'' 401)" for env sv
    by (rule protected_path_refuses) (simp_all add: protected_path_def js_get_def bearer_def TrimPrefix_def HasPrefix_def)
  obtain sv envs where w: "br_world b = (sv, envs)" by (cases "br_world b")
  show ?thesis
  proof (cases envs)
    case Nil
    with w show ?thesis by (simp add: load_js_def fetch_def panel_net_def)
  next
    case (Cons env rest)
    obtain sv' where h: "handle C env (js_get ''/api/system'') sv = (sv', Return (http_Error ''authentication required'' 401))"
      using no [of env sv] by (cases "handle C env (js_get ''/api/system'') sv") simp
    have "fetch (panel_net C) (js_get ''/api/system'') b =
        (b\<lparr>br_world := (sv', rest)\<rparr>, Inr (http_Error ''authentication required'' 401))"
      by (rule fetch_panel [OF h]) (simp add: w Cons)
    then show ?thesis
      by (simp add: load_js_def await_def split: prod.splits sum.splits)
  qed
qed

end
