(* ===== verification/Web_Views.thy ===== *)
theory Web_Views
  imports Web_Client
begin

text \<open>
  The React components of \<open>web-ui/src\<close>: each is a function from its props to the tree it returns, and
  \<open>App\<close>, \<open>Login\<close> and \<open>Dashboard\<close> are state machines whose transitions are their effects and handlers.
  A click handler is named in the tree by the action it runs.
\<close>

section \<open>Trees\<close>

datatype action = NoAction | AuthenticateDevice | Retry | SignOut

datatype vdom = Txt string | El string "(string \<times> string) list" action "vdom list"

definition node :: "string \<Rightarrow> string \<Rightarrow> vdom list \<Rightarrow> vdom" where
  "node tag c kids = El tag (if c = [] then [] else [(''className'', c)]) NoAction kids"

definition link :: "string \<Rightarrow> string \<Rightarrow> vdom" where
  "link href label = El ''a'' [(''href'', href)] NoAction [Txt label]"

text \<open>The text a tree shows, depth first.\<close>

fun texts :: "vdom \<Rightarrow> string list" where
  "texts (Txt s) = [s]"
| "texts (El _ _ _ kids) = concat (map texts kids)"

fun actions :: "vdom \<Rightarrow> action list" where
  "actions (Txt _) = []"
| "actions (El _ _ a kids) = (if a = NoAction then [] else [a]) @ concat (map actions kids)"

section \<open>Components\<close>

definition Loading :: "string \<Rightarrow> vdom" where
  "Loading label = node ''div'' ''state''
     [El ''span'' [(''className'', ''spinner''), (''aria-hidden'', ''true'')] NoAction [], node ''span'' [] [Txt label]]"

definition loading_label :: string where "loading_label = ''Loading data...''"

definition EmptyState :: "string \<Rightarrow> string \<Rightarrow> vdom" where
  "EmptyState title detail = node ''div'' ''empty-state''
     [node ''strong'' [] [Txt title], node ''p'' ''muted'' [Txt detail]]"

definition MetricCard :: "string \<Rightarrow> string \<Rightarrow> string \<Rightarrow> string \<Rightarrow> vdom" where
  "MetricCard label val detail icon = node ''article'' ''metric panel''
     ([node ''div'' ''metric-top'' [node ''span'' ''muted'' [Txt label], node ''span'' ''metric-icon'' [Txt icon]],
       node ''strong'' [] [Txt val]] @ (if detail = [] then [] else [node ''p'' ''muted'' [Txt detail]]))"

definition ErrorState :: "string \<Rightarrow> bool \<Rightarrow> vdom" where
  "ErrorState message retry = node ''div'' ''state error-state''
     ([node ''strong'' [] [Txt ''Unable to load this view''], node ''span'' [] [Txt message]]
      @ (if retry then [El ''button'' [] Retry [Txt ''Try again'']] else []))"

definition Panel :: "string \<Rightarrow> vdom list \<Rightarrow> vdom" where
  "Panel title kids = node ''article'' ''panel'' (node ''h2'' [] [Txt title] # kids)"

definition StatusBadge :: "string \<Rightarrow> string \<Rightarrow> vdom" where
  "StatusBadge label tone = node ''span'' (''badge '' @ tone) [Txt label]"

abbreviation online :: string where "online \<equiv> ''online''"

definition Layout :: "vdom list \<Rightarrow> vdom" where
  "Layout kids = node ''div'' ''app-layout''
    [node ''aside'' ''sidebar''
      [node ''div'' ''brand-row'' [node ''span'' ''brand-mark'' [Txt ''IP''], node ''strong'' [] [Txt ''InfraPilot'']],
       node ''nav'' [] [El ''a'' [(''className'', ''active''), (''href'', ''#dashboard'')] NoAction [Txt ''Dashboard''],
         link ''#servers'' ''Servers'', link ''#modules'' ''Modules'', link ''#services'' ''Services'',
         link ''#settings'' ''Settings''],
       node ''div'' ''sidebar-foot'' [node ''span'' ''muted'' [Txt ''Local control plane''], StatusBadge ''Secure'' online]],
     node ''div'' ''content''
      (node ''header'' ''topbar''
        [node ''div'' [] [node ''span'' ''eyebrow'' [Txt ''Operations overview''], node ''h1'' [] [Txt ''Dashboard'']],
         node ''div'' ''top-actions'' [StatusBadge ''Connected'' online,
           node ''span'' ''device-label'' [Txt ''Device authenticated''],
           El ''button'' [(''className'', ''ghost'')] SignOut [Txt ''Log out'']]]
       # kids)]"

section \<open>Dashboard\<close>

record dash_state =
  da_system :: jsval
  da_error :: string

definition dash_init :: dash_state where
  "dash_init = \<lparr>da_system = None, da_error = []\<rparr>"

text \<open>\<open>load\<close>: both pieces of state are cleared, then set from what the request brings.\<close>

definition dash_load :: "'w net \<Rightarrow> 'w browser \<Rightarrow> 'w browser \<times> dash_state" where
  "dash_load net b =
     (case getSystem net b of
        (b1, Inr sys) \<Rightarrow> (b1, \<lparr>da_system = sys, da_error = []\<rparr>)
      | (b1, Inl _) \<Rightarrow> (b1, \<lparr>da_system = None, da_error = ''The Agent did not return system information.''\<rparr>))"

definition js_prop :: "jsval \<Rightarrow> string \<Rightarrow> jsval" where
  "js_prop v name = (case js_field v name of Inl _ \<Rightarrow> None | Inr x \<Rightarrow> x)"

definition shown :: "jsval \<Rightarrow> string \<Rightarrow> string \<Rightarrow> string" where
  "shown system name dflt = js_text (js_or (js_prop system name) dflt)"

definition detail_row :: "string \<Rightarrow> string \<Rightarrow> vdom" where
  "detail_row label val = node ''div'' [] [node ''span'' ''muted'' [Txt label], node ''strong'' [] [Txt val]]"

definition service_row :: "string \<Rightarrow> string \<Rightarrow> string \<Rightarrow> vdom" where
  "service_row name detail badge = node ''div'' ''service-row''
     [node ''div'' [] [node ''strong'' [] [Txt name], node ''p'' ''muted'' [Txt detail]], StatusBadge badge online]"

text \<open>The middle dot of the session line is the two bytes of its UTF-8 encoding.\<close>

definition middle_dot :: string where "middle_dot = [CHR 0xC2, CHR 0xB7]"

definition Dashboard :: "dash_state \<Rightarrow> vdom" where
  "Dashboard st =
    (if da_error st \<noteq> [] then Layout [ErrorState (da_error st) True]
     else if \<not> truthy_js (da_system st) then Layout [Loading loading_label]
     else (let sys = da_system st in Layout
       [node ''section'' ''welcome''
         [node ''div'' [] [node ''p'' ''eyebrow'' [Txt ''System overview''], node ''h2'' [] [Txt ''Good morning''],
            node ''p'' ''muted'' [Txt ''A clear view of your local infrastructure.'']],
          StatusBadge ''All systems operational'' online],
        node ''section'' ''metric-grid''
         [MetricCard ''CPU cores'' (shown sys ''cpus'' ''--'') ''Available to Agent'' ''CPU'',
          MetricCard ''Memory'' (shown sys ''memory'' ''--'') ''Current host capacity'' ''RAM'',
          MetricCard ''Disk'' (shown sys ''disk'' ''--'') ''Primary volume'' ''DSK'',
          MetricCard ''Uptime'' (shown sys ''uptime'' ''--'') ''Since last restart'' ''UP''],
        node ''section'' ''dashboard-grid''
         [Panel ''System'' [node ''div'' ''details''
            [detail_row ''Operating system'' (shown sys ''os'' ''Unknown''),
             detail_row ''Kernel'' (shown sys ''kernel'' ''Unknown''),
             detail_row ''Architecture'' (shown sys ''architecture'' ''--'')]],
          Panel ''Services'' [service_row ''InfraPilot Agent'' ''Control plane'' ''Running'',
             service_row ''Web Panel'' ''Local interface'' ''Connected''],
          Panel ''Connection'' [node ''div'' ''details''
            [detail_row ''Authentication'' ''Ed25519 device identity'',
             detail_row ''Session'' (''Active '' @ middle_dot @ '' 15 minutes'')]],
          Panel ''Modules'' [EmptyState ''No modules installed''
             ''Optional infrastructure modules will appear here when available.'']]]))"

section \<open>Login\<close>

record login_state =
  lg_state :: string
  lg_id :: jsval

definition login_init :: login_state where
  "login_init = \<lparr>lg_state = ''Searching for InfraPilot Agent...'', lg_id = Some (JStr [])\<rparr>"

definition login_mount :: "'w net \<Rightarrow> 'w browser \<Rightarrow> 'w browser \<times> login_state" where
  "login_mount net b =
     (case discover_js net b of
        (b1, Inl _) \<Rightarrow> (b1, login_init\<lparr>lg_state := ''Unable to reach the Web Panel.''\<rparr>)
      | (b1, Inr d) \<Rightarrow>
          (b1, if ds_available d
               then \<lparr>lg_state = ''Device detected.'', lg_id = js_or (ds_device_id d) []\<rparr>
               else login_init\<lparr>lg_state := ''Device not found. Run infrapilot sk create.''\<rparr>))"

text \<open>The click: the flag is the call of \<open>onSuccess\<close>.\<close>

definition login_click :: "'w net \<Rightarrow> login_state \<Rightarrow> 'w browser \<Rightarrow> 'w browser \<times> login_state \<times> bool" where
  "login_click net st b =
     (case authenticate net (lg_id st) b of
        (b1, Inr _) \<Rightarrow> (b1, st\<lparr>lg_state := ''Signing challenge...''\<rparr>, True)
      | (b1, Inl e) \<Rightarrow> (b1, st\<lparr>lg_state := e\<rparr>, False))"

definition Login :: "login_state \<Rightarrow> vdom" where
  "Login st = node ''main'' ''auth'' [node ''div'' ''auth-card''
     ([node ''div'' ''brand-mark large'' [Txt ''IP''],
       node ''p'' ''eyebrow'' [Txt ''Secure infrastructure control plane''],
       node ''h1'' [] [Txt ''Welcome to InfraPilot''], node ''p'' ''muted'' [Txt (lg_state st)]]
      @ (if truthy_js (lg_id st)
         then [node ''div'' ''device-found'' [node ''span'' ''dot'' [], Txt '' Paired device detected''],
               El ''button'' [] AuthenticateDevice [Txt ''Authenticate device'']]
         else [])
      @ (if \<not> truthy_js (lg_id st) \<and> Contains (lg_state st) ''not found''
         then [node ''p'' ''hint'' [Txt ''Create a local identity, then refresh this page.'']] else []))]"

section \<open>App\<close>

datatype app = OnLogin login_state | OnDashboard dash_state

text \<open>\<open>useState(Boolean(sessionStorage.getItem(...)))\<close> chooses the first page; mounting runs its effect.\<close>

definition App_start :: "'w net \<Rightarrow> 'w browser \<Rightarrow> 'w browser \<times> app" where
  "App_start net b =
     (if (case br_session b of None \<Rightarrow> False | Some s \<Rightarrow> s \<noteq> [])
      then (case dash_load net b of (b1, st) \<Rightarrow> (b1, OnDashboard st))
      else (case login_mount net b of (b1, st) \<Rightarrow> (b1, OnLogin st)))"

fun App_act :: "'w net \<Rightarrow> action \<Rightarrow> app \<Rightarrow> 'w browser \<Rightarrow> 'w browser \<times> app" where
  "App_act net AuthenticateDevice (OnLogin st) b =
     (case login_click net st b of
        (b1, st1, True) \<Rightarrow> (case dash_load net b1 of (b2, d) \<Rightarrow> (b2, OnDashboard d))
      | (b1, st1, False) \<Rightarrow> (b1, OnLogin st1))"
| "App_act net Retry (OnDashboard st) b = (case dash_load net b of (b1, d) \<Rightarrow> (b1, OnDashboard d))"
| "App_act net SignOut (OnDashboard st) b =
     (case logout_js net b of
        (b1, Inr _) \<Rightarrow> App_start net b1
      | (b1, Inl _) \<Rightarrow> (b1, OnDashboard st))"
| "App_act net a st b = (b, st)"

fun App_view :: "app \<Rightarrow> vdom" where
  "App_view (OnLogin st) = Login st"
| "App_view (OnDashboard st) = Dashboard st"

section \<open>Lemmas\<close>

lemma texts_node [simp]: "texts (node t c kids) = concat (map texts kids)"
  by (simp add: node_def)

lemma actions_node [simp]: "actions (node t c kids) = concat (map actions kids)"
  by (simp add: node_def)

lemma Login_button: "AuthenticateDevice \<in> set (actions (Login st)) \<longleftrightarrow> truthy_js (lg_id st)"
  by (auto simp: Login_def)

lemma Dashboard_actions:
  "set (actions (Dashboard st)) = (if da_error st \<noteq> [] then {SignOut, Retry} else {SignOut})"
  by (auto simp: Dashboard_def Layout_def StatusBadge_def ErrorState_def Loading_def link_def Let_def
      MetricCard_def Panel_def detail_row_def service_row_def EmptyState_def)

lemma shown_Info:
  "k \<in> {''os'', ''kernel'', ''cpus'', ''memory'', ''disk'', ''uptime'', ''architecture''} \<Longrightarrow>
    shown (Some (Info_json i)) k dflt = dflt"
  by (auto simp: shown_def js_prop_def js_or_def truthy_js_def js_text_def)

lemma truthy_Info [simp]: "truthy_js (Some (Info_json i))"
  by (simp add: truthy_js_def Info_json_def)

lemma Dashboard_Info:
  "Dashboard \<lparr>da_system = Some (Info_json i), da_error = []\<rparr> = Dashboard \<lparr>da_system = Some (Info_json j), da_error = []\<rparr>"
  by (simp add: Dashboard_def shown_Info Let_def)

lemma discover_panel:
  assumes "bridge_agent_ok (C, i)" "ev_bridge env = (\<lambda>r. Inr (bridgeHandler C i r))" "br_world b = (sv, env # envs)"
  shows "discover_js (panel_net C) b =
    (b\<lparr>br_world := (sv, envs)\<rparr>, Inr \<lparr>ds_available = True, ds_device_id = Some (JStr (id_DeviceID i))\<rparr>)"
proof -
  let ?v = "JObj [(''available'', JBool True), (''device_id'', JStr (id_DeviceID i))]"
  from assms(1) have d: "id_DeviceID i \<noteq> []"
    using good_identity_signs(3) by (auto simp: bridge_agent_ok_def)
  have resp: "bridgeRequest env ''GET'' ''/identity'' [] = Inr (bridgeHandler C i (plain_get ''/identity''))"
    using assms(2) by (simp add: bridgeRequest_def plain_get_def)
  have "rs_Status (bridgeHandler C i (plain_get ''/identity'')) = 200"
      "parse_first (rs_Body (bridgeHandler C i (plain_get ''/identity''))) = Some (JObj [(''device_id'', JStr (id_DeviceID i))])"
    using bridge.names_device [OF assms(1)] bridge.identity_parses [OF assms(1)] by simp_all
  with resp d have "handle C env (js_get ''/api/auth/discover'') sv = (sv, Return (writeJSON ?v))"
    by (simp add: handle_paths js_get_def discover_def)
  from fetch_panel [OF this assms(3)] d show ?thesis
    by (simp add: discover_js_def response_ok_def response_json_def Unmarshal_newline truthy_js_def)
qed

lemma login_mount_panel:
  assumes "bridge_agent_ok (C, i)" "ev_bridge env = (\<lambda>r. Inr (bridgeHandler C i r))" "br_world b = (sv, env # envs)"
  shows "login_mount (panel_net C) b =
    (b\<lparr>br_world := (sv, envs)\<rparr>, \<lparr>lg_state = ''Device detected.'', lg_id = Some (JStr (id_DeviceID i))\<rparr>)"
  using discover_panel [OF assms] good_identity_signs(3) [of C i] assms(1)
  by (simp add: login_mount_def js_or_def truthy_js_def bridge_agent_ok_def)

text \<open>From opening the panel to the dashboard, in five requests.\<close>

section \<open>Properties\<close>

text \<open>
  C2. Opening the panel in a browser without a session, beside an Agent whose device is registered and active,
  leads to the dashboard: the login page finds the device and shows its button, and the click brings the
  system description of the host onto the dashboard and a session token into the browser, provided the
  requests meet working randomness and lookups, the login takes less than two minutes and the last request
  comes within fifteen minutes of it. The browser needs no secret for this: the Agent signs for it.
\<close>

theorem opening_the_panel_logs_in:
  assumes i: "bridge_agent_ok (C, i)"
    and reg: "abs_registry (as_db (sv_auth sv)) (id_DeviceID i) = Some (id_PublicKey i, True)"
    and e0: "ev_bridge e0 = (\<lambda>r. Inr (bridgeHandler C i r))"
    and envs: "login_envs C i tok e1 e2 e3"
    and e4: "ev_now e4 \<le> ev_later e3 + session_lifetime"
    and b: "br_session b = None" "br_world b = (sv, [e0, e1, e2, e3, e4])"
  shows "\<exists>b1 st b2. App_start (panel_net C) b = (b1, OnLogin st)
    \<and> AuthenticateDevice \<in> set (actions (Login st))
    \<and> App_act (panel_net C) AuthenticateDevice (OnLogin st) b1 =
        (b2, OnDashboard \<lparr>da_system = Some (Info_json (Collect (ev_host e4))), da_error = []\<rparr>)
    \<and> br_session b2 = Some (EncodeToString tok)"
proof -
  let ?st = "\<lparr>lg_state = ''Device detected.'', lg_id = Some (JStr (id_DeviceID i))\<rparr>"
  let ?b1 = "b\<lparr>br_world := (sv, [e1, e2, e3, e4])\<rparr>"
  have start: "App_start (panel_net C) b = (?b1, OnLogin ?st)"
    using login_mount_panel [OF i e0 b(2)] b(1) by (simp add: App_start_def)
  have d: "id_DeviceID i \<noteq> []" and tok: "tok \<noteq> []"
    using i envs good_identity_signs(3) by (auto simp: bridge_agent_ok_def login_envs_def)
  obtain sv' where auth: "authenticate (panel_net C) (Some (JStr (id_DeviceID i))) ?b1 =
      (?b1\<lparr>br_world := (sv', [e4]), br_session := Some (EncodeToString tok)\<rparr>,
       Inr (Some (JObj [(''session'', JStr (EncodeToString tok))])))"
    and ses: "sv_sessions sv' (EncodeToString tok) = Some (ev_later e3 + session_lifetime)"
    using login_succeeds [OF i reg envs, of ?b1 "[e4]"] by auto
  let ?b2 = "?b1\<lparr>br_world := (sv', [e4]), br_session := Some (EncodeToString tok)\<rparr>"
  have "getSystem (panel_net C) ?b2 = (?b2\<lparr>br_world := (sv', [])\<rparr>, Inr (Some (Info_json (Collect (ev_host e4)))))"
    by (rule getSystem_admitted [OF _ tok _ ses e4]) simp_all
  then have "App_act (panel_net C) AuthenticateDevice (OnLogin ?st) ?b1 =
      (?b2\<lparr>br_world := (sv', [])\<rparr>, OnDashboard \<lparr>da_system = Some (Info_json (Collect (ev_host e4))), da_error = []\<rparr>)"
    by (simp add: login_click_def auth dash_load_def)
  with start d show ?thesis by (auto simp: Login_button truthy_js_def)
qed

theorem opening_the_panel_logs_in_witness:
  "\<exists>b1 st b2. App_start (panel_net toy_crypto)
      \<lparr>br_session = None, br_world = (New_server toy_db, [toy_env, toy_env, toy_env, toy_env, toy_env])\<rparr> = (b1, OnLogin st)
    \<and> App_act (panel_net toy_crypto) AuthenticateDevice (OnLogin st) b1 =
        (b2, OnDashboard \<lparr>da_system = Some (Info_json (Collect toy_host)), da_error = []\<rparr>)"
proof -
  have a: "bridge_agent_ok (toy_crypto, toy_identity)"
    by (simp add: bridge_agent_ok_def toy_crypto_ok toy_identity_good)
  have r: "abs_registry (as_db (sv_auth (New_server toy_db))) (id_DeviceID toy_identity) = Some (id_PublicKey toy_identity, True)"
    using toy_registry by (simp add: New_server_def NewAuthenticator_def)
  have e: "login_envs toy_crypto toy_identity (replicate 32 CHR ''c'') toy_env toy_env toy_env"
    by (simp add: login_envs_def toy_env_def sql_ok_def toy_value_def challengeLifetime_def time_units)
  have b: "ev_bridge toy_env = (\<lambda>r. Inr (bridgeHandler toy_crypto toy_identity r))"
    and t: "ev_now toy_env \<le> ev_later toy_env + session_lifetime" and h: "ev_host toy_env = toy_host"
    by (simp_all add: toy_env_def session_lifetime_def time_units)
  from opening_the_panel_logs_in [OF a r b e t,
      of "\<lparr>br_session = None, br_world = (New_server toy_db, [toy_env, toy_env, toy_env, toy_env, toy_env])\<rparr>"]
  show ?thesis unfolding h by auto
qed

text \<open>
  The dashboard shows nothing of the host: it asks for members that the server's description does not have,
  so for every host the metrics read \<open>--\<close> and the system rows \<open>Unknown\<close>.
\<close>

theorem dashboard_shows_no_host_data:
  "Dashboard \<lparr>da_system = Some (Info_json (Collect h)), da_error = []\<rparr> =
     Dashboard \<lparr>da_system = Some (JObj []), da_error = []\<rparr>
   \<and> map (\<lambda>(k, d). shown (Some (Info_json (Collect h))) k d)
       [(''cpus'', ''--''), (''memory'', ''--''), (''disk'', ''--''), (''uptime'', ''--''),
        (''os'', ''Unknown''), (''kernel'', ''Unknown''), (''architecture'', ''--'')] =
     [''--'', ''--'', ''--'', ''--'', ''Unknown'', ''Unknown'', ''--'']
   \<and> show_js (Some (Info_json (Collect h))) = Inr (show_html ''Unknown'' [] ''--'')"
proof -
  have e: "shown (Some (JObj [])) k d = d" for k d
    by (simp add: shown_def js_prop_def js_field_def js_or_def truthy_js_def js_text_def)
  have t: "truthy_js (Some (JObj []))" by (simp add: truthy_js_def)
  show ?thesis by (simp add: Dashboard_def shown_Info e t Let_def show_Info)
qed

text \<open>
  Signing out forgets the session in the browser whatever the network does, and where the request gets
  through, the page starts over on the login page.
\<close>

theorem sign_out_forgets_session:
  "br_session (fst (App_act net SignOut (OnDashboard st) b)) = None
   \<and> (is_ok (snd (logout_js net b)) \<longleftrightarrow> (\<exists>l. snd (App_act net SignOut (OnDashboard st) b) = OnLogin l))"
proof -
  have keep: "br_session (fst (discover_js net b')) = br_session b'" for b'
    by (simp add: discover_js_def fetch_def split: prod.splits sum.splits)
  have mount: "br_session (fst (login_mount net b')) = br_session b'" for b'
    using keep [of b'] by (auto simp: login_mount_def split: prod.splits sum.splits)
  have out: "br_session (fst (logout_js net b)) = None"
    by (simp add: logout_js_def split: prod.splits)
  obtain b1 res where l: "logout_js net b = (b1, res)" by (cases "logout_js net b")
  with out have b1: "br_session b1 = None" by simp
  obtain b2 m where lm: "login_mount net b1 = (b2, m)" by (cases "login_mount net b1")
  show ?thesis
    using b1 mount [of b1] by (cases res) (simp_all add: l lm App_start_def)
qed

end
