(* ===== verification/Storage.thy ===== *)
theory Storage
  imports Trust_Store
begin

text \<open>
  \<open>internal/storage\<close>: opening the SQLite database, its schema migrations with their ledger, and the health
  check. The file is its ledger table and the tables of migration 2, each absent or with its rows. Every
  statement and system call can fail, by a fault plan or by the answers of the environment.
\<close>

section \<open>The file and its schema\<close>

record ledger_row =
  lr_version :: int
  lr_name :: string
  lr_applied :: string

record sqlite_file =
  sf_ledger :: "ledger_row list option"
  sf_identity :: "database option"

definition new_file :: sqlite_file where
  "new_file = \<lparr>sf_ledger = None, sf_identity = None\<rparr>"

text \<open>The statements of the migrations; \<open>IF NOT EXISTS\<close> keeps a table that is there.\<close>

datatype schema_sql = CreateLedger | CreateIdentityTables

fun run_schema :: "schema_sql \<Rightarrow> sqlite_file \<Rightarrow> sqlite_file" where
  "run_schema CreateLedger f = (case sf_ledger f of None \<Rightarrow> f\<lparr>sf_ledger := Some []\<rparr> | Some _ \<Rightarrow> f)"
| "run_schema CreateIdentityTables f = (case sf_identity f of None \<Rightarrow> f\<lparr>sf_identity := Some empty_db\<rparr> | Some _ \<Rightarrow> f)"

record migration =
  mg_Version :: int
  mg_Name :: string
  mg_SQL :: schema_sql

definition migrations :: "migration list" where
  "migrations =
     [\<lparr>mg_Version = 1, mg_Name = ''create_schema_migrations'', mg_SQL = CreateLedger\<rparr>,
      \<lparr>mg_Version = 2, mg_Name = ''create_security_identity_tables'', mg_SQL = CreateIdentityTables\<rparr>]"

definition LatestVersion :: int where
  "LatestVersion = fold (\<lambda>m highest. if mg_Version m > highest then mg_Version m else highest) migrations 0"

lemma LatestVersion_2 [simp]: "LatestVersion = 2"
  by (simp add: LatestVersion_def migrations_def)

section \<open>Migrating\<close>

datatype mg_op = MgLedger | MgQuery | MgMax | MgBegin int | MgExec int | MgRecord int | MgCommit int

type_synonym mg_faults = "mg_op \<Rightarrow> go_error option"

definition no_table :: go_error where "no_table = StdErr OtherOS ''no such table: schema_migrations''"

definition ensureLedger :: "mg_faults \<Rightarrow> sqlite_file \<Rightarrow> go_error option \<times> sqlite_file" where
  "ensureLedger flt f =
     (case flt MgLedger of
        Some e \<Rightarrow> (Some (wrap_err KindStorage ''storage.ensureLedger'' ''cannot create the migration ledger'' e), f)
      | None \<Rightarrow> (None, run_schema (mg_SQL (hd migrations)) f))"

definition appliedVersions :: "mg_faults \<Rightarrow> sqlite_file \<Rightarrow> go_error + int set" where
  "appliedVersions flt f =
     (case (flt MgQuery, sf_ledger f) of
        (None, Some rows) \<Rightarrow> Inr (lr_version ` set rows)
      | (None, None) \<Rightarrow> Inl (wrap_err KindStorage ''storage.appliedVersions'' ''cannot read applied migrations'' no_table)
      | (Some e, _) \<Rightarrow> Inl (wrap_err KindStorage ''storage.appliedVersions'' ''cannot read applied migrations'' e))"

text \<open>\<open>SELECT MAX(version)\<close>: NULL on an empty table, which counts as 0.\<close>

definition max_version :: "ledger_row list \<Rightarrow> int" where
  "max_version rows = (case rows of [] \<Rightarrow> 0 | r # rs \<Rightarrow> fold (\<lambda>x m. max (lr_version x) m) rs (lr_version r))"

definition CurrentVersion :: "mg_faults \<Rightarrow> sqlite_file \<Rightarrow> go_error + int" where
  "CurrentVersion flt f =
     (case (flt MgMax, sf_ledger f) of
        (None, Some rows) \<Rightarrow> Inr (max_version rows)
      | (None, None) \<Rightarrow> Inl (wrap_err KindStorage ''storage.CurrentVersion'' ''cannot read the schema version'' no_table)
      | (Some e, _) \<Rightarrow> Inl (wrap_err KindStorage ''storage.CurrentVersion'' ''cannot read the schema version'' e))"

definition insert_ledger :: "ledger_row \<Rightarrow> sqlite_file \<Rightarrow> go_error + sqlite_file" where
  "insert_ledger r f =
     (case sf_ledger f of None \<Rightarrow> Inl no_table
      | Some rows \<Rightarrow>
          if lr_version r \<in> lr_version ` set rows
          then Inl (constraint_err ''UNIQUE constraint failed: schema_migrations.version'')
          else Inr (f\<lparr>sf_ledger := Some (rows @ [r])\<rparr>))"

text \<open>One transaction: the schema change and its ledger row, or neither.\<close>

definition applyMigration :: "mg_faults \<Rightarrow> instant \<Rightarrow> migration \<Rightarrow> sqlite_file \<Rightarrow> go_error option \<times> sqlite_file" where
  "applyMigration flt now m f =
     (let v = mg_Version m;
          fail = (\<lambda>msg e. (Some (wrap_err KindStorage ''storage.applyMigration'' msg e), f))
      in case flt (MgBegin v) of
           Some e \<Rightarrow> fail (''cannot begin a transaction for migration '' @ Itoa v) e
         | None \<Rightarrow>
             (case flt (MgExec v) of
                Some e \<Rightarrow> fail (''migration '' @ Itoa v @ '' ('' @ mg_Name m @ '') failed'') e
              | None \<Rightarrow>
                  (let f1 = run_schema (mg_SQL m) f in
                   case (case flt (MgRecord v) of Some e \<Rightarrow> Inl e
                         | None \<Rightarrow> insert_ledger \<lparr>lr_version = v, lr_name = mg_Name m, lr_applied = RFC3339 now\<rparr> f1) of
                     Inl e \<Rightarrow> fail (''cannot record migration '' @ Itoa v) e
                   | Inr f2 \<Rightarrow>
                       (case flt (MgCommit v) of
                          Some e \<Rightarrow> fail (''cannot commit migration '' @ Itoa v) e
                        | None \<Rightarrow> (None, f2)))))"

fun apply_pending ::
  "mg_faults \<Rightarrow> (int \<Rightarrow> instant) \<Rightarrow> int set \<Rightarrow> migration list \<Rightarrow> sqlite_file \<Rightarrow> go_error option \<times> sqlite_file" where
  "apply_pending flt clock applied [] f = (None, f)"
| "apply_pending flt clock applied (m # ms) f =
     (if mg_Version m \<in> applied then apply_pending flt clock applied ms f
      else (case applyMigration flt (clock (mg_Version m)) m f of
              (Some e, f1) \<Rightarrow> (Some e, f1)
            | (None, f1) \<Rightarrow> apply_pending flt clock applied ms f1))"

text \<open>\<open>clock v\<close> is the time at which migration \<open>v\<close> is recorded.\<close>

definition Migrate :: "bool \<Rightarrow> mg_faults \<Rightarrow> (int \<Rightarrow> instant) \<Rightarrow> sqlite_file \<Rightarrow> go_error option \<times> sqlite_file" where
  "Migrate readOnly flt clock f =
     (if readOnly
      then (Some (New KindUnsupported ''storage.Migrate'' ''the database is open read-only and cannot be migrated''), f)
      else (case ensureLedger flt f of
        (Some e, f1) \<Rightarrow> (Some e, f1)
      | (None, f1) \<Rightarrow>
          (case appliedVersions flt f1 of Inl e \<Rightarrow> (Some e, f1)
           | Inr applied \<Rightarrow>
               (case CurrentVersion flt f1 of Inl e \<Rightarrow> (Some e, f1)
                | Inr current \<Rightarrow>
                    if current > LatestVersion
                    then (Some (New KindStorage ''storage.Migrate''
                           (''the database schema is version '' @ Itoa current
                            @ '' (10+ migrations ahead) but this build understands only version '' @ Itoa LatestVersion
                            @ ''; upgrade InfraPilot'')), f1)
                    else apply_pending flt clock applied migrations f1))))"

section \<open>What migrations keep\<close>

text \<open>The ledger names each version once, and version 2 only when its tables are there.\<close>

definition versions_of :: "sqlite_file \<Rightarrow> int set" where
  "versions_of f = (case sf_ledger f of None \<Rightarrow> {} | Some rows \<Rightarrow> lr_version ` set rows)"

definition schema_ok :: "sqlite_file \<Rightarrow> bool" where
  "schema_ok f \<longleftrightarrow>
     (case sf_ledger f of None \<Rightarrow> True | Some rows \<Rightarrow> distinct (map lr_version rows))
   \<and> (2 \<in> versions_of f \<longrightarrow> sf_identity f \<noteq> None)"

text \<open>The second file holds every row of the first, and its own ledger entries come after.\<close>

definition extends :: "sqlite_file \<Rightarrow> sqlite_file \<Rightarrow> bool" where
  "extends f g \<longleftrightarrow>
     (\<forall>d. sf_identity f = Some d \<longrightarrow> sf_identity g = Some d)
   \<and> (\<forall>rows. sf_ledger f = Some rows \<longrightarrow> (\<exists>more. sf_ledger g = Some (rows @ more)))"

lemma extends_refl [simp]: "extends f f"
  by (simp add: extends_def)

lemma extends_trans: "extends f g \<Longrightarrow> extends g h \<Longrightarrow> extends f h"
  by (fastforce simp: extends_def)

lemma run_schema_extends: "extends f (run_schema s f)"
  by (cases s) (auto simp: extends_def split: option.splits)

lemma run_schema_ok: "schema_ok f \<Longrightarrow> schema_ok (run_schema s f)"
  by (cases s) (auto simp: schema_ok_def versions_of_def split: option.splits)

lemma run_schema_versions [simp]: "versions_of (run_schema s f) = versions_of f"
  by (cases s) (auto simp: versions_of_def split: option.splits)

lemma run_schema_ledger: "sf_ledger f \<noteq> None \<Longrightarrow> sf_ledger (run_schema s f) = sf_ledger f"
  by (cases s) (auto split: option.splits)

lemma insert_ledger_Inr:
  assumes "insert_ledger r f = Inr g"
  shows "extends f g \<and> versions_of g = insert (lr_version r) (versions_of f) \<and> lr_version r \<notin> versions_of f
    \<and> sf_identity g = sf_identity f \<and> sf_ledger f \<noteq> None \<and> sf_ledger g \<noteq> None
    \<and> (schema_ok f \<and> (lr_version r = 2 \<longrightarrow> sf_identity f \<noteq> None) \<longrightarrow> schema_ok g)"
  using assms by (auto simp: insert_ledger_def extends_def versions_of_def schema_ok_def split: option.splits if_splits)

definition goes_with :: "migration \<Rightarrow> bool" where
  "goes_with m \<longleftrightarrow> (mg_Version m = 2 \<longrightarrow> mg_SQL m = CreateIdentityTables)"

lemma applyMigration_err: "applyMigration flt now m f = (Some e, g) \<Longrightarrow> g = f"
  by (auto simp: applyMigration_def Let_def split: option.splits sum.splits)

lemma applyMigration_ok:
  assumes "applyMigration flt now m f = (None, g)"
  shows "extends f g \<and> versions_of g = insert (mg_Version m) (versions_of f) \<and> sf_ledger g \<noteq> None
    \<and> (schema_ok f \<and> goes_with m \<longrightarrow> schema_ok g)"
proof -
  let ?r = "\<lparr>lr_version = mg_Version m, lr_name = mg_Name m, lr_applied = RFC3339 now\<rparr>"
  from assms have ins: "insert_ledger ?r (run_schema (mg_SQL m) f) = Inr g"
    by (auto simp: applyMigration_def Let_def split: option.splits sum.splits)
  note i = insert_ledger_Inr [OF ins]
  have "goes_with m \<longrightarrow> mg_Version m = 2 \<longrightarrow> sf_identity (run_schema (mg_SQL m) f) \<noteq> None"
    by (auto simp: goes_with_def split: option.splits)
  moreover have "extends f g" using i run_schema_extends extends_trans by blast
  ultimately show ?thesis using i run_schema_ok [of f "mg_SQL m"] by auto
qed

lemma apply_pending_keeps:
  assumes "apply_pending flt clock applied ms f = (r, g)"
  shows "extends f g \<and> versions_of f \<subseteq> versions_of g \<and> versions_of g \<subseteq> versions_of f \<union> mg_Version ` set ms
    \<and> (r = None \<longrightarrow> mg_Version ` set ms \<subseteq> applied \<union> versions_of g)
    \<and> (schema_ok f \<and> list_all goes_with ms \<longrightarrow> schema_ok g)"
  using assms
proof (induction ms arbitrary: f)
  case (Cons m ms)
  show ?case
  proof (cases "mg_Version m \<in> applied")
    case True
    with Cons show ?thesis by fastforce
  next
    case False
    obtain e f1 where a: "applyMigration flt (clock (mg_Version m)) m f = (e, f1)"
      by (cases "applyMigration flt (clock (mg_Version m)) m f")
    show ?thesis
    proof (cases e)
      case (Some x)
      with a Cons.prems False have "g = f" "r \<noteq> None" by (auto dest: applyMigration_err)
      then show ?thesis by auto
    next
      case None
      with a Cons.prems False have rest: "apply_pending flt clock applied ms f1 = (r, g)" by simp
      from applyMigration_ok [OF a [unfolded None]] Cons.IH [OF rest] extends_trans [of f f1 g]
      show ?thesis by auto
    qed
  qed
qed simp

lemma migrations_go_with: "list_all goes_with migrations"
  by (simp add: migrations_def goes_with_def)

lemma migration_versions: "mg_Version ` set migrations = {1, 2}"
  by (auto simp: migrations_def)

lemma ensureLedger_keeps:
  "ensureLedger flt f = (r, g) \<Longrightarrow>
     extends f g \<and> versions_of g = versions_of f \<and> (schema_ok f \<longrightarrow> schema_ok g) \<and> (r = None \<longrightarrow> sf_ledger g \<noteq> None)
   \<and> sf_identity g = sf_identity f"
  by (auto simp: ensureLedger_def migrations_def extends_def schema_ok_def versions_of_def split: option.splits)

lemma max_version_le: "max_version rows \<le> k \<longleftrightarrow> (if rows = [] then 0 \<le> k else \<forall>r \<in> set rows. lr_version r \<le> k)"
proof -
  have "fold (\<lambda>x m. max (lr_version x) m) rs m \<le> k \<longleftrightarrow> m \<le> k \<and> (\<forall>r \<in> set rs. lr_version r \<le> k)" for rs m
    by (induction rs arbitrary: m) auto
  then show ?thesis by (auto simp: max_version_def split: list.splits)
qed

lemma Migrate_cases:
  assumes "Migrate False flt clock f = (r, g)"
  obtains (unchanged) "r \<noteq> None" "extends f g" "versions_of g = versions_of f" "sf_identity g = sf_identity f"
      "schema_ok f \<longrightarrow> schema_ok g"
  | (applied) f1 rows where "ensureLedger flt f = (None, f1)" "sf_ledger f1 = Some rows" "max_version rows \<le> 2"
      "apply_pending flt clock (lr_version ` set rows) migrations f1 = (r, g)"
proof -
  obtain e f1 where el: "ensureLedger flt f = (e, f1)" by (cases "ensureLedger flt f")
  note k = ensureLedger_keeps [OF el]
  have "(r \<noteq> None \<and> g = f1) \<or> (\<exists>rows. e = None \<and> sf_ledger f1 = Some rows \<and> max_version rows \<le> 2 \<and>
      apply_pending flt clock (lr_version ` set rows) migrations f1 = (r, g))"
    using assms el
    by (auto simp: Migrate_def appliedVersions_def CurrentVersion_def split: option.splits if_splits)
  with k el that show ?thesis by blast
qed

lemma Migrate_keeps:
  assumes "Migrate False flt clock f = (r, g)"
  shows "extends f g \<and> (schema_ok f \<longrightarrow> schema_ok g)"
  using assms
proof (cases rule: Migrate_cases)
  case (applied f1 rows)
  from apply_pending_keeps [OF applied(4)] ensureLedger_keeps [OF applied(1)] migrations_go_with
  show ?thesis using extends_trans by blast
qed blast

lemma Migrate_reaches:
  assumes "Migrate False flt clock f = (None, g)"
  shows "versions_of g = versions_of f \<union> {1, 2} \<and> (\<forall>v \<in> versions_of g. v \<le> 2)"
  using assms
proof (cases rule: Migrate_cases)
  case (applied f1 rows)
  have v: "versions_of f = lr_version ` set rows"
    using ensureLedger_keeps [OF applied(1)] applied(2) by (simp add: versions_of_def)
  have "versions_of f1 = lr_version ` set rows" using applied(2) by (simp add: versions_of_def)
  with apply_pending_keeps [OF applied(4)] v have "versions_of g = versions_of f \<union> {1, 2}"
    unfolding migration_versions by auto
  moreover have "\<forall>v \<in> versions_of f. v \<le> 2"
    using applied(3) by (auto simp: v max_version_le split: if_splits)
  ultimately show ?thesis by auto
qed simp

lemma CurrentVersion_latest:
  assumes "versions_of g = V \<union> {1, 2}" "\<forall>v \<in> versions_of g. v \<le> 2" "flt MgMax = None"
  shows "CurrentVersion flt g = Inr LatestVersion"
proof -
  from assms(1) obtain rows where r: "sf_ledger g = Some rows" "lr_version ` set rows = V \<union> {1, 2}"
    by (auto simp: versions_of_def split: option.splits)
  then have two: "2 \<in> lr_version ` set rows" by simp
  then have "rows \<noteq> []" "\<exists>x \<in> set rows. lr_version x = 2" by auto
  then have "\<not> max_version rows \<le> 1" by (force simp: max_version_le)
  moreover have "\<forall>x \<in> set rows. lr_version x \<le> 2"
    using assms(2) r(1) by (simp add: versions_of_def)
  then have "max_version rows \<le> 2" using \<open>rows \<noteq> []\<close> by (simp add: max_version_le)
  ultimately have "max_version rows = 2" by simp
  with r assms(3) show ?thesis by (simp add: CurrentVersion_def)
qed

text \<open>Attempts to migrate, with any faults, as a machine: rows are never lost on the way.\<close>

definition migrate_attempt :: "mg_faults \<times> (int \<Rightarrow> instant) \<Rightarrow> sqlite_file \<Rightarrow> sqlite_file" where
  "migrate_attempt op f = snd (Migrate False (fst op) (snd op) f)"

lemma migrate_attempt_keeps: "extends f (migrate_attempt op f) \<and> (schema_ok f \<longrightarrow> schema_ok (migrate_attempt op f))"
  unfolding migrate_attempt_def by (rule Migrate_keeps) (rule surjective_pairing)

interpretation migrating: history_machine migrate_attempt schema_ok extends
  by unfold_locales (auto simp: migrate_attempt_keeps intro: extends_trans)


text \<open>Without faults a ledger that is not ahead is brought up to date.\<close>

lemma applyMigration_succeeds:
  assumes "sf_ledger f \<noteq> None" "mg_Version m \<notin> versions_of f"
  shows "\<exists>g. applyMigration (\<lambda>_. None) now m f = (None, g)"
proof -
  from assms(1) obtain rows where "sf_ledger (run_schema (mg_SQL m) f) = Some rows"
    using run_schema_ledger by fastforce
  moreover have "mg_Version m \<notin> versions_of (run_schema (mg_SQL m) f)" using assms(2) by simp
  ultimately show ?thesis by (auto simp: applyMigration_def insert_ledger_def versions_of_def Let_def)
qed

lemma apply_pending_succeeds:
  assumes "sf_ledger f \<noteq> None" "distinct (map mg_Version ms)"
    "\<forall>m \<in> set ms. mg_Version m \<notin> applied \<longrightarrow> mg_Version m \<notin> versions_of f"
  shows "\<exists>g. apply_pending (\<lambda>_. None) clock applied ms f = (None, g)"
  using assms
proof (induction ms arbitrary: f)
  case (Cons m ms)
  show ?case
  proof (cases "mg_Version m \<in> applied")
    case True
    with Cons show ?thesis by simp
  next
    case False
    with Cons.prems obtain f1 where a: "applyMigration (\<lambda>_. None) (clock (mg_Version m)) m f = (None, f1)"
      using applyMigration_succeeds by (metis list.set_intros(1))
    note ok = applyMigration_ok [OF a]
    have "mg_Version m \<notin> mg_Version ` set ms" using Cons.prems(2) by simp
    then have "\<forall>x \<in> set ms. mg_Version x \<noteq> mg_Version m" by (auto simp: image_iff)
    with ok Cons.prems have "\<exists>g. apply_pending (\<lambda>_. None) clock applied ms f1 = (None, g)"
      by (intro Cons.IH) simp_all
    with a False show ?thesis by simp
  qed
qed simp

lemma Migrate_succeeds:
  assumes "\<forall>v \<in> versions_of f. v \<le> 2"
  shows "\<exists>g. Migrate False (\<lambda>_. None) clock f = (None, g)"
proof -
  obtain f1 where el: "ensureLedger (\<lambda>_. None) f = (None, f1)" by (simp add: ensureLedger_def)
  note k = ensureLedger_keeps [OF el]
  then obtain rows where r: "sf_ledger f1 = Some rows" by auto
  then have v: "versions_of f1 = lr_version ` set rows" by (simp add: versions_of_def)
  with k assms have "\<forall>x \<in> set rows. lr_version x \<le> 2" by auto
  then have "max_version rows \<le> 2" by (simp add: max_version_le)
  moreover have "\<exists>g. apply_pending (\<lambda>_. None) clock (lr_version ` set rows) migrations f1 = (None, g)"
    using r v by (intro apply_pending_succeeds) (auto simp: migrations_def)
  ultimately show ?thesis using el r by (simp add: Migrate_def appliedVersions_def CurrentVersion_def)
qed

section \<open>Opening\<close>

record open_options =
  op_Path :: string
  op_BusyTimeout :: duration
  op_ReadOnly :: bool

record db_handle =
  dh_path :: string
  dh_readOnly :: bool

text \<open>
  What the environment answers: the stat of the directory (whether it is one), of the file, opening and
  the first connection, the pragmas read back, chmod, the statements of the migrations. Beside a WAL database
  SQLite keeps its own files, and a connection that was tried may make, leave or remove them, a read-only one
  too: \<open>oe_side\<close> says which are there when it is closed.
\<close>

datatype sidecar = WalFile | ShmFile

record open_env =
  oe_dir :: "go_error + bool"
  oe_stat :: "go_error option"
  oe_open :: "go_error option"
  oe_ping :: "go_error option"
  oe_journal :: "go_error + string"
  oe_foreign :: "go_error + int"
  oe_chmod :: "go_error option"
  oe_migrate :: mg_faults
  oe_clock :: "int \<Rightarrow> instant"
  oe_side :: "sidecar list"

text \<open>
  The disk: the database file, when there is one, its permission bits, and the sidecar files that stay beside it
  when it is closed. The contents of the file are those a reader sees, a write-ahead log included.
\<close>

record disk =
  dk_file :: "sqlite_file option"
  dk_mode :: nat
  dk_side :: "sidecar list"

definition dbFileMode :: nat where "dbFileMode = 0x180"

definition hex_upper :: "nat \<Rightarrow> char" where
  "hex_upper n = (if n < 10 then digit_char n else char_of (55 + n))"

text \<open>\<open>url.QueryEscape\<close>.\<close>

definition query_char :: "char \<Rightarrow> string" where
  "query_char c =
     (if is_alnum c \<or> c \<in> {CHR ''-'', CHR ''_'', CHR ''.'', CHR ''~''} then [c]
      else if c = CHR '' '' then ''+''
      else [CHR ''%'', hex_upper (ord c div 16), hex_upper (ord c mod 16)])"

definition QueryEscape :: "string \<Rightarrow> string" where
  "QueryEscape s = concat (map query_char s)"

definition query_pair :: "string \<Rightarrow> string \<Rightarrow> string" where
  "query_pair k v = QueryEscape k @ ''='' @ QueryEscape v"

text \<open>\<open>url.Values.Encode\<close> sorts by key; the values of a key stay in order.\<close>

definition dsn :: "open_options \<Rightarrow> string" where
  "dsn opts =
     (let pragmas = [''busy_timeout('' @ Itoa (op_BusyTimeout opts div 1000000) @ '')'', ''foreign_keys(ON)'']
            @ (if op_ReadOnly opts then [] else [''journal_mode(WAL)'', ''synchronous(NORMAL)''])
      in ''file:'' @ op_Path opts @ ''?''
         @ Join (map (query_pair ''_pragma'') pragmas @ (if op_ReadOnly opts then [query_pair ''mode'' ''ro''] else [])) ''&'')"

definition applyPragmas :: "bool \<Rightarrow> open_env \<Rightarrow> go_error option" where
  "applyPragmas readOnly env =
     (let foreign = (case oe_foreign env of
            Inl e \<Rightarrow> Some (wrap_err KindStorage ''storage.applyPragmas'' ''cannot read foreign_keys'' e)
          | Inr v \<Rightarrow> if v \<noteq> 1 then Some (New KindStorage ''storage.applyPragmas'' ''foreign key enforcement is disabled'') else None)
      in if readOnly then foreign
         else (case oe_journal env of
                 Inl e \<Rightarrow> Some (wrap_err KindStorage ''storage.applyPragmas'' ''cannot read journal_mode'' e)
               | Inr j \<Rightarrow>
                   if j \<noteq> ''wal''
                   then Some (New KindStorage ''storage.applyPragmas'' (''journal_mode is '' @ Quote j @ '', want wal; the filesystem may not support WAL''))
                   else foreign))"

definition classifyOpenError :: "string \<Rightarrow> string \<Rightarrow> go_error \<Rightarrow> go_error" where
  "classifyOpenError op path e =
     (if IsPermission e then wrap_err KindPermission op (''cannot open '' @ path @ ''; check that the service account owns it'') e
      else wrap_err KindStorage op (''cannot open the database at '' @ path) e)"

definition open_error :: "Kind \<Rightarrow> string \<Rightarrow> go_error" where
  "open_error k m = New k ''storage.Open'' m"

text \<open>The checks of \<open>Open\<close> before it connects.\<close>

definition open_checks :: "open_env \<Rightarrow> open_options \<Rightarrow> go_error option" where
  "open_checks env opts =
     (let path = op_Path opts; dir = Dir path in
      if path = [] then Some (open_error KindConfig ''the database path must not be empty'')
      else if \<not> IsAbs path then Some (open_error KindConfig (''the database path must be absolute, got '' @ Quote path))
      else if op_BusyTimeout opts \<le> 0 then Some (open_error KindConfig ''the busy timeout must be greater than zero'')
      else (case oe_dir env of
        Inl e \<Rightarrow>
          (if IsNotExist e
           then Some (open_error KindNotFound (''the data directory '' @ dir @ '' does not exist; run 'infrapilot doctor' for guidance''))
           else Some (wrap_err KindStorage ''storage.Open'' (''cannot inspect the data directory '' @ dir) e))
      | Inr False \<Rightarrow> Some (open_error KindConfig (''the data directory '' @ dir @ '' is not a directory''))
      | Inr True \<Rightarrow>
          (if op_ReadOnly opts
           then (case oe_stat env of None \<Rightarrow> None
                 | Some e \<Rightarrow>
                     if IsNotExist e then Some (open_error KindNotFound (''no database at '' @ path @ ''; the agent may not have started yet''))
                     else Some (wrap_err KindStorage ''storage.Open'' (''cannot inspect the database at '' @ path) e))
           else None)))"

definition Open_db :: "open_env \<Rightarrow> open_options \<Rightarrow> disk \<Rightarrow> disk \<times> (go_error + db_handle)" where
  "Open_db env opts dk =
     (case open_checks env opts of Some e \<Rightarrow> (dk, Inl e) | None \<Rightarrow>
      (case oe_open env of
         Some e \<Rightarrow> (dk, Inl (wrap_err KindStorage ''storage.Open'' ''cannot open the database'' e))
       | None \<Rightarrow>
         (let dk0 = dk\<lparr>dk_side := oe_side env\<rparr> in
          case oe_ping env of
            Some e \<Rightarrow> (dk0, Inl (classifyOpenError ''storage.Open'' (op_Path opts) e))
          | None \<Rightarrow>
            (let h = \<lparr>dh_path = op_Path opts, dh_readOnly = op_ReadOnly opts\<rparr>;
                 f = (case dk_file dk of None \<Rightarrow> new_file | Some f \<Rightarrow> f);
                 dk1 = (if op_ReadOnly opts then dk0 else dk0\<lparr>dk_file := Some f\<rparr>)
             in case applyPragmas (op_ReadOnly opts) env of Some e \<Rightarrow> (dk1, Inl e)
                | None \<Rightarrow>
                   if op_ReadOnly opts then (dk1, Inr h)
                   else (case oe_chmod env of
                      Some e \<Rightarrow> (dk1, Inl (wrap_err KindPermission ''storage.Open'' (''cannot set permissions on '' @ op_Path opts) e))
                    | None \<Rightarrow>
                      (case Migrate False (oe_migrate env) (oe_clock env) f of
                         (Some e, f1) \<Rightarrow> (dk1\<lparr>dk_file := Some f1, dk_mode := dbFileMode\<rparr>, Inl e)
                       | (None, f1) \<Rightarrow> (dk1\<lparr>dk_file := Some f1, dk_mode := dbFileMode\<rparr>, Inr h)))))))"


section \<open>Health\<close>

record Health =
  he_Healthy :: bool
  he_Path :: string
  he_SchemaVersion :: int
  he_SizeBytes :: int
  he_Detail :: string

definition detailFrom :: "string \<Rightarrow> go_error option \<Rightarrow> string" where
  "detailFrom what err = (case err of None \<Rightarrow> what | Some e \<Rightarrow> what @ '': '' @ Error e)"

text \<open>\<open>one\<close> is the answer to \<open>SELECT 1\<close>, \<open>fsize\<close> the stat of the file; \<^const>\<open>None\<close> is a nil handle.\<close>

definition Check_db ::
  "go_error + int \<Rightarrow> mg_faults \<Rightarrow> go_error + int \<Rightarrow> db_handle option \<Rightarrow> sqlite_file \<Rightarrow> Health" where
  "Check_db one flt fsize h f =
     (case h of
        None \<Rightarrow> \<lparr>he_Healthy = False, he_Path = [], he_SchemaVersion = 0, he_SizeBytes = 0, he_Detail = ''the database is not open''\<rparr>
      | Some db \<Rightarrow>
          (let health = \<lparr>he_Healthy = False, he_Path = dh_path db, he_SchemaVersion = 0, he_SizeBytes = 0, he_Detail = []\<rparr> in
           case one of
             Inl e \<Rightarrow> health\<lparr>he_Detail := detailFrom ''the database did not answer a query'' (Some e)\<rparr>
           | Inr n \<Rightarrow>
               if n \<noteq> 1 then health\<lparr>he_Detail := ''the database returned an unexpected result''\<rparr>
               else (case CurrentVersion flt f of
                 Inl e \<Rightarrow> health\<lparr>he_Detail := detailFrom ''cannot read the schema version'' (Some e)\<rparr>
               | Inr v \<Rightarrow>
                   (let h1 = health\<lparr>he_SchemaVersion := v\<rparr> in
                    if v \<noteq> LatestVersion
                    then h1\<lparr>he_Detail := ''schema version is '' @ Itoa v @ '', expected '' @ Itoa LatestVersion\<rparr>
                    else h1\<lparr>he_SizeBytes := (case fsize of Inl _ \<Rightarrow> 0 | Inr n \<Rightarrow> n), he_Healthy := True\<rparr>))))"

definition Verify_db :: "go_error + string \<Rightarrow> db_handle option \<Rightarrow> go_error option" where
  "Verify_db answer h =
     (case h of None \<Rightarrow> Some (New KindStorage ''storage.Verify'' ''the database is not open'')
      | Some _ \<Rightarrow>
          (case answer of Inl e \<Rightarrow> Some (wrap_err KindStorage ''storage.Verify'' ''cannot run the integrity check'' e)
           | Inr r \<Rightarrow> if r \<noteq> ''ok'' then Some (New KindStorage ''storage.Verify'' (''the database failed its integrity check: '' @ r))
                      else None))"

text \<open>The statements \<open>Close\<close> runs, and its error; closing a nil handle does nothing.\<close>

definition Close_db :: "go_error option \<Rightarrow> db_handle option \<Rightarrow> string list \<times> go_error option" where
  "Close_db fault h =
     (case h of None \<Rightarrow> ([], None)
      | Some db \<Rightarrow>
          (if dh_readOnly db then [] else [''PRAGMA wal_checkpoint(TRUNCATE)''],
           case fault of None \<Rightarrow> None
           | Some e \<Rightarrow> Some (wrap_err KindStorage ''storage.Close'' ''cannot close the database'' e)))"

section \<open>Properties\<close>

definition file_of :: "disk \<Rightarrow> sqlite_file" where
  "file_of dk = (case dk_file dk of None \<Rightarrow> new_file | Some f \<Rightarrow> f)"

lemma Open_db_write:
  assumes "Open_db env opts dk = (dk', Inr h)" "\<not> op_ReadOnly opts"
  shows "\<exists>g. Migrate False (oe_migrate env) (oe_clock env) (file_of dk) = (None, g)
    \<and> dk' = \<lparr>dk_file = Some g, dk_mode = dbFileMode, dk_side = oe_side env\<rparr> \<and> h = \<lparr>dh_path = op_Path opts, dh_readOnly = False\<rparr>
    \<and> oe_journal env = Inr ''wal'' \<and> oe_foreign env = Inr 1"
  using assms
  by (auto simp: Open_db_def file_of_def applyPragmas_def Let_def split: option.splits sum.splits if_splits prod.splits)

lemma Open_db_read:
  assumes "Open_db env opts dk = (dk', r)" "op_ReadOnly opts"
  shows "dk_file dk' = dk_file dk \<and> dk_mode dk' = dk_mode dk"
  using assms by (auto simp: Open_db_def Let_def split: option.splits if_splits)

lemma Open_db_error:
  assumes "Open_db env opts dk = (dk', Inl e)"
  shows "dk_file dk' = dk_file dk \<or> dk_file dk' = Some (file_of dk)
    \<or> (\<exists>e g. Migrate False (oe_migrate env) (oe_clock env) (file_of dk) = (Some e, g) \<and> dk_file dk' = Some g)"
  using assms
  by (auto simp: Open_db_def file_of_def Let_def split: option.splits if_splits prod.splits)

lemma Open_db_extends: "extends (file_of dk) (file_of (fst (Open_db env opts dk)))"
proof -
  obtain dk' r where o: "Open_db env opts dk = (dk', r)" by (cases "Open_db env opts dk")
  have "extends (file_of dk) (file_of dk')"
  proof (cases r)
    case (Inl e)
    with Open_db_error o Migrate_keeps show ?thesis by (fastforce simp: file_of_def split: option.splits)
  next
    case (Inr h)
    then show ?thesis
      using Open_db_write Open_db_read o Migrate_keeps by (cases "op_ReadOnly opts") (fastforce simp: file_of_def)+
  qed
  with o show ?thesis by simp
qed

section \<open>The tables a file holds\<close>

text \<open>The trust tables; a file without them reads as one with empty tables.\<close>

definition tables_of :: "sqlite_file \<Rightarrow> database" where
  "tables_of f = (case sf_identity f of None \<Rightarrow> empty_db | Some d \<Rightarrow> d)"

lemma run_schema_tables: "tables_of (run_schema s f) = tables_of f"
  by (cases s) (simp_all add: tables_of_def split: option.splits)

lemma applyMigration_tables: "tables_of (snd (applyMigration flt now m f)) = tables_of f"
proof -
  have "tables_of g = tables_of f" if "insert_ledger r (run_schema s f) = Inr g" for g r s
    using that run_schema_tables [of s f] by (auto simp: insert_ledger_def tables_of_def split: option.splits if_splits)
  then show ?thesis by (auto simp: applyMigration_def Let_def split: option.splits sum.splits)
qed

lemma apply_pending_tables: "tables_of (snd (apply_pending flt clock applied ms f)) = tables_of f"
proof (induction ms arbitrary: f)
  case (Cons m ms)
  show ?case
    using Cons applyMigration_tables [of flt "clock (mg_Version m)" m f] by (auto split: prod.splits option.splits)
qed simp

lemma Migrate_tables: "tables_of (snd (Migrate b flt clock f)) = tables_of f"
proof -
  have e: "tables_of (snd (ensureLedger flt f)) = tables_of f"
    using ensureLedger_keeps [of flt f] by (cases "ensureLedger flt f") (simp add: tables_of_def)
  then show ?thesis
    using apply_pending_tables by (auto simp: Migrate_def split: prod.splits option.splits sum.splits)
qed

lemma Open_db_tables: "tables_of (file_of (fst (Open_db env opts dk))) = tables_of (file_of dk)"
proof -
  have "file_of (fst (Open_db env opts dk)) \<in> {file_of dk, snd (Migrate False (oe_migrate env) (oe_clock env) (file_of dk))}"
    by (auto simp: Open_db_def file_of_def Let_def split: option.splits prod.splits if_splits)
  then show ?thesis using Migrate_tables by auto
qed

lemma Open_db_ready:
  assumes "Open_db env opts dk = (dk', Inr h)" "\<not> op_ReadOnly opts" "schema_ok (file_of dk)" "flt MgMax = None"
  shows "oe_journal env = Inr ''wal'' \<and> oe_foreign env = Inr 1 \<and> dk_mode dk' = dbFileMode
    \<and> extends (file_of dk) (file_of dk') \<and> schema_ok (file_of dk')
    \<and> versions_of (file_of dk') = versions_of (file_of dk) \<union> {1, LatestVersion} \<and> sf_identity (file_of dk') \<noteq> None
    \<and> he_Healthy (Check_db (Inr 1) flt fsize (Some h) (file_of dk'))"
proof -
  from Open_db_write [OF assms(1,2)] obtain g where g: "Migrate False (oe_migrate env) (oe_clock env) (file_of dk) = (None, g)"
    and o: "dk' = \<lparr>dk_file = Some g, dk_mode = dbFileMode, dk_side = oe_side env\<rparr>" "oe_journal env = Inr ''wal''" "oe_foreign env = Inr 1" by blast
  have f': "file_of dk' = g" using o(1) by (simp add: file_of_def)
  note keep = Migrate_keeps [OF g] and reach = Migrate_reaches [OF g]
  have "CurrentVersion flt g = Inr LatestVersion"
    using reach assms(4) by (intro CurrentVersion_latest [of g "versions_of (file_of dk)"]) auto
  then have "he_Healthy (Check_db (Inr 1) flt fsize (Some h) g)" by (simp add: Check_db_def Let_def)
  moreover have "schema_ok g" using keep assms(3) by blast
  then have "sf_identity g \<noteq> None" using reach by (auto simp: schema_ok_def)
  ultimately show ?thesis using o keep reach assms(3) f' by simp
qed

text \<open>
  C24. A database opened for writing is ready: its journal is a write-ahead log, foreign keys are enforced, only
  its owner can access the file, the ledger has every migration and nothing newer, the trust tables are
  there with the rows they had, and a health check that gets answers reports it healthy.
\<close>

theorem open_prepares_database:
  assumes "Open_db env opts dk = (dk', Inr h)" "\<not> op_ReadOnly opts" "schema_ok (file_of dk)" "flt MgMax = None"
  shows "oe_journal env = Inr ''wal'' \<and> oe_foreign env = Inr 1 \<and> dk_mode dk' = dbFileMode
    \<and> extends (file_of dk) (file_of dk') \<and> schema_ok (file_of dk')
    \<and> versions_of (file_of dk') = versions_of (file_of dk) \<union> {1, LatestVersion} \<and> sf_identity (file_of dk') \<noteq> None
    \<and> he_Healthy (Check_db (Inr 1) flt fsize (Some h) (file_of dk'))"
  using assms by (rule Open_db_ready)

definition toy_options :: open_options where
  "toy_options = \<lparr>op_Path = ''/var/lib/infrapilot/infrapilot.db'', op_BusyTimeout = 5 * Second, op_ReadOnly = False\<rparr>"

definition toy_open_env :: "mg_faults \<Rightarrow> open_env" where
  "toy_open_env flt = \<lparr>oe_dir = Inr True, oe_stat = None, oe_open = None, oe_ping = None, oe_journal = Inr ''wal'',
     oe_foreign = Inr 1, oe_chmod = None, oe_migrate = flt, oe_clock = (\<lambda>_. 0), oe_side = []\<rparr>"

lemma toy_open_checks: "open_checks (toy_open_env flt) toy_options = None"
  by (simp add: open_checks_def toy_open_env_def toy_options_def time_units)

lemma toy_open:
  "\<exists>dk' h. Open_db (toy_open_env (\<lambda>_. None)) toy_options \<lparr>dk_file = None, dk_mode = 0, dk_side = []\<rparr> = (dk', Inr h)"
proof -
  obtain g where "Migrate False (\<lambda>_. None) (\<lambda>_. 0) new_file = (None, g)"
    using Migrate_succeeds [of new_file "\<lambda>_. 0"] by (auto simp: new_file_def versions_of_def)
  then show ?thesis
    using toy_open_checks [of "\<lambda>_. None"]
    by (simp add: Open_db_def applyPragmas_def toy_open_env_def toy_options_def)
qed

theorem open_prepares_database_witness:
  "\<exists>dk' h. Open_db (toy_open_env (\<lambda>_. None)) toy_options \<lparr>dk_file = None, dk_mode = 0, dk_side = []\<rparr> = (dk', Inr h)
     \<and> he_Healthy (Check_db (Inr 1) (\<lambda>_. None) (Inr 4096) (Some h) (file_of dk'))"
proof -
  from toy_open obtain dk' h where
    o: "Open_db (toy_open_env (\<lambda>_. None)) toy_options \<lparr>dk_file = None, dk_mode = 0, dk_side = []\<rparr> = (dk', Inr h)" by blast
  have "\<not> op_ReadOnly toy_options" "schema_ok (file_of \<lparr>dk_file = None, dk_mode = 0, dk_side = []\<rparr>)"
    by (simp_all add: toy_options_def file_of_def new_file_def schema_ok_def versions_of_def)
  from open_prepares_database [OF o this, of "\<lambda>_. None" "Inr 4096"] o show ?thesis by blast
qed

text \<open>
  C20. No failed or interrupted opening loses data or leaves half a migration: whatever sequence of attempts with
  whatever faults, the ledger stays sound and every row stays, the opening around it included; and as long as the ledger is not ahead of
  the program, an attempt without faults succeeds. A read-only opening changes neither what the file
  holds nor its permission bits; SQLite's own files beside it are outside this.
\<close>

theorem migration_attempts_are_safe:
  assumes "schema_ok f"
  shows "extends f (fold migrate_attempt ops f) \<and> schema_ok (fold migrate_attempt ops f)
    \<and> ((\<forall>v \<in> versions_of (fold migrate_attempt ops f). v \<le> LatestVersion) \<longrightarrow>
        (\<exists>g. Migrate False (\<lambda>_. None) clock (fold migrate_attempt ops f) = (None, g)))
    \<and> extends (file_of dk) (file_of (fst (Open_db env opts dk)))
    \<and> (op_ReadOnly opts \<longrightarrow> dk_file (fst (Open_db env opts dk)) = dk_file dk
          \<and> dk_mode (fst (Open_db env opts dk)) = dk_mode dk)"
  using Open_db_extends migrating.run_before [OF assms] migrating.run_inv [OF assms] Migrate_succeeds
    Open_db_read [of env opts dk "fst (Open_db env opts dk)" "snd (Open_db env opts dk)"] by simp

theorem migration_attempts_are_safe_witness:
  "\<exists>g. Migrate False (\<lambda>_. None) (\<lambda>_. 0)
     (fold migrate_attempt [(\<lambda>op. if op = MgCommit 2 then Some no_table else None, \<lambda>_. 0)] new_file) = (None, g)"
proof -
  let ?ops = "[(\<lambda>op. if op = MgCommit 2 then Some no_table else None, \<lambda>_. 0 :: instant)]"
  have ok: "schema_ok new_file" by (simp add: new_file_def schema_ok_def versions_of_def)
  have "\<forall>v \<in> versions_of (fold migrate_attempt ?ops new_file). v \<le> LatestVersion"
    by (simp add: migrate_attempt_def Migrate_def ensureLedger_def appliedVersions_def CurrentVersion_def migrations_def
        new_file_def max_version_def applyMigration_def insert_ledger_def Let_def versions_of_def)
  with migration_attempts_are_safe [OF ok, of ?ops "\<lambda>_. 0" "\<lparr>dk_file = None, dk_mode = 0, dk_side = []\<rparr>" "toy_open_env (\<lambda>_. None)" toy_options]
  show ?thesis by blast
qed

end
