(* ===== verification/Go_Duration.thy ===== *)
theory Go_Duration
  imports Go_Time Go_Float "HOL-Library.Word"
begin

text \<open>
  \<open>time.Duration\<close> as the 64-bit integer it is: its text, \<open>time.ParseDuration\<close>, and the arithmetic that
  wraps. A fraction of a unit goes through float64.
\<close>

section \<open>Wrap-around\<close>

definition wrap64 :: "int \<Rightarrow> int" where
  "wrap64 i = sint (word_of_int i :: 64 word)"

lemma wrap64_id: "min_int64 \<le> i \<Longrightarrow> i \<le> max_int64 \<Longrightarrow> wrap64 i = i"
  unfolding wrap64_def min_int64_def max_int64_def
  by (subst sint_sbintrunc', rule signed_take_bit_int_eq_self) simp_all

lemma wrap64_range: "min_int64 \<le> wrap64 i \<and> wrap64 i \<le> max_int64"
  using sint_range_size [of "word_of_int i :: 64 word"]
  by (auto simp: wrap64_def min_int64_def max_int64_def size_word_def)

lemma wrap64_cong: "(18446744073709551616 :: int) dvd wrap64 i - i"
proof -
  have "take_bit 64 (wrap64 i) = take_bit 64 i"
    by (simp add: wrap64_def sint_sbintrunc' take_bit_signed_take_bit)
  then have "wrap64 i mod 2 ^ 64 = i mod 2 ^ 64" by (simp add: take_bit_eq_mod)
  then show ?thesis by (simp add: mod_eq_dvd_iff)
qed

section \<open>Fractions of a unit\<close>

text \<open>\<open>uint64(float64(f) * (float64(unit) / scale))\<close>; the scale is a power of ten, kept as float64.\<close>

definition float_fraction :: "nat \<Rightarrow> nat \<Rightarrow> nat \<Rightarrow> nat" where
  "float_fraction f unit scale =
     (let (fp, fq) = float64 f 1; (sp, sq) = float64 scale 1;
          (up, uq) = float64 (unit * sq) sp; (rp, rq) = float64 (fp * up) (fq * uq)
      in rp div rq)"

section \<open>Parsing\<close>

definition two63 :: nat where "two63 = 9223372036854775808"

text \<open>\<open>leadingInt\<close>: \<^const>\<open>None\<close> on overflow.\<close>

fun leading_int :: "nat \<Rightarrow> string \<Rightarrow> (nat \<times> string) option" where
  "leading_int x [] = Some (x, [])"
| "leading_int x (c # s) =
     (if \<not> is_digit c then Some (x, c # s)
      else if two63 div 10 < x then None
      else let y = 10 * x + digit_val c in if two63 < y then None else leading_int y s)"

text \<open>\<open>leadingFraction\<close>: digits beyond the range are skipped.\<close>

fun leading_fraction :: "nat \<Rightarrow> nat \<Rightarrow> bool \<Rightarrow> string \<Rightarrow> nat \<times> nat \<times> string" where
  "leading_fraction x scale full [] = (x, scale, [])"
| "leading_fraction x scale full (c # s) =
     (if \<not> is_digit c then (x, scale, c # s)
      else if full then leading_fraction x scale True s
      else if (two63 - 1) div 10 < x then leading_fraction x scale True s
      else let y = 10 * x + digit_val c in
        if two63 < y then leading_fraction x scale True s else leading_fraction y (10 * scale) False s)"

definition unit_of :: "string \<Rightarrow> nat option" where
  "unit_of = map_of [(''ns'', 1), (''us'', 1000), ([CHR 0xC2, CHR 0xB5, CHR ''s''], 1000),
     ([CHR 0xCE, CHR 0xBC, CHR ''s''], 1000), (''ms'', 1000000), (''s'', 1000000000),
     (''m'', 60000000000), (''h'', 3600000000000)]"

text \<open>One number with its unit; the rest of the text with the value.\<close>

definition number_start :: "char \<Rightarrow> bool" where
  "number_start c \<longleftrightarrow> c = CHR ''.'' \<or> is_digit c"

definition duration_term :: "string \<Rightarrow> (nat \<times> string) option" where
  "duration_term s =
     (if s = [] \<or> \<not> number_start (hd s) then None
      else (case leading_int 0 s of None \<Rightarrow> None
      | Some (v, s1) \<Rightarrow>
          (let pre = (length s1 \<noteq> length s);
               (f, scale, s2) = (if s1 \<noteq> [] \<and> hd s1 = CHR ''.'' then leading_fraction 0 1 False (tl s1) else (0, 1, s1));
               post = (s1 \<noteq> [] \<and> hd s1 = CHR ''.'' \<and> length s2 \<noteq> length (tl s1));
               u = takeWhile (\<lambda>c. \<not> number_start c) s2;
               s3 = dropWhile (\<lambda>c. \<not> number_start c) s2
           in if \<not> pre \<and> \<not> post then None
              else if u = [] then None
              else (case unit_of u of None \<Rightarrow> None
              | Some unit \<Rightarrow>
                  if two63 div unit < v then None
                  else (let w = v * unit + (if 0 < f then float_fraction f unit scale else 0)
                        in if two63 < w then None else Some (w, s3))))))"

lemma leading_int_length: "leading_int x s = Some (v, r) \<Longrightarrow> length r \<le> length s"
  by (induction x s rule: leading_int.induct) (auto simp: Let_def split: if_splits)

lemma leading_fraction_length: "leading_fraction x sc b s = (f, sc', r) \<Longrightarrow> length r \<le> length s"
  by (induction x sc b s rule: leading_fraction.induct) (auto simp: Let_def split: if_splits)

lemma takeWhile_drop_length: "takeWhile P s \<noteq> [] \<Longrightarrow> length (dropWhile P s) < length s"
  by (cases s) (auto simp: le_imp_less_Suc length_dropWhile_le split: if_splits)

lemma duration_term_length:
  assumes "duration_term s = Some (w, r)"
  shows "length r < length s"
proof -
  from assms obtain v s1 f scale s2 where
    l: "leading_int 0 s = Some (v, s1)"
    and f: "(f, scale, s2) = (if s1 \<noteq> [] \<and> hd s1 = CHR ''.'' then leading_fraction 0 1 False (tl s1) else (0, 1, s1))"
    and u: "takeWhile (\<lambda>c. \<not> number_start c) s2 \<noteq> []"
    and r: "r = dropWhile (\<lambda>c. \<not> number_start c) s2"
    by (auto simp: duration_term_def Let_def split: if_splits option.splits prod.splits)
  have "length s1 \<le> length s" using l by (rule leading_int_length)
  moreover have "length s2 \<le> length s1"
  proof (cases "s1 \<noteq> [] \<and> hd s1 = CHR ''.''")
    case True
    then have "leading_fraction 0 1 False (tl s1) = (f, scale, s2)" using f by simp
    from leading_fraction_length [OF this] show ?thesis by simp
  next
    case False
    with f show ?thesis by simp
  qed
  moreover have "length r < length s2" unfolding r using u by (rule takeWhile_drop_length)
  ultimately show ?thesis by simp
qed

function duration_terms :: "nat \<Rightarrow> string \<Rightarrow> nat option" where
  "duration_terms d s =
     (if s = [] then Some d
      else (case duration_term s of None \<Rightarrow> None
      | Some (w, r) \<Rightarrow> if two63 < d + w then None else duration_terms (d + w) r))"
  by pat_completeness auto
termination
  by (relation "measure (length \<circ> snd)") (auto dest: duration_term_length)

declare duration_terms.simps [simp del]

definition ParseDuration :: "string \<Rightarrow> duration option" where
  "ParseDuration s =
     (let neg = (s \<noteq> [] \<and> hd s = CHR ''-'');
          body = (if s \<noteq> [] \<and> (hd s = CHR ''-'' \<or> hd s = CHR ''+'') then tl s else s)
      in if body = ''0'' then Some 0
         else if body = [] then None
         else (case duration_terms 0 body of None \<Rightarrow> None
         | Some d \<Rightarrow> if neg then Some (- int d) else if two63 - 1 < d then None else Some (int d)))"

lemma duration_terms_le: "duration_terms d s = Some v \<Longrightarrow> d \<le> two63 \<Longrightarrow> v \<le> two63"
proof (induction d s rule: duration_terms.induct)
  case (1 d s)
  then show ?case
    by (subst (asm) duration_terms.simps) (auto split: if_splits option.splits)
qed

lemma ParseDuration_range: "ParseDuration s = Some d \<Longrightarrow> min_int64 \<le> d \<and> d \<le> max_int64"
  using duration_terms_le [of 0]
  by (fastforce simp: ParseDuration_def Let_def two63_def min_int64_def max_int64_def split: if_splits option.splits)


section \<open>Printing\<close>

text \<open>\<open>fmtFrac\<close>: the digits after the point without trailing zeros, and no point without digits.\<close>

definition duration_frac :: "nat \<Rightarrow> nat \<Rightarrow> string" where
  "duration_frac prec u =
     (let ds = trim_zeros (pad_text prec (show_nat (u mod 10 ^ prec))) in
      if u mod 10 ^ prec = 0 then [] else CHR ''.'' # ds)"

definition Duration_String :: "duration \<Rightarrow> string" where
  "Duration_String d =
     (let u = nat \<bar>d\<bar>;
          txt =
            (if u = 0 then ''0s''
             else if u < 1000 then show_nat u @ ''ns''
             else if u < 1000000 then show_nat (u div 1000) @ duration_frac 3 u @ [CHR 0xC2, CHR 0xB5, CHR ''s'']
             else if u < 1000000000 then show_nat (u div 1000000) @ duration_frac 6 u @ ''ms''
             else
               (let s = u div 1000000000; secs = show_nat (s mod 60) @ duration_frac 9 u @ ''s'' in
                if s < 60 then secs
                else (let m = s div 60; mins = show_nat (m mod 60) @ ''m'' @ secs in
                      if m < 60 then mins else show_nat (m div 60) @ ''h'' @ mins)))
      in if d < 0 then CHR ''-'' # txt else txt)"

lemma read_digits_ge: "read_digits x s = Some n \<Longrightarrow> x \<le> n"
proof (induction x s rule: read_digits.induct)
  case (2 acc c s)
  then have "10 * acc + digit_val c \<le> n" by (auto split: if_splits)
  then show ?case by simp
qed simp

lemma leading_int_digits:
  assumes "read_digits x s = Some n" "n \<le> two63" "r = [] \<or> \<not> is_digit (hd r)"
  shows "leading_int x (s @ r) = Some (n, r)"
  using assms
proof (induction x s rule: read_digits.induct)
  case (1 acc)
  then show ?case by (cases r) auto
next
  case (2 acc c s)
  then have d: "is_digit c" and rd: "read_digits (10 * acc + digit_val c) s = Some n"
    by (auto split: if_splits)
  from read_digits_ge [OF rd] 2(3) have le: "10 * acc + digit_val c \<le> two63" by simp
  then have "acc \<le> two63 div 10" by (simp add: less_eq_div_iff_mult_less_eq)
  with 2 d rd le show ?case by (simp add: Let_def)
qed

lemma leading_int_show: "n \<le> two63 \<Longrightarrow> r = [] \<or> \<not> is_digit (hd r) \<Longrightarrow> leading_int 0 (show_nat n @ r) = Some (n, r)"
  by (rule leading_int_digits) (simp_all add: read_digits_show_nat)

lemma duration_term_whole:
  assumes "s \<noteq> []" "number_start (hd s)" "leading_int 0 s = Some (v, s1)" "length s1 \<noteq> length s"
    "s1 \<noteq> [] \<Longrightarrow> hd s1 \<noteq> CHR ''.''" "takeWhile (\<lambda>c. \<not> number_start c) s1 = u" "u \<noteq> []"
    "unit_of u = Some unit" "v \<le> two63 div unit" "v * unit \<le> two63"
  shows "duration_term s = Some (v * unit, dropWhile (\<lambda>c. \<not> number_start c) s1)"
proof -
  have "\<not> (s1 \<noteq> [] \<and> hd s1 = CHR ''.'')" "\<not> two63 div unit < v" "\<not> two63 < v * unit"
    using assms by auto
  with assms(1-4,6-8) show ?thesis
    by (simp only: duration_term_def Let_def option.case prod.case if_False if_True simp_thms)
      (simp only: add_0_right less_irrefl if_False if_True simp_thms)
qed

lemma duration_term_show:
  assumes "unit_of u = Some unit" "n \<le> two63 div unit" "n \<le> two63" "n * unit \<le> two63"
    "u \<noteq> []" "\<forall>c \<in> set u. \<not> number_start c" "r = [] \<or> number_start (hd r)"
  shows "duration_term (show_nat n @ u @ r) = Some (n * unit, r)"
proof -
  have hd: "number_start (hd (show_nat n @ u @ r))" "show_nat n @ u @ r \<noteq> []"
    using show_nat_hd_digit [of n] by (simp_all add: number_start_def)
  have nd: "\<not> number_start (hd (u @ r))" using assms(5,6) by (cases u) auto
  have li: "leading_int 0 (show_nat n @ u @ r) = Some (n, u @ r)"
    using assms(3) nd by (intro leading_int_show) (auto simp: number_start_def)
  have tw: "takeWhile (\<lambda>c. \<not> number_start c) (u @ r) = u" and dw: "dropWhile (\<lambda>c. \<not> number_start c) (u @ r) = r"
    using assms(6,7) by (cases r; auto simp: takeWhile_append2 dropWhile_append2)+
  have dot: "hd (u @ r) \<noteq> CHR ''.''" using nd by (auto simp: number_start_def)
  have len: "length (u @ r) \<noteq> length (show_nat n @ u @ r)" by simp
  from duration_term_whole [OF hd(2,1) li len dot tw assms(5,1,2,4)] show ?thesis by (simp only: dw)
qed



lemma unit_letters: "\<not> number_start CHR ''h''" "\<not> number_start CHR ''m''" "\<not> number_start CHR ''s''"
  by (simp_all add: number_start_def is_digit_def)

lemma duration_terms_show:
  assumes "[c] \<in> {''s'', ''m'', ''h''}" "unit_of [c] = Some unit" "n * unit \<le> two63" "0 < unit"
    "r = [] \<or> number_start (hd r)" "d + n * unit \<le> two63"
  shows "duration_terms d (show_nat n @ c # r) = duration_terms (d + n * unit) r"
proof -
  have b: "n \<le> two63 div unit" "n \<le> two63"
    using assms(3,4) by (simp_all add: less_eq_div_iff_mult_less_eq) (metis One_nat_def Suc_leI le_trans mult.right_neutral mult_le_mono2)
  have "duration_term (show_nat n @ [c] @ r) = Some (n * unit, r)"
    using assms b by (intro duration_term_show) (auto simp: unit_letters)
  with assms(6) show ?thesis
    by (subst duration_terms.simps) (simp add: not_less)
qed

lemma units: "unit_of ''s'' = Some 1000000000" "unit_of ''m'' = Some 60000000000" "unit_of ''h'' = Some 3600000000000"
  by (simp_all add: unit_of_def)

lemma duration_terms_Nil [simp]: "duration_terms d [] = Some d"
  by (simp add: duration_terms.simps)

lemma number_start_show0 [simp]: "number_start (hd (show_nat n))"
  using show_nat_hd_digit [of n] by (simp add: number_start_def)

lemma number_start_show [simp]: "number_start (hd (show_nat n @ s))"
  using show_nat_hd_digit [of n] by (simp add: number_start_def)

lemma Duration_String_seconds:
  assumes "0 < n"
  shows "Duration_String (int n * Second) =
    (if n < 60 then show_nat n @ ''s''
     else if n < 3600 then show_nat (n div 60) @ ''m'' @ show_nat (n mod 60) @ ''s''
     else show_nat (n div 3600) @ ''h'' @ show_nat (n div 60 mod 60) @ ''m'' @ show_nat (n mod 60) @ ''s'')"
proof -
  have u: "nat \<bar>int n * Second\<bar> = n * 1000000000" "\<not> int n * Second < 0"
    by (simp_all add: Second_def nat_mult_distrib abs_mult)
  have fr: "duration_frac 9 (n * 1000000000) = []" by (simp add: duration_frac_def)
  have m: "n div 60 < 60 \<longleftrightarrow> n < 3600" by auto
  have big: "\<not> n * 1000000000 < 1000000000" "n * 1000000000 \<noteq> 0" "\<not> n * 1000000000 < 1000" "\<not> n * 1000000000 < 1000000"
    using assms by auto
  have d60: "n div 60 div 60 = n div 3600" by (simp add: div_mult2_eq [symmetric])
  have md: "n < 3600 \<Longrightarrow> n div 60 mod 60 = n div 60" by simp
  show ?thesis
    unfolding Duration_String_def Let_def u fr using big u(2) m d60 md by simp
qed

lemma whole_seconds_roundtrip:
  assumes "n \<le> 9223372036"
  shows "ParseDuration (Duration_String (int n * Second)) = Some (int n * Second)"
proof (cases "n = 0")
  case True
  have "ParseDuration ''0s'' = Some 0"
    using duration_terms_show [of "CHR ''s''" 1000000000 0 "[]" 0]
    by (simp add: ParseDuration_def units show_nat_eval digit_char_eval two63_def)
  with True show ?thesis by (simp add: Duration_String_def)
next
  case False
  let ?t = "Duration_String (int n * Second)"
  have t: "duration_terms 0 ?t = Some (n * 1000000000)"
  proof -
    consider "n < 60" | "60 \<le> n" "n < 3600" | "3600 \<le> n" by linarith
    then show ?thesis
    proof cases
      case 1
      then show ?thesis
        using assms False duration_terms_show [of "CHR ''s''" 1000000000 n "[]" 0]
        by (simp add: Duration_String_seconds units two63_def)
    next
      case 2
      have e: "n div 60 * 60000000000 + n mod 60 * 1000000000 = n * 1000000000"
        using div_mult_mod_eq [of n 60] by linarith
      show ?thesis
        using 2 assms e duration_terms_show [of "CHR ''m''" 60000000000 "n div 60" "show_nat (n mod 60) @ ''s''" 0]
          duration_terms_show [of "CHR ''s''" 1000000000 "n mod 60" "[]" "n div 60 * 60000000000"]
        by (simp add: Duration_String_seconds units two63_def)
    next
      case 3
      have "n div 3600 * 3600 + n div 60 mod 60 * 60 + n mod 60 = n"
      proof -
        have "n div 60 div 60 = n div 3600" by (simp add: div_mult2_eq [symmetric])
        then show ?thesis using div_mult_mod_eq [of n 60] div_mult_mod_eq [of "n div 60" 60] by linarith
      qed
      then have e: "n div 3600 * 3600000000000 + n div 60 mod 60 * 60000000000 + n mod 60 * 1000000000 = n * 1000000000"
        by linarith
      show ?thesis
        using 3 assms e duration_terms_show [of "CHR ''h''" 3600000000000 "n div 3600" "show_nat (n div 60 mod 60) @ ''m'' @ show_nat (n mod 60) @ ''s''" 0]
          duration_terms_show [of "CHR ''m''" 60000000000 "n div 60 mod 60" "show_nat (n mod 60) @ ''s''" "n div 3600 * 3600000000000"]
          duration_terms_show [of "CHR ''s''" 1000000000 "n mod 60" "[]" "n div 3600 * 3600000000000 + n div 60 mod 60 * 60000000000"]
        by (simp add: Duration_String_seconds units two63_def)
    qed
  qed
  have hd: "\<exists>c r. ?t = c # r \<and> is_digit c" and len: "2 \<le> length ?t"
  proof -
    have "\<exists>v r. ?t = show_nat v @ r \<and> r \<noteq> []" using False by (auto simp: Duration_String_seconds)
    then obtain v r where v: "?t = show_nat v @ r" "r \<noteq> []" by blast
    then show "\<exists>c r. ?t = c # r \<and> is_digit c" using show_nat_hd_digit [of v] by (cases "show_nat v") auto
    show "2 \<le> length ?t" using v by (cases "show_nat v"; cases r) auto
  qed
  from hd obtain c r where cr: "?t = c # r" "is_digit c" by blast
  moreover have "c # r \<noteq> ''0''" using len cr by auto
  ultimately have c: "?t = c # r" "is_digit c" "c # r \<noteq> ''0''" by simp_all
  then have "c \<noteq> CHR ''-''" "c \<noteq> CHR ''+''" by auto
  with c t assms show ?thesis by (auto simp: ParseDuration_def Let_def two63_def Second_def)
qed

end
