(* ===== verification/Logging.thy ===== *)
theory Logging
  imports Errors Paths
begin

text \<open>
  \<open>internal/logging\<close>: levels and formats, the attributes of a log record with the redaction of those that
  look like credentials, and the logger as the calls made on it. The inner handler of \<open>log/slog\<close> is
  modelled by what it is handed: nothing else can reach the output.
\<close>

section \<open>Levels and formats\<close>

datatype Level = LevelDebug | LevelInfo | LevelWarn | LevelError

fun level_num :: "Level \<Rightarrow> int" where
  "level_num LevelDebug = -4"
| "level_num LevelInfo = 0"
| "level_num LevelWarn = 4"
| "level_num LevelError = 8"

instantiation Level :: linorder
begin

definition less_eq_Level :: "Level \<Rightarrow> Level \<Rightarrow> bool" where
  "less_eq_Level a b \<longleftrightarrow> level_num a \<le> level_num b"

definition less_Level :: "Level \<Rightarrow> Level \<Rightarrow> bool" where
  "less_Level a b \<longleftrightarrow> level_num a < level_num b"

instance
proof
  fix a b :: Level
  assume "a \<le> b" "b \<le> a"
  then show "a = b" by (cases a; cases b) (simp_all add: less_eq_Level_def)
qed (auto simp: less_eq_Level_def less_Level_def)

end

datatype Format = FormatText | FormatJSON

definition ParseLevel :: "string \<Rightarrow> go_error + Level" where
  "ParseLevel name =
     (let n = ToLower (TrimSpace name) in
      if n = ''debug'' then Inr LevelDebug
      else if n = ''info'' then Inr LevelInfo
      else if n = ''warn'' \<or> n = ''warning'' then Inr LevelWarn
      else if n = ''error'' then Inr LevelError
      else Inl (New KindValidation ''logging.ParseLevel''
             (''unsupported log level '' @ Quote name @ '': must be one of debug, info, warn, error'')))"

definition ParseFormat :: "string \<Rightarrow> go_error + Format" where
  "ParseFormat name =
     (let n = ToLower (TrimSpace name) in
      if n = [] \<or> n = ''text'' then Inr FormatText
      else if n = ''json'' then Inr FormatJSON
      else Inl (New KindValidation ''logging.ParseFormat''
             (''unsupported log format '' @ Quote name @ '': must be one of text, json'')))"

section \<open>Attributes\<close>

text \<open>
  A value is a text, some other plain value by its rendering, a group, a \<open>Secret\<close>, or another
  \<open>LogValuer\<close> with the value it answers.
\<close>

datatype attr = Attr (attr_key: string) (attr_value: attr_val)
  and attr_val =
      StringVal string
    | PlainVal string
    | GroupVal "attr list"
    | SecretVal string
    | ValuerVal attr_val

definition Redacted :: string where "Redacted = ''[REDACTED]''"

definition sensitiveKeyFragments :: "string list" where
  "sensitiveKeyFragments =
     [''password'', ''passwd'', ''passphrase'', ''secret'', ''token'', ''credential'', ''apikey'', ''api_key'',
      ''private_key'', ''privatekey'', ''signing_key'', ''session_key'', ''authorization'', ''auth_header'']"

definition isSensitiveKey :: "string \<Rightarrow> bool" where
  "isSensitiveKey key \<longleftrightarrow>
     key \<noteq> [] \<and> (\<exists>fragment \<in> set sensitiveKeyFragments. Contains (ToLower key) fragment)"

text \<open>\<open>Value.Resolve\<close>: at most 100 calls of \<open>LogValue\<close>, then an error value.\<close>

definition resolve_limit :: attr_val where
  "resolve_limit = PlainVal ''LogValue called too many times''"

fun resolve :: "nat \<Rightarrow> attr_val \<Rightarrow> attr_val" where
  "resolve 0 v = resolve_limit"
| "resolve (Suc n) (SecretVal s) = (if n = 0 then resolve_limit else StringVal Redacted)"
| "resolve (Suc n) (ValuerVal v) = resolve n v"
| "resolve (Suc n) v = v"

definition max_log_values :: nat where "max_log_values = 100"

abbreviation Resolve :: "attr_val \<Rightarrow> attr_val" where
  "Resolve v \<equiv> resolve max_log_values v"

lemma resolve_size: "resolve n v = GroupVal as \<Longrightarrow> size_list size as < size v"
  by (induction n v rule: resolve.induct) (auto simp: resolve_limit_def split: if_splits)

text \<open>\<open>slog\<close> drops groups without attributes, from a group as from a record.\<close>

definition omit_empty_groups :: "attr list \<Rightarrow> attr list" where
  "omit_empty_groups as = filter (\<lambda>a. attr_value a \<noteq> GroupVal []) as"

function redactAttr :: "attr \<Rightarrow> attr" where
  "redactAttr (Attr k v) =
     (if isSensitiveKey k then Attr k (StringVal Redacted)
      else (case Resolve v of
              GroupVal as \<Rightarrow> Attr k (GroupVal (omit_empty_groups (map redactAttr as)))
            | w \<Rightarrow> Attr k w))"
  by pat_completeness auto
termination
proof (relation "measure size", goal_cases)
  case (2 k v as a)
  then have "size a \<le> size_list size as" by (intro size_list_estimation' [of a as "size a" size]) simp_all
  with resolve_size [OF 2(2)] show ?case by simp
qed simp

section \<open>The logger\<close>

text \<open>
  A logger from \<open>New\<close>: its level and format, and what \<open>WithAttrs\<close> and \<open>WithGroup\<close> have put in front of
  the record. A record that is enabled reaches the inner handler with those.
\<close>

datatype prefix_item = OpenGroup string | Preformatted "attr list"

record logger =
  lg_level :: Level
  lg_format :: Format
  lg_prefix :: "prefix_item list"

record log_record =
  rec_level :: Level
  rec_message :: string
  rec_attrs :: "attr list"

type_synonym emitted = "prefix_item list \<times> log_record"

text \<open>\<open>output\<close> says whether a writer was given.\<close>

definition New_logger :: "bool \<Rightarrow> string \<Rightarrow> string \<Rightarrow> go_error + logger" where
  "New_logger output level format =
     (if \<not> output then Inl (New KindInternal ''logging.New'' ''log output writer is required'')
      else res_bind (ParseLevel level) (\<lambda>l. res_bind (ParseFormat format) (\<lambda>f.
        Inr \<lparr>lg_level = l, lg_format = f, lg_prefix = []\<rparr>)))"

definition Enabled :: "logger \<Rightarrow> Level \<Rightarrow> bool" where
  "Enabled lg l \<longleftrightarrow> lg_level lg \<le> l"

definition Handle :: "logger \<Rightarrow> log_record \<Rightarrow> emitted" where
  "Handle lg r = (lg_prefix lg, r\<lparr>rec_attrs := omit_empty_groups (map redactAttr (rec_attrs r))\<rparr>)"

definition WithAttrs :: "logger \<Rightarrow> attr list \<Rightarrow> logger" where
  "WithAttrs lg as = lg\<lparr>lg_prefix := lg_prefix lg @ [Preformatted (map redactAttr as)]\<rparr>"

definition WithGroup :: "logger \<Rightarrow> string \<Rightarrow> logger" where
  "WithGroup lg name = lg\<lparr>lg_prefix := lg_prefix lg @ [OpenGroup name]\<rparr>"

text \<open>\<^const>\<open>None\<close> is the logger that discards.\<close>

definition Component :: "logger option \<Rightarrow> string \<Rightarrow> logger option" where
  "Component lg name = map_option (\<lambda>l. WithAttrs l [Attr ''component'' (StringVal name)]) lg"

definition ErrorAttrs :: "go_error option \<Rightarrow> attr list" where
  "ErrorAttrs err =
     (case err of None \<Rightarrow> []
      | Some e \<Rightarrow>
          [Attr ''error'' (StringVal (Error e)), Attr ''error_kind'' (StringVal (Kind_String (KindOf err)))]
          @ (if Chain err \<noteq> [] then [Attr ''error_op'' (StringVal (Chain err))] else []))"

text \<open>
  The calls made on a logger; a log call emits when its level is enabled. \<open>Record.Add\<close> has dropped the
  attributes whose value is an empty group before the handler sees the record, whatever their key.
\<close>

datatype log_call = CallWith "attr list" | CallGroup string | CallLog log_record

fun log_calls :: "logger \<Rightarrow> log_call list \<Rightarrow> emitted list" where
  "log_calls lg [] = []"
| "log_calls lg (CallWith as # cs) = log_calls (if as = [] then lg else WithAttrs lg as) cs"
| "log_calls lg (CallGroup g # cs) = log_calls (if g = [] then lg else WithGroup lg g) cs"
| "log_calls lg (CallLog r # cs) =
     (if Enabled lg (rec_level r) then [Handle lg (r\<lparr>rec_attrs := omit_empty_groups (rec_attrs r)\<rparr>)] else []) @ log_calls lg cs"

section \<open>Secrets do not reach the output\<close>

text \<open>
  Two attributes that may differ in what is secret: in everything under a sensitive key, and in the
  contents of secrets; and two sequences of calls that differ only in such attributes, a record's
  attributes compared without the empty groups it never holds.
\<close>

fun same_attr :: "attr \<Rightarrow> attr \<Rightarrow> bool" and same_val :: "attr_val \<Rightarrow> attr_val \<Rightarrow> bool"
  and same_attrs :: "attr list \<Rightarrow> attr list \<Rightarrow> bool" where
  "same_attr (Attr k v) (Attr k' w) \<longleftrightarrow> k = k' \<and> (isSensitiveKey k \<or> same_val v w)"
| "same_val (StringVal s) w \<longleftrightarrow> w = StringVal s"
| "same_val (PlainVal s) w \<longleftrightarrow> w = PlainVal s"
| "same_val (SecretVal s) w \<longleftrightarrow> (case w of SecretVal t \<Rightarrow> True | _ \<Rightarrow> False)"
| "same_val (ValuerVal v) w \<longleftrightarrow> (case w of ValuerVal w' \<Rightarrow> same_val v w' | _ \<Rightarrow> False)"
| "same_val (GroupVal as) w \<longleftrightarrow> (case w of GroupVal bs \<Rightarrow> same_attrs as bs | _ \<Rightarrow> False)"
| "same_attrs [] bs \<longleftrightarrow> bs = []"
| "same_attrs (a # as) bs \<longleftrightarrow> (case bs of [] \<Rightarrow> False | b # bs' \<Rightarrow> same_attr a b \<and> same_attrs as bs')"

lemma same_attrs_iff: "same_attrs as bs \<longleftrightarrow> list_all2 same_attr as bs"
  by (induction "as" arbitrary: bs) (auto split: list.splits)

fun same_call :: "log_call \<Rightarrow> log_call \<Rightarrow> bool" where
  "same_call (CallWith as) c \<longleftrightarrow> (\<exists>bs. c = CallWith bs \<and> list_all2 same_attr as bs)"
| "same_call (CallGroup g) c \<longleftrightarrow> c = CallGroup g"
| "same_call (CallLog r) c \<longleftrightarrow>
     (\<exists>bs. c = CallLog (r\<lparr>rec_attrs := bs\<rparr>)
        \<and> list_all2 same_attr (omit_empty_groups (rec_attrs r)) (omit_empty_groups bs))"

lemma same_resolve: "same_val v w \<Longrightarrow> same_val (resolve n v) (resolve n w)"
proof (induction n v arbitrary: w rule: resolve.induct)
  case (1 v)
  then show ?case by (simp add: resolve_limit_def)
next
  case (2 n s)
  then show ?case by (auto simp: resolve_limit_def split: attr_val.splits)
qed (auto split: attr_val.splits)

lemma resolve_no_valuer: "resolve n v \<noteq> SecretVal s \<and> resolve n v \<noteq> ValuerVal w"
  by (induction n v rule: resolve.induct) (auto simp: resolve_limit_def)

lemma redact_same: "same_attr a b \<Longrightarrow> redactAttr a = redactAttr b"
proof (induction a arbitrary: b rule: redactAttr.induct)
  case (1 k v)
  then obtain w where b: "b = Attr k w" and sv: "isSensitiveKey k \<or> same_val v w" by (cases b) auto
  show ?case
  proof (cases "isSensitiveKey k")
    case False
    with sv have sr: "same_val (Resolve v) (Resolve w)" using same_resolve by blast
    show ?thesis
    proof (cases "Resolve v")
      case (GroupVal as)
      with sr obtain bs where bs: "Resolve w = GroupVal bs" "length as = length bs"
        "\<forall>i < length as. same_attr (as ! i) (bs ! i)"
        by (auto simp: same_attrs_iff list_all2_conv_all_nth split: attr_val.splits)
      have "map redactAttr as = map redactAttr bs"
      proof (rule nth_equalityI)
        fix i
        assume i: "i < length (map redactAttr as)"
        then have "as ! i \<in> set as" "same_attr (as ! i) (bs ! i)" using bs by auto
        with 1(1) [OF False GroupVal] i bs(2) show "map redactAttr as ! i = map redactAttr bs ! i" by simp
      qed (simp add: bs(2))
      with b bs GroupVal False show ?thesis by simp
    qed (use sr b False resolve_no_valuer in auto)
  qed (use b in simp)
qed

lemma redact_list: "list_all2 same_attr as bs \<Longrightarrow> map redactAttr as = map redactAttr bs"
  by (induction as bs rule: list_all2_induct) (auto intro: redact_same)

lemma log_calls_same: "list_all2 same_call cs ds \<Longrightarrow> log_calls lg cs = log_calls lg ds"
proof (induction cs ds arbitrary: lg rule: list_all2_induct)
  case (Cons c cs d ds)
  then show ?case
    by (cases c) (auto simp: WithAttrs_def Handle_def redact_list dest!: redact_list)
qed simp


section \<open>Properties\<close>

text \<open>
  C26. What reaches the log does not depend on secrets: two sequences of calls on a logger, child loggers
  included, that differ only in values under keys that look like credentials and in the contents of
  \<open>Secret\<close> values hand the inner handler the same records, and none below the configured level. A record's
  attribute whose value is an empty group counts as absent, as \<open>slog\<close> treats it. Values are texts, plain
  values, groups, secrets and other \<open>LogValuer\<close>s; a secret inside a slice or a struct is a plain value here,
  given by its rendering.
\<close>

theorem log_hides_secrets:
  assumes "list_all2 same_call cs ds"
  shows "log_calls lg cs = log_calls lg ds
    \<and> (\<forall>e \<in> set (log_calls lg cs). lg_level lg \<le> rec_level (snd e))"
proof -
  have "\<forall>e \<in> set (log_calls lg cs). lg_level lg \<le> rec_level (snd e)"
    by (induction lg cs rule: log_calls.induct)
      (auto simp: Enabled_def Handle_def WithAttrs_def WithGroup_def split: if_splits)
  with log_calls_same [OF assms] show ?thesis by blast
qed

theorem log_hides_secrets_witness:
  "log_calls \<lparr>lg_level = LevelInfo, lg_format = FormatText, lg_prefix = []\<rparr>
     [CallWith [Attr ''Session_Token'' (StringVal ''abc'')],
      CallLog \<lparr>rec_level = LevelWarn, rec_message = ''m'', rec_attrs = [Attr ''who'' (SecretVal ''alice'')]\<rparr>] =
   log_calls \<lparr>lg_level = LevelInfo, lg_format = FormatText, lg_prefix = []\<rparr>
     [CallWith [Attr ''Session_Token'' (StringVal ''xyz'')],
      CallLog \<lparr>rec_level = LevelWarn, rec_message = ''m'', rec_attrs = [Attr ''who'' (SecretVal ''bob'')]\<rparr>]"
proof -
  have "isSensitiveKey ''Session_Token''" by code_simp
  then show ?thesis by (intro conjunct1 [OF log_hides_secrets]) (simp add: omit_empty_groups_def)
qed

text \<open>
  A group attribute with such a name is replaced as a whole, a group opened on the logger is not: the name
  given to \<open>WithGroup\<close> is never looked at.
\<close>

lemma opened_group_not_redacted:
  "log_calls lg [CallGroup g, CallLog r] =
     (if Enabled lg (rec_level r)
      then [(lg_prefix lg @ (if g = [] then [] else [OpenGroup g]),
             r\<lparr>rec_attrs := omit_empty_groups (map redactAttr (omit_empty_groups (rec_attrs r)))\<rparr>)]
      else [])"
  by (simp add: Enabled_def Handle_def WithGroup_def)

end
