(* ===== verification/Config.thy ===== *)
theory Config
  imports Go_Duration Logging Device_Key
begin

text \<open>
  \<open>internal/config\<close>: defaults, the overlay of the configuration file, the overlay of the environment, and
  validation. The YAML decoder is a parameter: bytes to a document or to the text of its error.
\<close>

section \<open>The configuration\<close>

record AgentConfig =
  ag_DataDir :: string
  ag_ShutdownTimeout :: duration
  ag_HeartbeatInterval :: duration

record LoggingConfig =
  lo_Level :: string
  lo_Format :: string

record StorageConfig =
  so_Path :: string
  so_BusyTimeout :: duration

record UpdateConfig =
  ud_Enabled :: bool
  ud_CheckInterval :: duration
  ud_AutoInstall :: bool

record config =
  cf_Agent :: AgentConfig
  cf_Logging :: LoggingConfig
  cf_Storage :: StorageConfig
  cf_BindAddress :: string
  cf_Update :: UpdateConfig
  cf_paths :: Paths_t

definition DefaultDatabaseName :: string where "DefaultDatabaseName = ''infrapilot.db''"

definition Default :: "Paths_t \<Rightarrow> config" where
  "Default paths =
     \<lparr>cf_Agent = \<lparr>ag_DataDir = [], ag_ShutdownTimeout = 15 * Second, ag_HeartbeatInterval = 60 * Second\<rparr>,
      cf_Logging = \<lparr>lo_Level = ''info'', lo_Format = ''text''\<rparr>,
      cf_Storage = \<lparr>so_Path = DefaultDatabaseName, so_BusyTimeout = 5 * Second\<rparr>,
      cf_BindAddress = ''127.0.0.1'',
      cf_Update = \<lparr>ud_Enabled = False, ud_CheckInterval = 24 * Hour, ud_AutoInstall = False\<rparr>,
      cf_paths = paths\<rparr>"

definition DatabasePath :: "config \<Rightarrow> go_error + string" where
  "DatabasePath c =
     (let path = (if TrimSpace (so_Path (cf_Storage c)) = [] then DefaultDatabaseName
                  else TrimSpace (so_Path (cf_Storage c)))
      in if IsAbs path then Inr (Clean path)
         else (case ResolveInDir (ag_DataDir (cf_Agent c)) path of
                 Inl e \<Rightarrow> Inl (wrap_err KindConfig ''config.DatabasePath'' ''storage.path must stay inside the data directory'' e)
               | Inr r \<Rightarrow> Inr r))"

section \<open>Durations\<close>

text \<open>
  A Go duration, or a number of seconds; the product with a second is the 64-bit one.
\<close>

definition duration_error :: "string \<Rightarrow> string \<Rightarrow> go_error" where
  "duration_error env value = New KindValidation ''config.parseDuration''
     (env @ ''='' @ Quote value @ '' is not a valid duration: use a value such as 30s, 5m or a plain number of seconds'')"

definition parseDuration :: "string \<Rightarrow> string \<Rightarrow> go_error + duration" where
  "parseDuration env value =
     (case ParseDuration value of Some d \<Rightarrow> Inr d
      | None \<Rightarrow> (case Atoi value of Some s \<Rightarrow> Inr (wrap64 (s * Second)) | None \<Rightarrow> Inl (duration_error env value)))"

definition setDuration :: "duration \<Rightarrow> string option \<Rightarrow> string \<Rightarrow> string \<Rightarrow> go_error + duration" where
  "setDuration target raw field path =
     (case raw of None \<Rightarrow> Inr target
      | Some r \<Rightarrow>
          (let value = TrimSpace r in
           if value = [] then Inl (New KindConfig ''config.setDuration''
             (field @ '' in '' @ path @ '' is empty: remove the key to use the default, or give a value such as 30s''))
           else (case parseDuration field value of
                   Inl e \<Rightarrow> Inl (wrap_err KindConfig ''config.setDuration'' (''invalid '' @ field @ '' in '' @ path) e)
                 | Inr d \<Rightarrow> Inr d)))"

section \<open>The file\<close>

record file_agent =
  fa_DataDir :: "string option"
  fa_ShutdownTimeout :: "string option"
  fa_HeartbeatInterval :: "string option"

record file_logging =
  fl_Level :: "string option"
  fl_Format :: "string option"

record file_storage =
  fs_Path :: "string option"
  fs_BusyTimeout :: "string option"

record file_update =
  fu_Enabled :: "bool option"
  fu_CheckInterval :: "string option"
  fu_AutoInstall :: "bool option"

record fileConfig =
  fc_Version :: "int option"
  fc_Agent :: "file_agent option"
  fc_Logging :: "file_logging option"
  fc_Storage :: "file_storage option"
  fc_Web :: "string option option"
  fc_Update :: "file_update option"

definition empty_file :: fileConfig where
  "empty_file = \<lparr>fc_Version = None, fc_Agent = None, fc_Logging = None, fc_Storage = None, fc_Web = None, fc_Update = None\<rparr>"

type_synonym yaml = "bytes \<Rightarrow> string + fileConfig"

definition SchemaVersion :: int where "SchemaVersion = 1"

text \<open>
  The pattern \<open>field (\S+) not found in type .*\<close> on one line, leftmost match: the text before it and the
  field. The run of non-blank characters must be maximal, since a blank follows it.
\<close>

definition re_blank :: "char \<Rightarrow> bool" where
  "re_blank c \<longleftrightarrow> ord c \<in> {9, 10, 12, 13, 32}"

definition field_at :: "string \<Rightarrow> string option" where
  "field_at s =
     (if HasPrefix s ''field '' then
        (let r = drop 6 s; w = takeWhile (\<lambda>c. \<not> re_blank c) r in
         if w \<noteq> [] \<and> HasPrefix (drop (length w) r) '' not found in type '' then Some w else None)
      else None)"

fun unknown_field :: "string \<Rightarrow> (string \<times> string) option" where
  "unknown_field [] = None"
| "unknown_field (c # s) =
     (case field_at (c # s) of Some w \<Rightarrow> Some ([], w)
      | None \<Rightarrow> map_option (\<lambda>(pre, w). (c # pre, w)) (unknown_field s))"

text \<open>
  \<open>ReplaceAllString\<close> expands \<open>$\<close> in the replacement: \<open>$1\<close> is the field, \<open>$0\<close> the whole match, \<open>$$\<close> a
  dollar, any other name nothing, and a dollar with no name after it stays.
\<close>

definition word_char :: "char \<Rightarrow> bool" where
  "word_char c \<longleftrightarrow> is_alnum c \<or> c = CHR ''_''"

definition group_value :: "string \<Rightarrow> string \<Rightarrow> string \<Rightarrow> string" where
  "group_value whole w name =
     (case read_nat name of Some 0 \<Rightarrow> whole | Some (Suc 0) \<Rightarrow> w | _ \<Rightarrow> [])"

lemma length_dropWhile_tl: "length (dropWhile P (tl s)) - Suc 0 \<le> length s"
proof -
  have "length (dropWhile P (tl s)) \<le> length (tl s)" by (rule length_dropWhile_le)
  then show ?thesis by simp
qed

function expand :: "string \<Rightarrow> string \<Rightarrow> string \<Rightarrow> string" where
  "expand whole w [] = []"
| "expand whole w (c # s) =
     (if c \<noteq> CHR ''$'' then c # expand whole w s
      else if s \<noteq> [] \<and> hd s = CHR ''$'' then CHR ''$'' # expand whole w (tl s)
      else if s \<noteq> [] \<and> hd s = CHR 0x7B \<and> takeWhile word_char (tl s) \<noteq> []
              \<and> HasPrefix (dropWhile word_char (tl s)) [CHR 0x7D]
      then group_value whole w (takeWhile word_char (tl s)) @ expand whole w (tl (dropWhile word_char (tl s)))
      else if takeWhile word_char s \<noteq> []
      then group_value whole w (takeWhile word_char s) @ expand whole w (dropWhile word_char s)
      else c # expand whole w s)"
  by pat_completeness auto
termination
  by (relation "measure (\<lambda>(_, _, s). length s)")
    (auto simp: less_Suc_eq_le length_dropWhile_le length_dropWhile_tl)

declare expand.simps [simp del]

definition clean_line :: "string \<Rightarrow> string" where
  "clean_line line =
     (case unknown_field line of None \<Rightarrow> line
      | Some (pre, w) \<Rightarrow> pre @ expand (drop (length pre) line) w (''unknown setting '' @ Quote w))"

definition cleanYAMLError :: "string \<Rightarrow> string" where
  "cleanYAMLError msg =
     (let message = TrimPrefix msg (''yaml: unmarshal errors:'' @ [CHR 0x0A]);
          cleaned = map clean_line (filter (\<lambda>l. l \<noteq> []) (map TrimSpace (Split message CHR 0x0A)))
      in if cleaned = [] then msg else Join cleaned ''; '')"

definition decodeFile :: "yaml \<Rightarrow> string \<Rightarrow> bytes \<Rightarrow> go_error + fileConfig" where
  "decodeFile yaml path data =
     (case yaml data of
        Inl err \<Rightarrow>
          (if err = ''EOF'' then Inr empty_file
           else Inl (New KindConfig ''config.decodeFile''
                  (''cannot parse configuration file '' @ path @ '': '' @ cleanYAMLError err)))
      | Inr fc \<Rightarrow>
          (case fc_Version fc of
             Some v \<Rightarrow>
               (if v \<noteq> SchemaVersion
                then Inl (New KindConfig ''config.decodeFile'' (''unsupported configuration version '' @ Itoa v @ '' in ''
                       @ path @ '': this build understands version '' @ Itoa SchemaVersion))
                else Inr fc)
           | None \<Rightarrow> Inr fc))"

section \<open>Layers\<close>

definition overlay_agent :: "file_agent option \<Rightarrow> string \<Rightarrow> AgentConfig \<Rightarrow> go_error + AgentConfig" where
  "overlay_agent fa path ag =
     (case fa of None \<Rightarrow> Inr ag
      | Some f \<Rightarrow>
          res_bind (setDuration (ag_ShutdownTimeout ag) (fa_ShutdownTimeout f) ''agent.shutdown_timeout'' path) (\<lambda>st.
          res_bind (setDuration (ag_HeartbeatInterval ag) (fa_HeartbeatInterval f) ''agent.heartbeat_interval'' path) (\<lambda>hb.
            Inr \<lparr>ag_DataDir = (case fa_DataDir f of None \<Rightarrow> ag_DataDir ag | Some d \<Rightarrow> d),
                 ag_ShutdownTimeout = st, ag_HeartbeatInterval = hb\<rparr>)))"

definition overlay_logging :: "file_logging option \<Rightarrow> LoggingConfig \<Rightarrow> LoggingConfig" where
  "overlay_logging fl lo =
     (case fl of None \<Rightarrow> lo
      | Some f \<Rightarrow> \<lparr>lo_Level = (case fl_Level f of None \<Rightarrow> lo_Level lo | Some l \<Rightarrow> l),
                   lo_Format = (case fl_Format f of None \<Rightarrow> lo_Format lo | Some l \<Rightarrow> l)\<rparr>)"

definition overlay_storage :: "file_storage option \<Rightarrow> string \<Rightarrow> StorageConfig \<Rightarrow> go_error + StorageConfig" where
  "overlay_storage fs path so =
     (case fs of None \<Rightarrow> Inr so
      | Some f \<Rightarrow>
          res_bind (setDuration (so_BusyTimeout so) (fs_BusyTimeout f) ''storage.busy_timeout'' path) (\<lambda>b.
            Inr \<lparr>so_Path = (case fs_Path f of None \<Rightarrow> so_Path so | Some p \<Rightarrow> p), so_BusyTimeout = b\<rparr>))"

definition overlay_update :: "file_update option \<Rightarrow> string \<Rightarrow> UpdateConfig \<Rightarrow> go_error + UpdateConfig" where
  "overlay_update fu path ud =
     (case fu of None \<Rightarrow> Inr ud
      | Some f \<Rightarrow>
          res_bind (setDuration (ud_CheckInterval ud) (fu_CheckInterval f) ''update.check_interval'' path) (\<lambda>ci.
            Inr \<lparr>ud_Enabled = (case fu_Enabled f of None \<Rightarrow> ud_Enabled ud | Some b \<Rightarrow> b), ud_CheckInterval = ci,
                 ud_AutoInstall = (case fu_AutoInstall f of None \<Rightarrow> ud_AutoInstall ud | Some b \<Rightarrow> b)\<rparr>))"

definition overlay :: "fileConfig \<Rightarrow> string \<Rightarrow> config \<Rightarrow> go_error + config" where
  "overlay fc path cfg =
     res_bind (overlay_agent (fc_Agent fc) path (cf_Agent cfg)) (\<lambda>ag.
     res_bind (overlay_storage (fc_Storage fc) path (cf_Storage cfg)) (\<lambda>so.
     res_bind (overlay_update (fc_Update fc) path (cf_Update cfg)) (\<lambda>ud.
       Inr (cfg\<lparr>cf_Agent := ag, cf_Logging := overlay_logging (fc_Logging fc) (cf_Logging cfg), cf_Storage := so,
                cf_BindAddress := (case fc_Web fc of Some (Some b) \<Rightarrow> TrimSpace b | _ \<Rightarrow> cf_BindAddress cfg),
                cf_Update := ud\<rparr>))))"

text \<open>\<open>file\<close> is what reading the configuration file gives.\<close>

definition applyFile :: "yaml \<Rightarrow> go_error + bytes \<Rightarrow> string \<Rightarrow> config \<Rightarrow> go_error + config" where
  "applyFile yaml file path cfg =
     (if path = [] then Inr cfg
      else (case file of
        Inl err \<Rightarrow>
          (if IsNotExist err then Inr cfg
           else if IsPermission err
           then Inl (wrap_err KindPermission ''config.applyFile'' (''cannot read configuration file '' @ path) err)
           else Inl (wrap_err KindConfig ''config.applyFile'' (''cannot read configuration file '' @ path) err))
      | Inr data \<Rightarrow> res_bind (decodeFile yaml path data) (\<lambda>fc. overlay fc path cfg)))"

definition EnvLogLevel :: string where "EnvLogLevel = ''INFRAPILOT_LOG_LEVEL''"
definition EnvLogFormat :: string where "EnvLogFormat = ''INFRAPILOT_LOG_FORMAT''"
definition EnvShutdownTimeout :: string where "EnvShutdownTimeout = ''INFRAPILOT_SHUTDOWN_TIMEOUT''"
definition EnvHeartbeatInterval :: string where "EnvHeartbeatInterval = ''INFRAPILOT_HEARTBEAT_INTERVAL''"
definition EnvStoragePath :: string where "EnvStoragePath = ''INFRAPILOT_STORAGE_PATH''"
definition EnvBusyTimeout :: string where "EnvBusyTimeout = ''INFRAPILOT_BUSY_TIMEOUT''"

text \<open>A variable counts when it is set to more than white space, and its value is trimmed.\<close>

definition lookup_env :: "environ \<Rightarrow> string \<Rightarrow> string option" where
  "lookup_env env key =
     (case env key of None \<Rightarrow> None
      | Some v \<Rightarrow> if TrimSpace v = [] then None else Some (TrimSpace v))"

definition env_duration :: "environ \<Rightarrow> string \<Rightarrow> duration \<Rightarrow> go_error + duration" where
  "env_duration env key d =
     (case lookup_env env key of None \<Rightarrow> Inr d | Some v \<Rightarrow> parseDuration key v)"

definition env_text :: "environ \<Rightarrow> string \<Rightarrow> string \<Rightarrow> string" where
  "env_text env key s = (case lookup_env env key of None \<Rightarrow> s | Some v \<Rightarrow> v)"

definition applyEnv :: "environ \<Rightarrow> config \<Rightarrow> go_error + config" where
  "applyEnv env cfg =
     (let ag = cf_Agent cfg; lo = cf_Logging cfg; so = cf_Storage cfg in
      res_bind (env_duration env EnvShutdownTimeout (ag_ShutdownTimeout ag)) (\<lambda>st.
      res_bind (env_duration env EnvHeartbeatInterval (ag_HeartbeatInterval ag)) (\<lambda>hb.
      res_bind (env_duration env EnvBusyTimeout (so_BusyTimeout so)) (\<lambda>bt.
        Inr (cfg\<lparr>cf_Agent := ag\<lparr>ag_ShutdownTimeout := st, ag_HeartbeatInterval := hb\<rparr>,
                 cf_Logging := \<lparr>lo_Level = env_text env EnvLogLevel (lo_Level lo),
                               lo_Format = env_text env EnvLogFormat (lo_Format lo)\<rparr>,
                 cf_Storage := \<lparr>so_Path = env_text env EnvStoragePath (so_Path so), so_BusyTimeout = bt\<rparr>\<rparr>)))))"

section \<open>Validation\<close>

definition minShutdownTimeout :: duration where "minShutdownTimeout = Second"
definition maxShutdownTimeout :: duration where "maxShutdownTimeout = 10 * Minute"
definition minHeartbeatInterval :: duration where "minHeartbeatInterval = Second"
definition maxHeartbeatInterval :: duration where "maxHeartbeatInterval = 24 * Hour"
definition minBusyTimeout :: duration where "minBusyTimeout = 100 * Millisecond"
definition maxBusyTimeout :: duration where "maxBusyTimeout = Minute"

lemmas duration_bounds = minShutdownTimeout_def maxShutdownTimeout_def minHeartbeatInterval_def
  maxHeartbeatInterval_def minBusyTimeout_def maxBusyTimeout_def

definition range_problem :: "string \<Rightarrow> duration \<Rightarrow> duration \<Rightarrow> duration \<Rightarrow> string list" where
  "range_problem field d minimum maximum =
     (if d \<le> 0 then [field @ '': must be greater than zero, got '' @ Duration_String d]
      else if d < minimum then [field @ '': must be at least '' @ Duration_String minimum @ '', got '' @ Duration_String d]
      else if maximum < d then [field @ '': must be at most '' @ Duration_String maximum @ '', got '' @ Duration_String d]
      else [])"

definition text_problems :: "config \<Rightarrow> string list" where
  "text_problems c =
     (case ParseLevel (lo_Level (cf_Logging c)) of Inl e \<Rightarrow> [''logging.level: '' @ Error e] | Inr _ \<Rightarrow> [])
   @ (case ParseFormat (lo_Format (cf_Logging c)) of Inl e \<Rightarrow> [''logging.format: '' @ Error e] | Inr _ \<Rightarrow> [])
   @ (if TrimSpace (ag_DataDir (cf_Agent c)) = [] then [''agent.data_dir: must not be empty'']
      else if \<not> IsAbs (ag_DataDir (cf_Agent c))
      then [''agent.data_dir: must be an absolute path, got '' @ ag_DataDir (cf_Agent c)] else [])"

definition range_problems :: "config \<Rightarrow> string list" where
  "range_problems c =
     range_problem ''agent.shutdown_timeout'' (ag_ShutdownTimeout (cf_Agent c)) minShutdownTimeout maxShutdownTimeout
   @ range_problem ''agent.heartbeat_interval'' (ag_HeartbeatInterval (cf_Agent c)) minHeartbeatInterval maxHeartbeatInterval
   @ range_problem ''storage.busy_timeout'' (so_BusyTimeout (cf_Storage c)) minBusyTimeout maxBusyTimeout"

definition storage_problems :: "config \<Rightarrow> string list" where
  "storage_problems c =
     (if TrimSpace (so_Path (cf_Storage c)) = [] then [''storage.path: must not be empty'']
      else (case DatabasePath c of Inl e \<Rightarrow> [''storage.path: '' @ Error e] | Inr _ \<Rightarrow> []))"

definition Validate :: "config \<Rightarrow> go_error option" where
  "Validate c =
     (if cf_BindAddress c = []
      then Some (New KindValidation ''config.Validate'' ''web.bind_address must not be empty'')
      else (let problems = text_problems c @ range_problems c @ storage_problems c in
            if problems = [] then None else Some (New KindConfig ''config.Validate'' (Join problems ''; ''))))"

definition fill_data_dir :: "Paths_t \<Rightarrow> config \<Rightarrow> config" where
  "fill_data_dir paths c =
     (let d = TrimSpace (ag_DataDir (cf_Agent c)) in
      c\<lparr>cf_Agent := (cf_Agent c)\<lparr>ag_DataDir := (if d = [] then DataDir paths else d)\<rparr>\<rparr>)"

definition Load_config :: "yaml \<Rightarrow> go_error + bytes \<Rightarrow> environ \<Rightarrow> Paths_t \<Rightarrow> go_error + config" where
  "Load_config yaml file env paths =
     (let cfg = Default paths; cfg0 = cfg\<lparr>cf_Agent := (cf_Agent cfg)\<lparr>ag_DataDir := DataDir paths\<rparr>\<rparr> in
      res_bind (applyFile yaml file (ConfigFile paths) cfg0) (\<lambda>cfg1.
      res_bind (applyEnv env cfg1) (\<lambda>cfg2.
        let cfg3 = fill_data_dir paths cfg2 in
        case Validate cfg3 of
          Some e \<Rightarrow> Inl (wrap_err KindConfig ''config.Load'' (''invalid configuration (from '' @ ConfigFile paths @ '')'') e)
        | None \<Rightarrow> Inr cfg3)))"


section \<open>Lemmas\<close>

text \<open>What a configuration that passed validation is like.\<close>

definition in_range :: "duration \<Rightarrow> duration \<Rightarrow> duration \<Rightarrow> bool" where
  "in_range lo d hi \<longleftrightarrow> lo \<le> d \<and> d \<le> hi"

lemma range_problem_Nil: "0 < lo \<Longrightarrow> range_problem f d lo hi = [] \<longleftrightarrow> in_range lo d hi"
  by (auto simp: range_problem_def in_range_def)

lemma range_problems_Nil:
  "range_problems c = [] \<longleftrightarrow>
     in_range Second (ag_ShutdownTimeout (cf_Agent c)) (10 * Minute)
   \<and> in_range Second (ag_HeartbeatInterval (cf_Agent c)) (24 * Hour)
   \<and> in_range (100 * Millisecond) (so_BusyTimeout (cf_Storage c)) Minute"
proof -
  have pos: "0 < Second" "0 < 100 * Millisecond" by (simp_all add: time_units)
  show ?thesis unfolding range_problems_def duration_bounds append_is_Nil_conv range_problem_Nil [OF pos(1)] range_problem_Nil [OF pos(2)] ..
qed

lemma text_problems_Nil:
  "text_problems c = [] \<longleftrightarrow>
     is_ok (ParseLevel (lo_Level (cf_Logging c))) \<and> is_ok (ParseFormat (lo_Format (cf_Logging c)))
   \<and> TrimSpace (ag_DataDir (cf_Agent c)) \<noteq> [] \<and> IsAbs (ag_DataDir (cf_Agent c))"
  by (auto simp: text_problems_def is_ok_iff split: sum.splits)

lemma storage_problems_Nil:
  "storage_problems c = [] \<longleftrightarrow> TrimSpace (so_Path (cf_Storage c)) \<noteq> [] \<and> is_ok (DatabasePath c)"
  by (auto simp: storage_problems_def is_ok_iff split: sum.splits)

lemma Validate_None:
  "Validate c = None \<longleftrightarrow> cf_BindAddress c \<noteq> [] \<and> text_problems c = [] \<and> range_problems c = [] \<and> storage_problems c = []"
  by (auto simp: Validate_def Let_def)

lemma Load_config_validated:
  assumes "Load_config yaml file env paths = Inr c"
  shows "Validate c = None"
  using assms by (auto simp: Load_config_def Let_def res_bind_eq_Inr split: option.splits)

lemma DatabasePath_inside:
  assumes "DatabasePath c = Inr p"
  shows "IsAbs p \<and> Clean p = p \<and>
    (IsAbs (TrimSpace (so_Path (cf_Storage c))) \<or> prefix (clean_comps (ag_DataDir (cf_Agent c))) (clean_comps p))"
proof -
  let ?s = "TrimSpace (so_Path (cf_Storage c))"
  let ?path = "if ?s = [] then DefaultDatabaseName else ?s"
  show ?thesis
  proof (cases "IsAbs ?path")
    case True
    then have "?s \<noteq> []" by (auto simp: DefaultDatabaseName_def IsAbs_def HasPrefix_def)
    with True assms have "IsAbs ?s" "p = Clean ?s" by (auto simp: DatabasePath_def Let_def)
    then show ?thesis by (simp add: IsAbs_Clean Clean_idem)
  next
    case False
    with assms have "ResolveInDir (ag_DataDir (cf_Agent c)) ?path = Inr p"
      by (auto simp: DatabasePath_def Let_def split: sum.splits)
    from ResolveInDir_InrD [OF this] have
      d: "IsAbs (ag_DataDir (cf_Agent c))" and p: "p = ''/'' @ Join (resolved_comps (ag_DataDir (cf_Agent c)) ?path) ''/''"
      and pre: "prefix (clean_comps (ag_DataDir (cf_Agent c))) (resolved_comps (ag_DataDir (cf_Agent c)) ?path)" by blast+
    have j: "p = join_path (Clean (ag_DataDir (cf_Agent c))) ?path" using p join_Clean_comps(1) [OF d] by simp
    have "IsAbs (Clean (ag_DataDir (cf_Agent c)))" using d by (rule IsAbs_Clean)
    then have "IsAbs p" "Clean p = p" unfolding j by (rule IsAbs_join, rule Clean_join)
    moreover have "clean_comps p = resolved_comps (ag_DataDir (cf_Agent c)) ?path"
      unfolding j by (rule clean_comps_resolved [OF d])
    ultimately show ?thesis using pre by simp
  qed
qed

text \<open>The number of seconds without a unit.\<close>

lemma ParseDuration_digits:
  assumes "n \<noteq> 0"
  shows "ParseDuration (show_nat n) = None"
proof -
  have ne: "show_nat n \<noteq> ''0''"
  proof
    assume "show_nat n = ''0''"
    then have "read_nat ''0'' = Some n" using read_nat_show_nat [of n] by simp
    with assms show False by (simp add: read_nat_def is_digit_def digit_val_def)
  qed
  obtain c r where cr: "show_nat n = c # r" by (cases "show_nat n") auto
  then have sg: "c \<noteq> CHR ''-''" "c \<noteq> CHR ''+''" using show_nat_hd_digit [of n] by auto
  have all: "leading_int x s = Some (v, s1) \<Longrightarrow> \<forall>c \<in> set s. is_digit c \<Longrightarrow> s1 = []" for x s v s1
    by (induction x s rule: leading_int.induct) (auto simp: Let_def split: if_splits)
  have "duration_term (show_nat n) = None"
    using all [of 0 "show_nat n"] show_nat_digits [of n]
    by (auto simp: duration_term_def Let_def split: option.splits)
  then have "duration_terms 0 (show_nat n) = None" by (subst duration_terms.simps) simp
  with ne sg cr show ?thesis by (simp add: ParseDuration_def Let_def)
qed

lemma parseDuration_seconds:
  assumes "int n \<le> max_int64"
  shows "parseDuration env (show_nat n) = Inr (wrap64 (int n * Second))"
proof (cases "n = 0")
  case True
  have "ParseDuration ''0'' = Some 0" by (simp add: ParseDuration_def)
  with True show ?thesis
    by (simp add: parseDuration_def show_nat_eval digit_char_eval wrap64_def)
next
  case False
  with assms show ?thesis by (simp add: parseDuration_def ParseDuration_digits Atoi_show_nat)
qed

lemma seconds_fit: "wrap64 (int n * Second) = int n * Second \<longleftrightarrow> n \<le> 9223372036"
proof
  assume "wrap64 (int n * Second) = int n * Second"
  then have "int n * Second \<le> max_int64" using wrap64_range by metis
  then show "n \<le> 9223372036" by (simp add: Second_def max_int64_def)
next
  assume "n \<le> 9223372036"
  then show "wrap64 (int n * Second) = int n * Second"
    by (intro wrap64_id) (simp_all add: Second_def max_int64_def min_int64_def)
qed


lemma resolved_db: "resolved_comps dir DefaultDatabaseName = clean_comps dir @ [DefaultDatabaseName]"
proof -
  have "path_comps DefaultDatabaseName = [DefaultDatabaseName]" "DefaultDatabaseName \<noteq> ''..''"
    by (simp_all add: path_comps_def DefaultDatabaseName_def)
  then show ?thesis by (simp add: resolved_comps_def)
qed

lemma default_database:
  assumes "IsAbs (ag_DataDir (cf_Agent c))" "clean_comps (ag_DataDir (cf_Agent c)) \<noteq> []"
    "so_Path (cf_Storage c) = DefaultDatabaseName"
  shows "\<exists>p. DatabasePath c = Inr p \<and> clean_comps p = clean_comps (ag_DataDir (cf_Agent c)) @ [DefaultDatabaseName]"
proof -
  let ?d = "ag_DataDir (cf_Agent c)"
  have db: "TrimSpace DefaultDatabaseName = DefaultDatabaseName" "DefaultDatabaseName \<noteq> []" "\<not> IsAbs DefaultDatabaseName"
    by (simp add: TrimSpace_no_space DefaultDatabaseName_def is_space_def)
      (simp_all add: DefaultDatabaseName_def IsAbs_def HasPrefix_def)
  have "is_ok (ResolveInDir ?d DefaultDatabaseName)"
    using ResolveInDir_iff(1) [OF assms(1,2) db(2,3)] by (simp add: resolved_db)
  then obtain p where p: "ResolveInDir ?d DefaultDatabaseName = Inr p" by (auto simp: is_ok_iff)
  have "p = join_path (Clean ?d) DefaultDatabaseName"
    using ResolveInDir_InrD [OF p] join_Clean_comps(1) [OF assms(1), of DefaultDatabaseName] by simp
  then have "clean_comps p = clean_comps ?d @ [DefaultDatabaseName]"
    using clean_comps_resolved [OF assms(1)] resolved_db by simp
  with p db assms(3) show ?thesis by (simp add: DatabasePath_def)
qed

section \<open>Properties\<close>

text \<open>
  C25. A configuration that loads is usable by every part that reads it, whatever the file and the environment
  say: the level and format are ones the logger accepts, the data directory is absolute, the panel has
  an address to bind, the timeouts lie in their ranges, and the database has an absolute clean path,
  below the data directory unless the storage path is itself absolute.
\<close>

theorem loaded_config_is_usable:
  assumes "Load_config yaml file env paths = Inr c"
  shows "is_ok (New_logger True (lo_Level (cf_Logging c)) (lo_Format (cf_Logging c)))
    \<and> IsAbs (ag_DataDir (cf_Agent c)) \<and> cf_BindAddress c \<noteq> []
    \<and> in_range Second (ag_ShutdownTimeout (cf_Agent c)) (10 * Minute)
    \<and> in_range Second (ag_HeartbeatInterval (cf_Agent c)) (24 * Hour)
    \<and> in_range (100 * Millisecond) (so_BusyTimeout (cf_Storage c)) Minute
    \<and> (\<exists>p. DatabasePath c = Inr p \<and> IsAbs p \<and> Clean p = p
         \<and> (IsAbs (TrimSpace (so_Path (cf_Storage c))) \<or> prefix (clean_comps (ag_DataDir (cf_Agent c))) (clean_comps p)))"
proof -
  from Load_config_validated [OF assms] have
    v: "cf_BindAddress c \<noteq> []" "text_problems c = []" "range_problems c = []" "storage_problems c = []"
    by (simp_all add: Validate_None)
  then obtain p where p: "DatabasePath c = Inr p" by (auto simp: storage_problems_Nil is_ok_iff)
  from v(2) have "is_ok (New_logger True (lo_Level (cf_Logging c)) (lo_Format (cf_Logging c)))"
    by (auto simp: New_logger_def text_problems_Nil is_ok_iff)
  with v p DatabasePath_inside [OF p] show ?thesis by (simp add: range_problems_Nil text_problems_Nil)
qed

lemma default_texts: "ParseLevel ''info'' = Inr LevelInfo" "ParseFormat ''text'' = Inr FormatText"
  by code_simp+

lemma dropWhile_keeps: "c \<in> set s \<Longrightarrow> \<not> P c \<Longrightarrow> c \<in> set (dropWhile P s)"
  by (induction s) auto

lemma TrimSpace_keeps: "c \<in> set s \<Longrightarrow> \<not> is_space c \<Longrightarrow> c \<in> set (TrimSpace s)"
  by (simp add: TrimSpace_def trim_left_def dropWhile_keeps)

lemma fresh_load:
  assumes "IsNotExist e" "\<forall>k \<in> {EnvLogLevel, EnvLogFormat, EnvShutdownTimeout, EnvHeartbeatInterval, EnvStoragePath, EnvBusyTimeout}.
      lookup_env env k = None"
    and d: "IsAbs (TrimSpace (DataDir paths))" "clean_comps (TrimSpace (DataDir paths)) \<noteq> []"
  shows "\<exists>c. Load_config yaml (Inl e) env paths = Inr c
    \<and> c = (Default paths)\<lparr>cf_Agent := (cf_Agent (Default paths))\<lparr>ag_DataDir := TrimSpace (DataDir paths)\<rparr>\<rparr>
    \<and> (\<exists>p. DatabasePath c = Inr p \<and> clean_comps p = clean_comps (TrimSpace (DataDir paths)) @ [DefaultDatabaseName])"
proof -
  let ?c = "(Default paths)\<lparr>cf_Agent := (cf_Agent (Default paths))\<lparr>ag_DataDir := TrimSpace (DataDir paths)\<rparr>\<rparr>"
  have ne: "TrimSpace (DataDir paths) \<noteq> []" using d(1) by (auto simp: IsAbs_def HasPrefix_def)
  have idem: "TrimSpace (TrimSpace (DataDir paths)) \<noteq> []"
  proof -
    obtain s where s: "TrimSpace (DataDir paths) = CHR ''/'' # s"
      using d(1) by (auto simp: IsAbs_def HasPrefix_def prefix_def)
    then have "CHR ''/'' \<in> set (TrimSpace (DataDir paths))" "\<not> is_space CHR ''/''" by (simp_all add: is_space_def)
    then have "CHR ''/'' \<in> set (TrimSpace (TrimSpace (DataDir paths)))" by (rule TrimSpace_keeps)
    then show ?thesis by auto
  qed
  have db: "\<exists>p. DatabasePath ?c = Inr p \<and> clean_comps p = clean_comps (TrimSpace (DataDir paths)) @ [DefaultDatabaseName]"
    using default_database [of ?c] d by (simp add: Default_def)
  have sp: "TrimSpace DefaultDatabaseName \<noteq> []"
    by (simp add: TrimSpace_no_space DefaultDatabaseName_def is_space_def)
  have "Validate ?c = None"
    using db idem d sp default_texts
    by (auto simp: Validate_None text_problems_Nil range_problems_Nil storage_problems_Nil Default_def in_range_def time_units)
  moreover have "fill_data_dir paths ((Default paths)\<lparr>cf_Agent := (cf_Agent (Default paths))\<lparr>ag_DataDir := DataDir paths\<rparr>\<rparr>) = ?c"
    using ne by (simp add: fill_data_dir_def Default_def)
  ultimately have "Load_config yaml (Inl e) env paths = Inr ?c"
    using assms(1,2) by (simp add: Load_config_def applyFile_def applyEnv_def env_duration_def env_text_def Default_def Let_def)
  with db show ?thesis by blast
qed


text \<open>
  A fresh installation starts unattended: without a configuration file and without settings in the
  environment, whatever the decoder, the built-in defaults load with the resolved data directory, and the
  database lies directly in it. The data directory must be absolute and not the root.
\<close>

theorem fresh_install_loads_defaults:
  assumes "IsNotExist e"
    "\<forall>k \<in> {EnvLogLevel, EnvLogFormat, EnvShutdownTimeout, EnvHeartbeatInterval, EnvStoragePath, EnvBusyTimeout}.
       lookup_env env k = None"
    "IsAbs (TrimSpace (DataDir paths))" "clean_comps (TrimSpace (DataDir paths)) \<noteq> []"
  shows "\<exists>c. Load_config yaml (Inl e) env paths = Inr c
    \<and> c = (Default paths)\<lparr>cf_Agent := (cf_Agent (Default paths))\<lparr>ag_DataDir := TrimSpace (DataDir paths)\<rparr>\<rparr>
    \<and> (\<exists>p. DatabasePath c = Inr p \<and> clean_comps p = clean_comps (TrimSpace (DataDir paths)) @ [DefaultDatabaseName])"
  using assms by (rule fresh_load)

definition toy_paths_t :: Paths_t where
  "toy_paths_t = \<lparr>ConfigFile = ''/etc/infrapilot/config.yaml'', DataDir = ''/var/lib/infrapilot'', DevMode = False\<rparr>"

lemma toy_dir: "IsAbs (TrimSpace (DataDir toy_paths_t))" "clean_comps (TrimSpace (DataDir toy_paths_t)) \<noteq> []"
  by code_simp+

theorem fresh_install_loads_defaults_witness:
  "\<exists>c. Load_config (\<lambda>_. Inl ''EOF'') (Inl (StdErr NotExist ''none'')) (\<lambda>_. None) toy_paths_t = Inr c
     \<and> lo_Level (cf_Logging c) = ''info''"
  using fresh_install_loads_defaults [of "StdErr NotExist ''none''" "\<lambda>_. None" toy_paths_t "\<lambda>_. Inl ''EOF''"] toy_dir
  by (auto simp: lookup_env_def Default_def)

theorem loaded_config_is_usable_witness:
  "\<exists>c. Load_config (\<lambda>_. Inl ''EOF'') (Inl (StdErr NotExist ''none'')) (\<lambda>_. None) toy_paths_t = Inr c \<and> cf_BindAddress c \<noteq> []"
proof -
  obtain c where "Load_config (\<lambda>_. Inl ''EOF'') (Inl (StdErr NotExist ''none'')) (\<lambda>_. None) toy_paths_t = Inr c"
    using fresh_load [of "StdErr NotExist ''none''" "\<lambda>_. None" toy_paths_t "\<lambda>_. Inl ''EOF''"] toy_dir
    by (auto simp: lookup_env_def)
  with loaded_config_is_usable [OF this] show ?thesis by blast
qed

text \<open>
  A timeout given as a bare number of seconds is multiplied as a 64-bit integer: the result is the number
  of seconds exactly when that is below 9223372037, and otherwise wraps around modulo two to the 64.
\<close>

theorem bare_seconds_wrap:
  assumes "int n \<le> max_int64"
  shows "\<exists>d. parseDuration env (show_nat n) = Inr d \<and> min_int64 \<le> d \<and> d \<le> max_int64
    \<and> 18446744073709551616 dvd d - int n * Second \<and> (d = int n * Second \<longleftrightarrow> n \<le> 9223372036)"
  using parseDuration_seconds [OF assms] wrap64_range wrap64_cong seconds_fit by blast

text \<open>So a shutdown timeout of 584 years passes validation as one of 15 seconds.\<close>

theorem bare_seconds_wrap_witness:
  "parseDuration ''agent.shutdown_timeout'' (show_nat 18446744089) = Inr 15290448384
   \<and> in_range minShutdownTimeout 15290448384 maxShutdownTimeout"
proof -
  have "int 18446744089 \<le> max_int64" by (simp add: max_int64_def)
  from bare_seconds_wrap [OF this, of "''agent.shutdown_timeout''"] obtain d where
    d: "parseDuration ''agent.shutdown_timeout'' (show_nat 18446744089) = Inr d"
      "min_int64 \<le> d" "d \<le> max_int64" "18446744073709551616 dvd d - 18446744089 * Second" by auto
  from d(4) obtain k where k: "d = 18446744089000000000 + 18446744073709551616 * k"
    by (auto simp: Second_def dvd_def algebra_simps)
  with d(2,3) have "-2 < k" "k < 0" by (simp_all add: min_int64_def max_int64_def)
  with k have "d = 15290448384" by simp
  with d(1) show ?thesis by (simp add: in_range_def duration_bounds time_units)
qed

text \<open>An empty bind address is reported alone: the problems found before it are dropped.\<close>

lemma bind_address_hides_problems:
  "cf_BindAddress c = [] \<Longrightarrow>
     Validate c = Some (New KindValidation ''config.Validate'' ''web.bind_address must not be empty'')"
  by (simp add: Validate_def)


section \<open>The sample file\<close>

text \<open>The values \<open>Sample\<close> fills into its template, and the document a decoder reads from the filled template.\<close>

record sample_data =
  sa_Version :: int
  sa_DataDir :: string
  sa_ShutdownTimeout :: string
  sa_HeartbeatInterval :: string
  sa_LogLevel :: string
  sa_LogFormat :: string
  sa_StoragePath :: string
  sa_BusyTimeout :: string

definition Sample_values :: "string \<Rightarrow> sample_data" where
  "Sample_values dataDir =
     (let def = Default \<lparr>ConfigFile = [], DataDir = [], DevMode = False\<rparr> in
      \<lparr>sa_Version = SchemaVersion,
       sa_DataDir = (if TrimSpace dataDir = [] then ''/var/lib/infrapilot'' else dataDir),
       sa_ShutdownTimeout = Duration_String (ag_ShutdownTimeout (cf_Agent def)),
       sa_HeartbeatInterval = Duration_String (ag_HeartbeatInterval (cf_Agent def)),
       sa_LogLevel = lo_Level (cf_Logging def), sa_LogFormat = lo_Format (cf_Logging def),
       sa_StoragePath = so_Path (cf_Storage def),
       sa_BusyTimeout = Duration_String (so_BusyTimeout (cf_Storage def))\<rparr>)"

definition sample_file :: "sample_data \<Rightarrow> fileConfig" where
  "sample_file d =
     \<lparr>fc_Version = Some (sa_Version d),
      fc_Agent = Some \<lparr>fa_DataDir = Some (sa_DataDir d), fa_ShutdownTimeout = Some (sa_ShutdownTimeout d),
        fa_HeartbeatInterval = Some (sa_HeartbeatInterval d)\<rparr>,
      fc_Logging = Some \<lparr>fl_Level = Some (sa_LogLevel d), fl_Format = Some (sa_LogFormat d)\<rparr>,
      fc_Storage = Some \<lparr>fs_Path = Some (sa_StoragePath d), fs_BusyTimeout = Some (sa_BusyTimeout d)\<rparr>,
      fc_Web = None, fc_Update = None\<rparr>"

lemma Duration_String_no_space:
  assumes "0 < n"
  shows "TrimSpace (Duration_String (int n * Second)) = Duration_String (int n * Second)"
    "Duration_String (int n * Second) \<noteq> []"
proof -
  have "\<forall>c \<in> set (show_nat k). \<not> is_space c" for k
    using show_nat_digits [of k] by (auto simp: is_digit_def is_space_def)
  then show "TrimSpace (Duration_String (int n * Second)) = Duration_String (int n * Second)"
    by (intro TrimSpace_no_space) (auto simp: Duration_String_seconds [OF assms] is_space_def)
  show "Duration_String (int n * Second) \<noteq> []" by (simp add: Duration_String_seconds [OF assms])
qed

lemma setDuration_seconds:
  assumes "0 < n" "n \<le> 9223372036"
  shows "setDuration t (Some (Duration_String (int n * Second))) field path = Inr (int n * Second)"
  using assms by (simp add: setDuration_def Let_def Duration_String_no_space parseDuration_def whole_seconds_roundtrip)

text \<open>The sample documents the defaults: read back, it changes nothing but the data directory.\<close>

lemma sample_is_default:
  assumes "TrimSpace dataDir \<noteq> []"
  shows "overlay (sample_file (Sample_values dataDir)) path (Default paths) =
    Inr ((Default paths)\<lparr>cf_Agent := (cf_Agent (Default paths))\<lparr>ag_DataDir := dataDir\<rparr>\<rparr>)"
  using assms setDuration_seconds [of 15] setDuration_seconds [of 60] setDuration_seconds [of 5]
  by (simp add: overlay_def overlay_agent_def overlay_storage_def overlay_update_def overlay_logging_def sample_file_def
      Sample_values_def Default_def Let_def)

end
