(* ===== verification/Agent.thy ===== *)
theory Agent
  imports Storage Config System_Info
begin

text \<open>
  \<open>internal/system/process.go\<close> and \<open>internal/agent/agent.go\<close>: the PID file through which commands learn of
  the Agent, and the Agent's life from start to shutdown, alone and beside other Agents. The kernel's
  answers about processes are parameters; every system call can fail.
\<close>

section \<open>PID files\<close>

definition maxPIDFileSize :: nat where "maxPIDFileSize = 64"

datatype ProcessState = ProcessUnknown | ProcessStopped | ProcessRunning

fun ProcessState_String :: "ProcessState \<Rightarrow> string" where
  "ProcessState_String ProcessStopped = ''stopped''"
| "ProcessState_String ProcessRunning = ''running''"
| "ProcessState_String ProcessUnknown = ''unknown''"

datatype pid_op = PidTemp | PidChmod | PidWrite | PidSync | PidClose | PidRename | PidRemove | PidOpen | PidRead

type_synonym pid_faults = "pid_op \<Rightarrow> go_error option"

text \<open>The PID file is its contents, \<^const>\<open>None\<close> when absent; the temporary file never outlives the call.\<close>

definition WritePIDFile :: "pid_faults \<Rightarrow> string \<Rightarrow> nat \<Rightarrow> bytes option \<Rightarrow> bytes option \<times> go_error option" where
  "WritePIDFile flt path self file =
     (let fail = (\<lambda>k m e. (file, Some (wrap_err k ''system.WritePIDFile'' m e))) in
      if \<not> IsAbs path
      then (file, Some (New KindConfig ''system.WritePIDFile'' (''the PID file path must be absolute, got '' @ Quote path)))
      else (case flt PidTemp of Some e \<Rightarrow> fail KindPermission (''cannot create a PID file in '' @ Dir path) e | None \<Rightarrow>
           (case flt PidChmod of Some e \<Rightarrow> fail KindPermission ''cannot set PID file permissions'' e | None \<Rightarrow>
           (case flt PidWrite of Some e \<Rightarrow> fail KindInternal ''cannot write the PID file'' e | None \<Rightarrow>
           (case flt PidSync of Some e \<Rightarrow> fail KindInternal ''cannot flush the PID file'' e | None \<Rightarrow>
           (case flt PidClose of Some e \<Rightarrow> fail KindInternal ''cannot close the PID file'' e | None \<Rightarrow>
           (case flt PidRename of Some e \<Rightarrow> fail KindPermission (''cannot move the PID file into place at '' @ path) e
            | None \<Rightarrow> (Some (show_nat self @ [CHR 0x0A]), None))))))))"

definition RemovePIDFile :: "pid_faults \<Rightarrow> string \<Rightarrow> bytes option \<Rightarrow> bytes option \<times> go_error option" where
  "RemovePIDFile flt path file =
     (case flt PidRemove of
        Some e \<Rightarrow>
          (file, if IsNotExist e then None
                 else Some (wrap_err KindPermission ''system.RemovePIDFile'' (''cannot remove the PID file at '' @ path) e))
      | None \<Rightarrow> (None, None))"

definition pid_error :: "string \<Rightarrow> go_error" where
  "pid_error m = New KindValidation ''system.ReadPIDFile'' m"

text \<open>One \<open>file.Read\<close> into a buffer: what was read, and the error; the end of the file is an error too.\<close>

definition io_EOF :: go_error where "io_EOF = StdErr OtherOS ''EOF''"

definition Read_once :: "nat \<Rightarrow> go_error option \<Rightarrow> bytes \<Rightarrow> bytes \<times> go_error option" where
  "Read_once n fault content =
     (case fault of Some e \<Rightarrow> ([], Some e)
      | None \<Rightarrow> if content = [] then ([], Some io_EOF) else (take n content, None))"

definition ReadPIDFile :: "pid_faults \<Rightarrow> string \<Rightarrow> bytes option \<Rightarrow> go_error + int" where
  "ReadPIDFile flt path file =
     (case read_file (flt PidOpen) file of
        Inl e \<Rightarrow>
          (if IsNotExist e then Inl (wrap_err KindNotFound ''system.ReadPIDFile'' ''no PID file'' e)
           else if IsPermission e
           then Inl (wrap_err KindPermission ''system.ReadPIDFile'' (''cannot read the PID file at '' @ path) e)
           else Inl (wrap_err KindInternal ''system.ReadPIDFile'' (''cannot open the PID file at '' @ path) e))
      | Inr content \<Rightarrow>
          (let (buf, readErr) = Read_once maxPIDFileSize (flt PidRead) content; text = TrimSpace buf in
           if readErr \<noteq> None \<and> buf = [] \<and> readErr \<noteq> Some io_EOF
           then Inl (wrap_err KindInternal ''system.ReadPIDFile'' ''cannot read the PID file'' (the readErr))
           else if text = [] then Inl (pid_error ''the PID file is empty'')
           else (case Atoi text of
                   None \<Rightarrow> Inl (pid_error ''the PID file does not contain a process ID'')
                 | Some pid \<Rightarrow>
                     if pid \<le> 0 then Inl (pid_error ''the PID file contains an invalid process ID'') else Inr pid)))"

text \<open>\<open>kn_signal\<close> answers signal 0, \<open>kn_comm\<close> the read of a process's command name.\<close>

record kernel =
  kn_signal :: "int \<Rightarrow> go_error option"
  kn_comm :: "int \<Rightarrow> go_error + bytes"

definition ProcessAlive :: "kernel \<Rightarrow> int \<Rightarrow> bool" where
  "ProcessAlive kn pid \<longleftrightarrow>
     0 < pid \<and> (case kn_signal kn pid of None \<Rightarrow> True | Some e \<Rightarrow> IsPermission e)"

definition ProcessName :: "kernel \<Rightarrow> int \<Rightarrow> string" where
  "ProcessName kn pid =
     (if pid \<le> 0 then [] else (case kn_comm kn pid of Inl _ \<Rightarrow> [] | Inr data \<Rightarrow> TrimSpace data))"

definition CheckProcess :: "kernel \<Rightarrow> pid_faults \<Rightarrow> string \<Rightarrow> string \<Rightarrow> bytes option \<Rightarrow> ProcessState \<times> int" where
  "CheckProcess kn flt path expectedName file =
     (case ReadPIDFile flt path file of
        Inl e \<Rightarrow> (if IsKind (Some e) KindNotFound then (ProcessStopped, 0) else (ProcessUnknown, 0))
      | Inr pid \<Rightarrow>
          if \<not> ProcessAlive kn pid then (ProcessStopped, pid)
          else if expectedName \<noteq> [] \<and> ProcessName kn pid \<noteq> [] \<and> \<not> HasPrefix expectedName (ProcessName kn pid)
          then (ProcessStopped, pid)
          else (ProcessRunning, pid))"

lemma TrimSpace_newline:
  assumes "s \<noteq> []" "\<forall>c \<in> set s. \<not> is_space c"
  shows "TrimSpace (s @ [CHR 0x0A]) = s"
proof -
  have sp: "is_space CHR 0x0A" by (simp add: is_space_def)
  have "dropWhile is_space (s @ [CHR 0x0A]) = s @ [CHR 0x0A]" using assms by (cases s) auto
  moreover have "dropWhile is_space (rev s) = rev s" using assms(2) by (cases "rev s") (auto simp flip: set_rev [of s])
  ultimately show ?thesis using sp by (simp add: TrimSpace_def trim_left_def)
qed

lemma show_nat_no_space: "\<forall>c \<in> set (show_nat n). \<not> is_space c"
  using show_nat_digits [of n] by (auto simp: is_digit_def is_space_def)

lemma Read_written:
  assumes "0 < self" "int self \<le> max_int64" "flt PidOpen = None" "flt PidRead = None"
  shows "ReadPIDFile flt path (Some (show_nat self @ [CHR 0x0A])) = Inr (int self)"
proof -
  have "self < 10 ^ Suc 18" using assms(2) by (simp add: max_int64_def)
  then have len: "length (show_nat self) \<le> Suc 18" by (rule length_show_nat)
  then have "take maxPIDFileSize (show_nat self @ [CHR 0x0A]) = show_nat self @ [CHR 0x0A]"
    by (intro take_all) (simp add: maxPIDFileSize_def)
  then show ?thesis
    using assms by (simp add: ReadPIDFile_def Read_once_def read_file_def TrimSpace_newline show_nat_no_space Atoi_show_nat del: take_append)
qed

lemma WritePIDFile_cases:
  assumes "WritePIDFile flt path self file = (file', r)"
  shows "(r = None \<and> IsAbs path \<and> file' = Some (show_nat self @ [CHR 0x0A])) \<or> (r \<noteq> None \<and> file' = file)"
  using assms by (auto simp: WritePIDFile_def Let_def split: if_splits option.splits)

lemma CheckProcess_absent: "flt PidOpen = None \<Longrightarrow> CheckProcess kn flt path name None = (ProcessStopped, 0)"
  by (simp add: CheckProcess_def ReadPIDFile_def read_file_def IsKind_def)

section \<open>The Agent\<close>

text \<open>
  What an Agent shares with the rest of the machine: directories, the database, the PID file, and, to count
  them, the handles that were opened and closed.
\<close>

record world =
  w_dirs :: filesystem
  w_disk :: disk
  w_pid :: "bytes option"
  w_opened :: "db_handle list"
  w_closed :: "db_handle list"

text \<open>
  What a run writes to its logs, by level and message: records of the Agent's logger, and lines that the packages
  it starts put on the process's standard logger.
\<close>

datatype log_item = Note Level string | StdLine string

record agent =
  a_cfg :: config
  a_pidPath :: string
  a_db :: "db_handle option"
  a_log :: "log_item list"

definition New_agent :: "config \<Rightarrow> Paths_t \<Rightarrow> agent" where
  "New_agent cfg paths = \<lparr>a_cfg = cfg, a_pidPath = PIDFile paths, a_db = None, a_log = []\<rparr>"

definition note_log :: "Level \<Rightarrow> string \<Rightarrow> agent \<Rightarrow> agent" where
  "note_log l m a = a\<lparr>a_log := a_log a @ [Note l m]\<rparr>"

definition std_log :: "string \<Rightarrow> agent \<Rightarrow> agent" where
  "std_log m a = a\<lparr>a_log := a_log a @ [StdLine m]\<rparr>"

text \<open>
  The points of the start at which the code looks whether a stop was requested, and the environment of one
  run: whether it was by then, the machine's answers, and the Agent's own process id. \<open>ae_slow\<close> says that
  closing takes longer than the shutdown timeout.
\<close>

datatype stage = BeforeStart | InDataDir | InStorage

record agent_env =
  ae_host :: host
  ae_dirs :: dir_faults
  ae_umask :: FileMode
  ae_open :: open_env
  ae_version :: mg_faults
  ae_pid :: pid_faults
  ae_self :: nat
  ae_stop :: "stage \<Rightarrow> bool"
  ae_close :: "go_error option"
  ae_slow :: bool

datatype run_result = Returned "go_error option" | Serving

definition validateEnvironment :: "agent_env \<Rightarrow> agent \<Rightarrow> go_error option" where
  "validateEnvironment env a =
     (if \<not> IsSupportedOS (ae_host env)
      then Some (New KindUnsupported ''agent.validateEnvironment'' (''InfraPilot supports Linux; this host runs '' @ in_OS (Collect (ae_host env))))
      else (case Validate (a_cfg a) of Some e \<Rightarrow> Some e
        | None \<Rightarrow>
            if a_pidPath a = []
            then Some (New KindConfig ''agent.validateEnvironment''
              ''the data directory is not set, so the agent cannot record that it is running'')
            else None))"

text \<open>\<open>stopping\<close>: an error of a step during which a stop was requested is logged and dropped.\<close>

definition stopping :: "agent_env \<Rightarrow> stage \<Rightarrow> go_error \<Rightarrow> agent \<Rightarrow> agent \<times> go_error option" where
  "stopping env st e a =
     (if ae_stop env st then (note_log LevelInfo ''stop requested during start-up'' a, None) else (a, Some e))"

definition closeStorage :: "agent_env \<Rightarrow> agent \<Rightarrow> world \<Rightarrow> agent \<times> world \<times> go_error option" where
  "closeStorage env a w =
     (case a_db a of None \<Rightarrow> (a, w, None)
      | Some h \<Rightarrow>
          (let a1 = a\<lparr>a_db := None\<rparr>; w1 = w\<lparr>w_closed := w_closed w @ [h]\<rparr>;
               err = snd (Close_db (ae_close env) (Some h))
           in ((if err = None then a1 else note_log LevelError ''cannot close the database cleanly'' a1), w1, err)))"

definition openStorage :: "agent_env \<Rightarrow> agent \<Rightarrow> world \<Rightarrow> agent \<times> world \<times> go_error option" where
  "openStorage env a w =
     (case DatabasePath (a_cfg a) of Inl e \<Rightarrow> (a, w, Some e)
      | Inr path \<Rightarrow>
          (case Open_db (ae_open env) \<lparr>op_Path = path, op_BusyTimeout = so_BusyTimeout (cf_Storage (a_cfg a)),
                                      op_ReadOnly = False\<rparr> (w_disk w) of
             (dk, Inl e) \<Rightarrow> (a, w\<lparr>w_disk := dk\<rparr>, Some e)
           | (dk, Inr h) \<Rightarrow>
               (let a1 = a\<lparr>a_db := Some h\<rparr>; w1 = w\<lparr>w_disk := dk, w_opened := w_opened w @ [h]\<rparr> in
                case CurrentVersion (ae_version env) (file_of dk) of
                  Inl _ \<Rightarrow> (note_log LevelWarn ''cannot read the schema version'' a1, w1, None)
                | Inr _ \<Rightarrow> (note_log LevelDebug ''storage ready'' a1, w1, None))))"

definition recordLiveness :: "agent_env \<Rightarrow> agent \<Rightarrow> world \<Rightarrow> agent \<times> world \<times> go_error option" where
  "recordLiveness env a w =
     (case WritePIDFile (ae_pid env) (a_pidPath a) (ae_self env) (w_pid w) of
        (file, Some e) \<Rightarrow> (a, w\<lparr>w_pid := file\<rparr>, Some e)
      | (file, None) \<Rightarrow> (note_log LevelDebug ''liveness recorded'' a, w\<lparr>w_pid := file\<rparr>, None))"

definition clearLiveness :: "agent_env \<Rightarrow> agent \<Rightarrow> world \<Rightarrow> agent \<times> world" where
  "clearLiveness env a w =
     (case RemovePIDFile (ae_pid env) (a_pidPath a) (w_pid w) of
        (file, Some e) \<Rightarrow> (note_log LevelError ''cannot remove the PID file'' a, w\<lparr>w_pid := file\<rparr>)
      | (file, None) \<Rightarrow> (a, w\<lparr>w_pid := file\<rparr>))"

text \<open>\<open>Run\<close> up to \<open>serve\<close>; what was opened is closed again when the PID file cannot be written.\<close>

definition Run_start :: "agent_env \<Rightarrow> agent \<Rightarrow> world \<Rightarrow> agent \<times> world \<times> run_result" where
  "Run_start env a0 w =
     (let a = note_log LevelInfo ''starting'' a0 in
      if ae_stop env BeforeStart then (note_log LevelInfo ''stopped before start-up'' a, w, Returned None)
      else (case validateEnvironment env a of Some e \<Rightarrow> (a, w, Returned (Some e))
      | None \<Rightarrow>
        (case EnsureDir (ae_dirs env) (ae_umask env) (ag_DataDir (cf_Agent (a_cfg a))) DirMode (w_dirs w) of
           (dirs, Some e) \<Rightarrow> (case stopping env InDataDir e a of (a1, r) \<Rightarrow> (a1, w\<lparr>w_dirs := dirs\<rparr>, Returned r))
         | (dirs, None) \<Rightarrow>
           (case openStorage env (note_log LevelDebug ''data directory ready'' a) (w\<lparr>w_dirs := dirs\<rparr>) of
              (a1, w1, Some e) \<Rightarrow> (case stopping env InStorage e a1 of (a2, r) \<Rightarrow> (a2, w1, Returned r))
            | (a1, w1, None) \<Rightarrow>
              (case recordLiveness env a1 w1 of
                 (a2, w2, Some e) \<Rightarrow>
                   (case closeStorage env a2 w2 of (a3, w3, _) \<Rightarrow> (a3, w3, Returned (Some e)))
               | (a2, w2, None) \<Rightarrow> (note_log LevelInfo ''started'' a2, w2, Serving))))))"

text \<open>A beat of the run loop only looks at the database and logs.\<close>

definition heartbeat :: "agent \<Rightarrow> (db_handle option \<Rightarrow> Health) \<Rightarrow> agent" where
  "heartbeat a check =
     (case a_db a of None \<Rightarrow> a
      | Some h \<Rightarrow>
          if he_Healthy (check (Some h)) then note_log LevelDebug ''heartbeat'' a
          else note_log LevelWarn ''the database is not healthy'' a)"

text \<open>
  What happens in \<open>serve\<close> before the context ends: ticks, each with its check; a line of the bridge's goroutine or of the
  server it runs on the standard logger; and the bridge failing, which only logs.
\<close>

datatype serve_event = Tick "db_handle option \<Rightarrow> Health" | BridgeLine string | BridgeFailed

fun serve_one :: "serve_event \<Rightarrow> agent \<Rightarrow> agent" where
  "serve_one (Tick check) a = heartbeat a check"
| "serve_one (BridgeLine m) a = std_log m a"
| "serve_one BridgeFailed a = note_log LevelWarn ''local signing bridge unavailable'' a"

fun serve_beats :: "serve_event list \<Rightarrow> agent \<Rightarrow> agent" where
  "serve_beats [] a = a"
| "serve_beats (ev # evs) a = serve_beats evs (serve_one ev a)"

text \<open>
  \<open>shutdown\<close>: the close runs beside the timeout. When the timeout wins the handle is still given to a close, by its
  goroutine or by \<open>Run\<close>'s deferred call, whichever takes it. The interleavings are in \<open>Agent_Shutdown\<close>; there the process can
  end while the goroutine holds the handle.
\<close>

definition shutdown_error :: "duration \<Rightarrow> go_error" where
  "shutdown_error d = New KindInternal ''agent.shutdown'' (''shutdown did not finish within '' @ Duration_String d)"

definition shutdown :: "agent_env \<Rightarrow> agent \<Rightarrow> world \<Rightarrow> agent \<times> world \<times> go_error option" where
  "shutdown env a w =
     (case closeStorage env a w of (a1, w1, err) \<Rightarrow>
        if ae_slow env then (a1, w1, Some (shutdown_error (ag_ShutdownTimeout (cf_Agent (a_cfg a)))))
        else (case err of Some e \<Rightarrow> (a1, w1, Some e) | None \<Rightarrow> (note_log LevelInfo ''stopped'' a1, w1, None)))"

text \<open>From the end of the context in \<open>serve\<close> to the return of \<open>Run\<close>, deferred calls included.\<close>

definition Run_stop :: "agent_env \<Rightarrow> agent \<Rightarrow> world \<Rightarrow> agent \<times> world \<times> go_error option" where
  "Run_stop env a0 w =
     (case shutdown env (note_log LevelInfo ''shutting down'' a0) w of (a1, w1, err) \<Rightarrow>
      (case clearLiveness env a1 w1 of (a2, w2) \<Rightarrow>
      (case closeStorage env a2 w2 of (a3, w3, _) \<Rightarrow>
        (a3, w3, map_option (wrap_err KindInternal ''agent.Run'' ''the agent stopped unexpectedly'') err))))"


section \<open>A run leaves nothing behind\<close>

lemma note_log_simps [simp]:
  "a_cfg (note_log l m a) = a_cfg a" "a_pidPath (note_log l m a) = a_pidPath a" "a_db (note_log l m a) = a_db a"
  by (simp_all add: note_log_def)

lemma std_log_simps [simp]:
  "a_cfg (std_log m a) = a_cfg a" "a_pidPath (std_log m a) = a_pidPath a" "a_db (std_log m a) = a_db a"
  by (simp_all add: std_log_def)

lemma serve_one_keeps [simp]:
  "a_cfg (serve_one ev a) = a_cfg a" "a_pidPath (serve_one ev a) = a_pidPath a" "a_db (serve_one ev a) = a_db a"
  by (cases ev; simp add: heartbeat_def split: option.splits)+

lemma stopping_keeps:
  "a_db (fst (stopping env st e a)) = a_db a"
  by (simp add: stopping_def)

lemma serve_beats_keep [simp]:
  "a_cfg (serve_beats cs a) = a_cfg a" "a_pidPath (serve_beats cs a) = a_pidPath a" "a_db (serve_beats cs a) = a_db a"
  by (induction cs a rule: serve_beats.induct) simp_all

lemma closeStorage_cases:
  assumes "closeStorage env a w = (a', w', r)"
  shows "a_db a' = None \<and> a_cfg a' = a_cfg a \<and> a_pidPath a' = a_pidPath a
    \<and> w' = w\<lparr>w_closed := w_closed w @ (case a_db a of None \<Rightarrow> [] | Some h \<Rightarrow> [h])\<rparr>
    \<and> (a_db a = None \<longrightarrow> r = None)"
  using assms by (auto simp: closeStorage_def Let_def split: option.splits if_splits)

lemma openStorage_cases:
  assumes "openStorage env a w = (a', w', r)"
  shows "w_pid w' = w_pid w \<and> w_closed w' = w_closed w \<and> w_dirs w' = w_dirs w \<and> a_cfg a' = a_cfg a \<and> a_pidPath a' = a_pidPath a
    \<and> extends (file_of (w_disk w)) (file_of (w_disk w'))
    \<and> (case r of Some e \<Rightarrow> w_opened w' = w_opened w \<and> a_db a' = a_db a
       | None \<Rightarrow> \<exists>h. a_db a' = Some h \<and> w_opened w' = w_opened w @ [h])"
proof (cases "DatabasePath (a_cfg a)")
  case (Inl e)
  with assms show ?thesis by (auto simp: openStorage_def)
next
  case (Inr path)
  let ?o = "\<lparr>op_Path = path, op_BusyTimeout = so_BusyTimeout (cf_Storage (a_cfg a)), op_ReadOnly = False\<rparr>"
  have "extends (file_of (w_disk w)) (file_of (fst (Open_db (ae_open env) ?o (w_disk w))))" by (rule Open_db_extends)
  with Inr assms show ?thesis
    by (auto simp: openStorage_def Let_def split: sum.splits prod.splits)
qed

lemma recordLiveness_cases:
  assumes "recordLiveness env a w = (a', w', r)"
  shows "a_db a' = a_db a \<and> a_cfg a' = a_cfg a \<and> a_pidPath a' = a_pidPath a \<and> w_closed w' = w_closed w \<and> w_opened w' = w_opened w
    \<and> w_disk w' = w_disk w
    \<and> (case r of Some e \<Rightarrow> w_pid w' = w_pid w | None \<Rightarrow> w_pid w' = Some (show_nat (ae_self env) @ [CHR 0x0A]))"
  using assms WritePIDFile_cases [of "ae_pid env" "a_pidPath a" "ae_self env" "w_pid w"]
  by (auto simp: recordLiveness_def split: option.splits prod.splits)

text \<open>The handles one stretch of a run opens and closes.\<close>

definition balanced :: "world \<Rightarrow> world \<Rightarrow> bool" where
  "balanced w w' \<longleftrightarrow> (\<exists>hs. w_opened w' = w_opened w @ hs \<and> w_closed w' = w_closed w @ hs)"

lemma Run_start_cases:
  assumes "Run_start env a0 w = (a, w', res)" "a_db a0 = None"
  shows "extends (file_of (w_disk w)) (file_of (w_disk w')) \<and>
    (case res of
       Returned r \<Rightarrow> w_pid w' = w_pid w \<and> balanced w w' \<and> a_db a = None
     | Serving \<Rightarrow> w_pid w' = Some (show_nat (ae_self env) @ [CHR 0x0A]) \<and> w_closed w' = w_closed w
         \<and> (\<exists>h. a_db a = Some h \<and> w_opened w' = w_opened w @ [h]))"
proof -
  let ?a = "note_log LevelInfo ''starting'' a0"
  obtain dirs derr where d: "EnsureDir (ae_dirs env) (ae_umask env) (ag_DataDir (cf_Agent (a_cfg ?a))) DirMode (w_dirs w) = (dirs, derr)"
    by (cases "EnsureDir (ae_dirs env) (ae_umask env) (ag_DataDir (cf_Agent (a_cfg ?a))) DirMode (w_dirs w)")
  obtain a1 w1 oerr where o: "openStorage env (note_log LevelDebug ''data directory ready'' ?a) (w\<lparr>w_dirs := dirs\<rparr>) = (a1, w1, oerr)"
    by (cases "openStorage env (note_log LevelDebug ''data directory ready'' ?a) (w\<lparr>w_dirs := dirs\<rparr>)")
  obtain a2 w2 lerr where l: "recordLiveness env a1 w1 = (a2, w2, lerr)" by (cases "recordLiveness env a1 w1")
  obtain a3 w3 cerr where c: "closeStorage env a2 w2 = (a3, w3, cerr)" by (cases "closeStorage env a2 w2")
  note oc = openStorage_cases [OF o] and lc = recordLiveness_cases [OF l] and cc = closeStorage_cases [OF c]
  consider "ae_stop env BeforeStart" | e where "\<not> ae_stop env BeforeStart" "validateEnvironment env ?a = Some e"
    | e where "\<not> ae_stop env BeforeStart" "validateEnvironment env ?a = None" "derr = Some e"
    | e where "\<not> ae_stop env BeforeStart" "validateEnvironment env ?a = None" "derr = None" "oerr = Some e"
    | e where "\<not> ae_stop env BeforeStart" "validateEnvironment env ?a = None" "derr = None" "oerr = None" "lerr = Some e"
    | "\<not> ae_stop env BeforeStart" "validateEnvironment env ?a = None" "derr = None" "oerr = None" "lerr = None"
    by (metis option.exhaust)
  then show ?thesis
  proof cases
    case 1
    with assms show ?thesis by (auto simp: Run_start_def Let_def balanced_def)
  next
    case 2
    with assms show ?thesis by (auto simp: Run_start_def Let_def balanced_def)
  next
    case 3
    with assms d have "a = fst (stopping env InDataDir e ?a)" "w' = w\<lparr>w_dirs := dirs\<rparr>" "res = Returned (snd (stopping env InDataDir e ?a))"
      by (auto simp: Run_start_def Let_def split: prod.splits)
    with 3 assms(2) stopping_keeps [of env InDataDir e ?a] show ?thesis by (auto simp: balanced_def)
  next
    case 4
    with assms d o have "a = fst (stopping env InStorage e a1)" "w' = w1" "res = Returned (snd (stopping env InStorage e a1))"
      by (auto simp: Run_start_def Let_def split: prod.splits)
    with oc 4 assms(2) stopping_keeps [of env InStorage e a1] show ?thesis by (auto simp: balanced_def)
  next
    case 5
    with assms d o l c have "a = a3" "w' = w3" "res = Returned (Some e)" by (auto simp: Run_start_def Let_def)
    with oc lc cc 5 show ?thesis by (auto simp: balanced_def)
  next
    case 6
    with assms d o l have "a = note_log LevelInfo ''started'' a2" "w' = w2" "res = Serving" by (auto simp: Run_start_def Let_def)
    with oc lc 6 show ?thesis by auto
  qed
qed

lemma Run_stop_cases:
  assumes "Run_stop env a w = (a', w', r)"
  shows "w_opened w' = w_opened w \<and> w_closed w' = w_closed w @ (case a_db a of None \<Rightarrow> [] | Some h \<Rightarrow> [h])
    \<and> w_disk w' = w_disk w \<and> w_pid w' = fst (RemovePIDFile (ae_pid env) (a_pidPath a) (w_pid w)) \<and> a_db a' = None
    \<and> (r = None \<longleftrightarrow> \<not> ae_slow env \<and> (a_db a = None \<or> ae_close env = None))"
  using assms
  by (auto simp: Run_stop_def shutdown_def closeStorage_def clearLiveness_def Close_db_def Let_def note_log_def
      split: option.splits prod.splits if_splits)


section \<open>Starting\<close>

text \<open>An environment in which nothing goes wrong and no stop is requested.\<close>

definition calm_open :: "open_env \<Rightarrow> bool" where
  "calm_open oe \<longleftrightarrow> oe_dir oe = Inr True \<and> oe_open oe = None \<and> oe_ping oe = None \<and> oe_journal oe = Inr ''wal''
     \<and> oe_foreign oe = Inr 1 \<and> oe_chmod oe = None \<and> oe_migrate oe = (\<lambda>_. None)"

definition calm :: "agent_env \<Rightarrow> bool" where
  "calm env \<longleftrightarrow> IsSupportedOS (ae_host env) \<and> ae_dirs env = (\<lambda>_. None) \<and> calm_open (ae_open env)
     \<and> ae_pid env = (\<lambda>_. None) \<and> ae_stop env = (\<lambda>_. False) \<and> 0 < ae_self env \<and> int (ae_self env) \<le> max_int64"

lemma EnsureDir_calm:
  assumes "IsAbs dir" "fs dir = None \<or> (\<exists>st. fs dir = Some st \<and> st_IsDir st)"
  shows "snd (EnsureDir (\<lambda>_. None) um dir mode fs) = None"
  using assms by (auto simp: EnsureDir_def MkdirAll_def Stat_def IsAbs_def HasPrefix_def split: option.splits)

lemma Open_db_calm:
  assumes "calm_open oe" "op_Path opts \<noteq> []" "IsAbs (op_Path opts)" "0 < op_BusyTimeout opts" "\<not> op_ReadOnly opts"
    "\<forall>v \<in> versions_of (file_of dk). v \<le> 2"
  shows "\<exists>g. Open_db oe opts dk =
    (\<lparr>dk_file = Some g, dk_mode = dbFileMode, dk_side = oe_side oe\<rparr>, Inr \<lparr>dh_path = op_Path opts, dh_readOnly = False\<rparr>)"
proof -
  have c: "open_checks oe opts = None" "applyPragmas False oe = None"
    using assms by (simp_all add: open_checks_def applyPragmas_def calm_open_def Let_def)
  obtain g where "Migrate False (\<lambda>_. None) (oe_clock oe) (file_of dk) = (None, g)"
    using Migrate_succeeds [OF assms(6)] by blast
  with c assms show ?thesis by (cases dk) (auto simp: Open_db_def calm_open_def file_of_def Let_def)
qed

lemma abs_nonempty: "IsAbs p \<Longrightarrow> p \<noteq> []"
  by (auto simp: IsAbs_def HasPrefix_def)

lemma Run_start_calm:
  assumes "calm env" "Validate cfg = None" "IsAbs (DataDir paths)"
    "\<forall>v \<in> versions_of (file_of (w_disk w)). v \<le> 2"
    "\<forall>st. w_dirs w (ag_DataDir (cf_Agent cfg)) = Some st \<longrightarrow> st_IsDir st"
  shows "\<exists>a w'. Run_start env (New_agent cfg paths) w = (a, w', Serving)"
proof -
  let ?dir = "ag_DataDir (cf_Agent cfg)"
  have v: "IsAbs ?dir" "in_range (100 * Millisecond) (so_BusyTimeout (cf_Storage cfg)) Minute" "is_ok (DatabasePath cfg)"
    using assms(2) by (simp_all add: Validate_None text_problems_Nil range_problems_Nil storage_problems_Nil)
  then obtain p where p: "DatabasePath cfg = Inr p" "IsAbs p" using DatabasePath_inside by (auto simp: is_ok_iff)
  have pf: "PIDFile paths = join_path (DataDir paths) PIDFileName" "IsAbs (PIDFile paths)"
    using assms(3) abs_nonempty IsAbs_join by (auto simp: PIDFile_def)
  have "IsAbs (PIDFile paths) \<longrightarrow> PIDFile paths \<noteq> []" using abs_nonempty by blast
  with assms(1,2) pf(2) have ve: "validateEnvironment env (note_log LevelInfo ''starting'' (New_agent cfg paths)) = None"
    by (simp add: validateEnvironment_def calm_def New_agent_def)
  obtain dirs where d: "EnsureDir (\<lambda>_. None) (ae_umask env) ?dir DirMode (w_dirs w) = (dirs, None)"
    using EnsureDir_calm [OF v(1), of "w_dirs w" "ae_umask env" DirMode] assms(5) by (metis not_Some_eq surjective_pairing)
  let ?o = "\<lparr>op_Path = p, op_BusyTimeout = so_BusyTimeout (cf_Storage cfg), op_ReadOnly = False\<rparr>"
  have "0 < so_BusyTimeout (cf_Storage cfg)" using v(2) by (simp add: in_range_def time_units)
  then obtain g where "Open_db (ae_open env) ?o (w_disk w) =
      (\<lparr>dk_file = Some g, dk_mode = dbFileMode, dk_side = oe_side (ae_open env)\<rparr>, Inr \<lparr>dh_path = p, dh_readOnly = False\<rparr>)"
    using Open_db_calm [of "ae_open env" ?o "w_disk w"] assms(1,4) p(2) abs_nonempty by (auto simp: calm_def)
  then have "\<exists>a1 w1. openStorage env (note_log LevelDebug ''data directory ready'' (note_log LevelInfo ''starting'' (New_agent cfg paths)))
      (w\<lparr>w_dirs := dirs\<rparr>) = (a1, w1, None)"
    using p(1) by (auto simp: openStorage_def New_agent_def note_log_def Let_def split: sum.splits)
  then obtain a1 w1 where o: "openStorage env (note_log LevelDebug ''data directory ready'' (note_log LevelInfo ''starting'' (New_agent cfg paths)))
      (w\<lparr>w_dirs := dirs\<rparr>) = (a1, w1, None)" by blast
  have "a_pidPath a1 = PIDFile paths" using openStorage_cases [OF o] by (simp add: New_agent_def)
  then have "\<exists>a2 w2. recordLiveness env a1 w1 = (a2, w2, None)"
    using assms(1) pf(2) by (simp add: recordLiveness_def WritePIDFile_def calm_def)
  then obtain a2 w2 where l: "recordLiveness env a1 w1 = (a2, w2, None)" by blast
  show ?thesis
    using assms(1) ve d o l by (simp add: Run_start_def Let_def calm_def) (simp add: New_agent_def)
qed

section \<open>Properties\<close>

text \<open>What the kernel says of a live Agent: the process exists, its name is the Agent's as the kernel cuts it.\<close>

definition sees_agent :: "kernel \<Rightarrow> nat \<Rightarrow> bool" where
  "sees_agent kn pid \<longleftrightarrow> kn_signal kn (int pid) = None \<and> kn_comm kn (int pid) = Inr (''infrapilot-agen'' @ [CHR 0x0A])"

lemma agent_comm: "TrimSpace (''infrapilot-agen'' @ [CHR 0x0A]) = ''infrapilot-agen''"
  "HasPrefix ''infrapilot-agent'' ''infrapilot-agen''"
  by code_simp+

lemma CheckProcess_live:
  assumes "sees_agent kn pid" "0 < pid" "int pid \<le> max_int64"
  shows "CheckProcess kn (\<lambda>_. None) path ''infrapilot-agent'' (Some (show_nat pid @ [CHR 0x0A])) = (ProcessRunning, int pid)"
proof -
  have "ProcessName kn (int pid) = ''infrapilot-agen''"
    unfolding ProcessName_def using assms(1,2) agent_comm(1) by (simp add: sees_agent_def)
  with assms agent_comm(2) show ?thesis
    unfolding CheckProcess_def Read_written [of pid "\<lambda>_. None" path, OF assms(2,3) refl refl]
    by (simp add: ProcessAlive_def sees_agent_def)
qed

definition toy_agent_env :: agent_env where
  "toy_agent_env =
     \<lparr>ae_host = \<lparr>h_GOOS = ''linux'', h_GOARCH = ''amd64'', h_NumCPU = 1, h_out_of_range = 0, h_files = Map.empty, h_statfs = Map.empty\<rparr>,
      ae_dirs = (\<lambda>_. None), ae_umask = 0, ae_open = toy_open_env (\<lambda>_. None), ae_version = (\<lambda>_. None),
      ae_pid = (\<lambda>_. None), ae_self = 4242, ae_stop = (\<lambda>_. False), ae_close = None, ae_slow = False\<rparr>"

definition toy_world :: world where
  "toy_world = \<lparr>w_dirs = Map.empty, w_disk = \<lparr>dk_file = None, dk_mode = 0, dk_side = []\<rparr>, w_pid = None, w_opened = [], w_closed = []\<rparr>"

definition toy_kernel :: kernel where
  "toy_kernel = \<lparr>kn_signal = (\<lambda>_. None), kn_comm = (\<lambda>_. Inr (''infrapilot-agen'' @ [CHR 0x0A]))\<rparr>"

lemma toy_calm: "calm toy_agent_env" "IsAbs (DataDir toy_paths_t)"
  by (simp_all add: calm_def calm_open_def toy_agent_env_def toy_open_env_def IsSupportedOS_def max_int64_def toy_paths_t_def)

lemma toy_world_simps: "w_dirs toy_world = Map.empty" "versions_of (file_of (w_disk toy_world)) = {}"
  by (simp_all add: toy_world_def file_of_def new_file_def versions_of_def)

lemma toy_config:
  "\<exists>c. Load_config (\<lambda>_. Inl ''EOF'') (Inl (StdErr NotExist ''none'')) (\<lambda>_. None) toy_paths_t = Inr c"
  using fresh_load [of "StdErr NotExist ''none''" "\<lambda>_. None" toy_paths_t "\<lambda>_. Inl ''EOF''"] toy_dir
  by (auto simp: lookup_env_def)

lemma toy_started:
  "\<exists>cfg a w1. Run_start toy_agent_env (New_agent cfg toy_paths_t) toy_world = (a, w1, Serving)"
proof -
  obtain cfg where c: "Load_config (\<lambda>_. Inl ''EOF'') (Inl (StdErr NotExist ''none'')) (\<lambda>_. None) toy_paths_t = Inr cfg"
    using toy_config by blast
  have "\<exists>a w'. Run_start toy_agent_env (New_agent cfg toy_paths_t) toy_world = (a, w', Serving)"
    by (rule Run_start_calm [OF toy_calm(1) Load_config_validated [OF c] toy_calm(2)]) (simp_all add: toy_world_simps)
  then show ?thesis by blast
qed

text \<open>
  C21. From its configuration to serving: an Agent whose configuration loaded, on a Linux host where no call fails,
  with a database that is not ahead of it, starts, and every command that looks at its PID file then finds
  it running; when it is told to stop, it returns without an error and is found stopped, with the
  database closed exactly once.
\<close>

theorem agent_starts_and_stops:
  assumes "Load_config yaml file envv paths = Inr cfg" "calm env" "IsAbs (DataDir paths)"
    "\<forall>v \<in> versions_of (file_of (w_disk w)). v \<le> LatestVersion"
    "\<forall>st. w_dirs w (ag_DataDir (cf_Agent cfg)) = Some st \<longrightarrow> st_IsDir st"
    "sees_agent kn (ae_self env)" "ae_close env = None" "\<not> ae_slow env"
  shows "\<exists>a w1 a' w2. Run_start env (New_agent cfg paths) w = (a, w1, Serving)
    \<and> CheckProcess kn (\<lambda>_. None) (a_pidPath a) ''infrapilot-agent'' (w_pid w1) = (ProcessRunning, int (ae_self env))
    \<and> Run_stop env a w1 = (a', w2, None)
    \<and> CheckProcess kn (\<lambda>_. None) (a_pidPath a) ''infrapilot-agent'' (w_pid w2) = (ProcessStopped, 0)
    \<and> (\<exists>h. w_opened w2 = w_opened w @ [h] \<and> w_closed w2 = w_closed w @ [h])"
proof -
  have four: "\<forall>v \<in> versions_of (file_of (w_disk w)). v \<le> 2" using assms(4) by simp
  from Run_start_calm [OF assms(2) Load_config_validated [OF assms(1)] assms(3) four assms(5)] obtain a w1 where
    st: "Run_start env (New_agent cfg paths) w = (a, w1, Serving)" by blast
  have "a_db (New_agent cfg paths) = None" by (simp add: New_agent_def)
  from Run_start_cases [OF st this] obtain h where
    s: "w_pid w1 = Some (show_nat (ae_self env) @ [CHR 0x0A])" "w_closed w1 = w_closed w" "a_db a = Some h" "w_opened w1 = w_opened w @ [h]"
    by auto
  obtain a' w2 r where sp: "Run_stop env a w1 = (a', w2, r)" by (cases "Run_stop env a w1")
  note c = Run_stop_cases [OF sp]
  have r: "r = None" using c assms(7,8) by simp
  have "w_pid w2 = None" using c assms(2) by (simp add: RemovePIDFile_def calm_def)
  moreover have "0 < ae_self env" "int (ae_self env) \<le> max_int64" using assms(2) by (simp_all add: calm_def)
  ultimately show ?thesis
    using st sp r s c CheckProcess_live [OF assms(6)] by (auto simp: CheckProcess_absent)
qed

theorem agent_starts_and_stops_witness:
  "\<exists>cfg a w1. Run_start toy_agent_env (New_agent cfg toy_paths_t) toy_world = (a, w1, Serving)
     \<and> CheckProcess toy_kernel (\<lambda>_. None) (a_pidPath a) ''infrapilot-agent'' (w_pid w1) = (ProcessRunning, 4242)"
proof -
  obtain cfg where c: "Load_config (\<lambda>_. Inl ''EOF'') (Inl (StdErr NotExist ''none'')) (\<lambda>_. None) toy_paths_t = Inr cfg"
    using toy_config by blast
  have k: "sees_agent toy_kernel (ae_self toy_agent_env)" "ae_close toy_agent_env = None" "\<not> ae_slow toy_agent_env"
    "ae_self toy_agent_env = 4242"
    by (simp_all add: sees_agent_def toy_kernel_def toy_agent_env_def)
  have "\<forall>v \<in> versions_of (file_of (w_disk toy_world)). v \<le> LatestVersion"
    "\<forall>st. w_dirs toy_world (ag_DataDir (cf_Agent cfg)) = Some st \<longrightarrow> st_IsDir st"
    by (simp_all add: toy_world_simps)
  from agent_starts_and_stops [OF c toy_calm this k(1-3)] k(4) show ?thesis by auto
qed

text \<open>
  However a start ends, nothing is left behind: an Agent that does not reach serving leaves the PID file as it
  was and has closed every handle it opened; and one that did, however often it beat and whatever fails while it stops,
  closes its handle exactly once. No row of the database is lost by either.
\<close>

theorem agent_leaves_nothing_open:
  assumes "Run_start env (New_agent cfg paths) w = (a, w1, res)"
  shows "extends (file_of (w_disk w)) (file_of (w_disk w1)) \<and>
    (case res of
       Returned r \<Rightarrow> w_pid w1 = w_pid w \<and> balanced w w1
     | Serving \<Rightarrow> \<forall>env' checks a' w2 r. Run_stop env' (serve_beats checks a) w1 = (a', w2, r) \<longrightarrow> balanced w w2 \<and> w_disk w2 = w_disk w1)"
proof -
  have "a_db (New_agent cfg paths) = None" by (simp add: New_agent_def)
  note s = Run_start_cases [OF assms this]
  show ?thesis
  proof (cases res)
    case (Returned r)
    with s show ?thesis by simp
  next
    case Serving
    have "balanced w w2 \<and> w_disk w2 = w_disk w1" if "Run_stop env' (serve_beats checks a) w1 = (a', w2, r)" for env' checks a' w2 r
      using s Serving Run_stop_cases [OF that] by (auto simp: balanced_def)
    with s Serving show ?thesis by auto
  qed
qed

theorem agent_leaves_nothing_open_witness:
  "\<exists>cfg a w1 a' w2 r. Run_start toy_agent_env (New_agent cfg toy_paths_t) toy_world = (a, w1, Serving)
     \<and> Run_stop toy_agent_env a w1 = (a', w2, r) \<and> balanced toy_world w2"
proof -
  obtain cfg a w1 where s: "Run_start toy_agent_env (New_agent cfg toy_paths_t) toy_world = (a, w1, Serving)"
    using toy_started by blast
  obtain a' w2 r where t: "Run_stop toy_agent_env a w1 = (a', w2, r)" by (cases "Run_stop toy_agent_env a w1")
  then have "Run_stop toy_agent_env (serve_beats [] a) w1 = (a', w2, r)" by simp
  with agent_leaves_nothing_open [OF s] have "balanced toy_world w2" unfolding run_result.case by blast
  with s t show ?thesis by blast
qed

text \<open>
  The PID file belongs to the directory, not to the Agent that wrote it: a second Agent on the same directory
  replaces it, and takes it away when it stops. The first one, still serving, is then reported stopped.
\<close>

lemma second_agent_hides_first:
  assumes "Run_start env1 (New_agent cfg paths) w = (a1, w1, Serving)"
    "Run_start env2 (New_agent cfg paths) w1 = (a2, w2, Serving)" "ae_pid env2 PidRemove = None"
    "Run_stop env2 a2 w2 = (a2', w3, r)"
  shows "CheckProcess kn (\<lambda>_. None) (a_pidPath a1) ''infrapilot-agent'' (w_pid w3) = (ProcessStopped, 0)"
  using Run_stop_cases [OF assms(4)] assms(3) by (simp add: RemovePIDFile_def CheckProcess_absent)

text \<open>A process whose name is any prefix of the Agent's counts as the Agent, the command line tool among them.\<close>

lemma command_line_taken_for_agent:
  assumes "kn_signal kn (int pid) = None" "kn_comm kn (int pid) = Inr ''infrapilot''" "0 < pid" "int pid \<le> max_int64"
  shows "CheckProcess kn (\<lambda>_. None) path ''infrapilot-agent'' (Some (show_nat pid @ [CHR 0x0A])) = (ProcessRunning, int pid)"
proof -
  have "TrimSpace ''infrapilot'' = ''infrapilot''" "HasPrefix ''infrapilot-agent'' ''infrapilot''" by code_simp+
  with assms show ?thesis
    unfolding CheckProcess_def Read_written [of pid "\<lambda>_. None" path, OF assms(3,4) refl refl]
    by (simp add: ProcessAlive_def ProcessName_def)
qed

end
