(* ===== verification/Doctor.thy ===== *)
theory Doctor
  imports Agent
begin

text \<open>
  \<open>internal/core\<close>: the checks of \<open>doctor\<close> and the status report, both of which look at the machine an Agent
  runs on (the record \<open>world\<close> of \<open>Agent\<close>) and are meant to leave it as it is.
\<close>

section \<open>Reports\<close>

datatype CheckStatus = StatusPass | StatusWarn | StatusFail

fun status_num :: "CheckStatus \<Rightarrow> nat" where
  "status_num StatusPass = 0"
| "status_num StatusWarn = 1"
| "status_num StatusFail = 2"

fun CheckStatus_String :: "CheckStatus \<Rightarrow> string" where
  "CheckStatus_String StatusPass = ''PASS''"
| "CheckStatus_String StatusWarn = ''WARN''"
| "CheckStatus_String StatusFail = ''FAIL''"

instantiation CheckStatus :: linorder
begin

definition less_eq_CheckStatus :: "CheckStatus \<Rightarrow> CheckStatus \<Rightarrow> bool" where
  "less_eq_CheckStatus a b \<longleftrightarrow> status_num a \<le> status_num b"

definition less_CheckStatus :: "CheckStatus \<Rightarrow> CheckStatus \<Rightarrow> bool" where
  "less_CheckStatus a b \<longleftrightarrow> status_num a < status_num b"

instance
proof
  fix a b :: CheckStatus
  show "a \<le> b \<Longrightarrow> b \<le> a \<Longrightarrow> a = b"
    by (cases a; cases b) (simp_all add: less_eq_CheckStatus_def)
qed (auto simp: less_eq_CheckStatus_def less_CheckStatus_def)

end

record CheckResult =
  ck_Name :: string
  ck_Status :: CheckStatus
  ck_Message :: string

definition Worst :: "CheckResult list \<Rightarrow> CheckStatus" where
  "Worst rs = fold (\<lambda>r worst. if ck_Status r > worst then ck_Status r else worst) rs StatusPass"

definition OK :: "CheckResult list \<Rightarrow> bool" where
  "OK rs \<longleftrightarrow> Worst rs < StatusFail"

definition Report_ExitCode :: "CheckResult list \<Rightarrow> int" where
  "Report_ExitCode rs = (if OK rs then ExitOK else ExitFailure)"

definition Count :: "CheckStatus \<Rightarrow> CheckResult list \<Rightarrow> nat" where
  "Count st rs = fold (\<lambda>r n. if ck_Status r = st then Suc n else n) rs 0"

section \<open>What the checks look at\<close>

text \<open>The configuration as \<open>Load\<close> left it; with an error it is the zero value.\<close>

record diag_env =
  de_Config :: config
  de_Paths :: Paths_t
  de_ConfigErr :: "go_error option"

text \<open>
  The answers of the machine during one inspection: its description, the faults of each stat, of the
  temporary file, of opening and of querying the database, the process table and the PID file.
\<close>

record probe =
  pr_host :: host
  pr_conf :: "go_error option"
  pr_conf_again :: "go_error option"
  pr_dir :: "go_error option"
  pr_temp :: "go_error option"
  pr_temp_num :: nat
  pr_remove :: "go_error option"
  pr_db :: "go_error option"
  pr_open :: open_env
  pr_one :: "go_error + int"
  pr_version :: mg_faults
  pr_size :: "go_error + int"
  pr_close :: "go_error option"
  pr_kernel :: kernel
  pr_pid :: pid_faults

definition AgentBinaryName :: string where "AgentBinaryName = ''infrapilot-agent''"

definition check_result :: "CheckStatus \<Rightarrow> string \<Rightarrow> CheckResult" where
  "check_result st m = \<lparr>ck_Name = [], ck_Status = st, ck_Message = m\<rparr>"

text \<open>The stat of the database file: its permission bits.\<close>

definition stat_db :: "go_error option \<Rightarrow> disk \<Rightarrow> go_error + FileMode" where
  "stat_db fault dk =
     (case fault of Some e \<Rightarrow> Inl e
      | None \<Rightarrow> (case dk_file dk of None \<Rightarrow> Inl (StdErr NotExist ''no such file or directory'')
                 | Some _ \<Rightarrow> Inr (word_of_nat (dk_mode dk))))"

text \<open>The read-only handle of an inspection: opened, and closed when the function that opened it returns.\<close>

definition open_read :: "probe \<Rightarrow> string \<Rightarrow> config \<Rightarrow> world \<Rightarrow> world \<times> (go_error + db_handle)" where
  "open_read pr path cfg w =
     (case Open_db (pr_open pr) \<lparr>op_Path = path, op_BusyTimeout = so_BusyTimeout (cf_Storage cfg), op_ReadOnly = True\<rparr> (w_disk w) of
        (dk, Inl e) \<Rightarrow> (w\<lparr>w_disk := dk\<rparr>, Inl e)
      | (dk, Inr h) \<Rightarrow> (w\<lparr>w_disk := dk, w_opened := w_opened w @ [h], w_closed := w_closed w @ [h]\<rparr>, Inr h))"

definition probe_health :: "probe \<Rightarrow> db_handle \<Rightarrow> disk \<Rightarrow> Health" where
  "probe_health pr h dk = Check_db (pr_one pr) (pr_version pr) (pr_size pr) (Some h) (file_of dk)"

section \<open>The checks\<close>

definition checkOS :: "probe \<Rightarrow> diag_env \<Rightarrow> world \<Rightarrow> world \<times> CheckResult" where
  "checkOS pr env w =
     (w, let info = Collect (pr_host pr) in
         if \<not> IsSupportedOS (pr_host pr)
         then check_result StatusFail (''InfraPilot supports Linux; this host runs '' @ in_OS info)
         else if in_Distribution info = []
         then check_result StatusWarn ''Linux, but the distribution could not be identified''
         else check_result StatusPass (in_Distribution info))"

definition checkArchitecture :: "probe \<Rightarrow> diag_env \<Rightarrow> world \<Rightarrow> world \<times> CheckResult" where
  "checkArchitecture pr env w = (w, check_result StatusPass (in_Arch (Collect (pr_host pr))))"

definition too_open :: "string \<Rightarrow> string \<Rightarrow> FileMode \<Rightarrow> FileMode \<Rightarrow> CheckResult" where
  "too_open path what mode want =
     check_result StatusWarn
       (path @ '' is '' @ what @ '' (mode '' @ octal (Perm mode) @ ''); '' @ octal want @ '' is recommended'')"

definition checkConfiguration :: "probe \<Rightarrow> diag_env \<Rightarrow> world \<Rightarrow> world \<times> CheckResult" where
  "checkConfiguration pr env w =
     (w, let file = ConfigFile (de_Paths env) in
         case de_ConfigErr env of Some e \<Rightarrow> check_result StatusFail (Error e)
         | None \<Rightarrow>
         (case Validate (de_Config env) of Some e \<Rightarrow> check_result StatusFail (Error e)
          | None \<Rightarrow>
          (case CheckFilePermissions (pr_conf pr) file (w_dirs w) of
             (_, Some e) \<Rightarrow>
               check_result StatusWarn (''using valid settings, but the configuration file could not be inspected: '' @ Error e)
           | (False, None) \<Rightarrow> check_result StatusPass (''using defaults; no file at '' @ file)
           | (True, None) \<Rightarrow>
               (case Stat (pr_conf_again pr) file (w_dirs w) of
                  Inl _ \<Rightarrow> check_result StatusWarn (''cannot stat '' @ file)
                | Inr st \<Rightarrow>
                    if IsWorldAccessible (st_Mode st) then too_open file ''accessible to all local users'' (st_Mode st) ConfigMode
                    else check_result StatusPass (''loaded from '' @ file)))))"

text \<open>\<open>os.CreateTemp\<close> never takes an existing name; a file that cannot be removed stays.\<close>

definition doctor_temp :: "string \<Rightarrow> nat \<Rightarrow> string" where
  "doctor_temp dir n =
     (if dir \<noteq> [] \<and> last dir = CHR ''/'' then dir else dir @ ''/'') @ ''.doctor-'' @ show_nat n"

definition writable :: "probe \<Rightarrow> string \<Rightarrow> filesystem \<Rightarrow> filesystem \<times> go_error option" where
  "writable pr dir fs =
     (let p = doctor_temp dir (pr_temp_num pr) in
      case pr_temp pr of Some e \<Rightarrow> (fs, Some e)
      | None \<Rightarrow>
          if fs p \<noteq> None then (fs, Some (StdErr OtherOS ''file exists''))
          else (let fs1 = fs(p \<mapsto> \<lparr>st_Mode = 0x180, st_IsDir = False\<rparr>) in
                case pr_remove pr of Some e \<Rightarrow> (fs1, Some e) | None \<Rightarrow> (fs1(p := None), None)))"

definition inspected_dir :: "diag_env \<Rightarrow> string" where
  "inspected_dir env =
     (if de_ConfigErr env = None \<and> ag_DataDir (cf_Agent (de_Config env)) \<noteq> []
      then ag_DataDir (cf_Agent (de_Config env)) else DataDir (de_Paths env))"

definition checkDataDirectory :: "probe \<Rightarrow> diag_env \<Rightarrow> world \<Rightarrow> world \<times> CheckResult" where
  "checkDataDirectory pr env w =
     (let dir = inspected_dir env in
      if dir = [] then (w, check_result StatusFail ''no data directory is configured'')
      else (case Stat (pr_dir pr) dir (w_dirs w) of
        Inl e \<Rightarrow>
          (w, if IsNotExist e then check_result StatusWarn (dir @ '' does not exist yet; the agent creates it on first start'')
              else if IsPermission e
              then check_result StatusFail (''cannot inspect '' @ dir @ ''; run as '' @ ServiceUser @ '' or with sudo'')
              else check_result StatusFail (''cannot inspect '' @ dir @ '': '' @ Error e))
      | Inr st \<Rightarrow>
          if \<not> st_IsDir st then (w, check_result StatusFail (dir @ '' is not a directory''))
          else if IsWorldAccessible (st_Mode st)
          then (w, too_open dir ''accessible to all local users'' (st_Mode st) DirMode)
          else (case writable pr dir (w_dirs w) of
            (fs, Some _) \<Rightarrow>
              (w\<lparr>w_dirs := fs\<rparr>, check_result StatusFail (''cannot write to '' @ dir @ ''; check that '' @ ServiceUser @ '' owns it''))
          | (fs, None) \<Rightarrow> (w\<lparr>w_dirs := fs\<rparr>, check_result StatusPass dir))))"

definition checkDatabase :: "probe \<Rightarrow> diag_env \<Rightarrow> world \<Rightarrow> world \<times> CheckResult" where
  "checkDatabase pr env w =
     (if de_ConfigErr env \<noteq> None then (w, check_result StatusWarn ''not checked because configuration could not be loaded'')
      else (case DatabasePath (de_Config env) of
        Inl e \<Rightarrow> (w, check_result StatusFail (Error e))
      | Inr path \<Rightarrow>
          (let st = stat_db (pr_db pr) (w_disk w);
               probed = (case open_read pr path (de_Config env) w of
                   (w1, Inl e) \<Rightarrow>
                     (w1, if IsKind (Some e) KindPermission
                          then check_result StatusFail (''cannot read '' @ path @ ''; run as '' @ ServiceUser @ '' or with sudo'')
                          else check_result StatusFail (Error e))
                 | (w1, Inr h) \<Rightarrow>
                     (w1, let health = probe_health pr h (w_disk w1) in
                          if \<not> he_Healthy health then check_result StatusFail (he_Detail health)
                          else check_result StatusPass (''healthy, schema version '' @ Itoa (he_SchemaVersion health))))
           in case st of
                Inl e \<Rightarrow>
                  (if IsNotExist e
                   then (w, check_result StatusWarn (''no database at '' @ path @ '' yet; the agent creates it on first start''))
                   else probed)
              | Inr mode \<Rightarrow>
                  (if IsWorldAccessible mode then (w, too_open path ''readable by all local users'' mode PrivateFileMode)
                   else probed))))"

fun Level_String :: "Level \<Rightarrow> string" where
  "Level_String LevelDebug = ''DEBUG''"
| "Level_String LevelInfo = ''INFO''"
| "Level_String LevelWarn = ''WARN''"
| "Level_String LevelError = ''ERROR''"

fun Format_text :: "Format \<Rightarrow> string" where
  "Format_text FormatText = ''text''"
| "Format_text FormatJSON = ''json''"

definition checkLogging :: "probe \<Rightarrow> diag_env \<Rightarrow> world \<Rightarrow> world \<times> CheckResult" where
  "checkLogging pr env w =
     (w, if de_ConfigErr env \<noteq> None then check_result StatusWarn ''not checked because configuration could not be loaded''
         else (let lc = cf_Logging (de_Config env) in
           case ParseLevel (lo_Level lc) of Inl e \<Rightarrow> check_result StatusFail (Error e)
           | Inr level \<Rightarrow>
           (case ParseFormat (lo_Format lc) of Inl e \<Rightarrow> check_result StatusFail (Error e)
            | Inr format \<Rightarrow>
            (case New_logger True (lo_Level lc) (Format_text format) of Inl e \<Rightarrow> check_result StatusFail (Error e)
             | Inr _ \<Rightarrow> check_result StatusPass (''level '' @ Level_String level @ '', format '' @ Format_text format)))))"

definition checkAgent :: "probe \<Rightarrow> diag_env \<Rightarrow> world \<Rightarrow> world \<times> CheckResult" where
  "checkAgent pr env w =
     (w, let file = PIDFile (de_Paths env) in
         if file = [] then check_result StatusWarn ''the data directory is not known''
         else (case CheckProcess (pr_kernel pr) (pr_pid pr) file AgentBinaryName (w_pid w) of
             (ProcessRunning, pid) \<Rightarrow> check_result StatusPass (''running, PID '' @ Itoa pid)
           | (ProcessStopped, _) \<Rightarrow> check_result StatusWarn (''not running; start it with 'systemctl start infrapilot-agent'' @ [CHR 0x27])
           | (ProcessUnknown, _) \<Rightarrow>
               check_result StatusWarn (''state could not be determined; check permissions on '' @ file)))"

type_synonym check = "string \<times> (probe \<Rightarrow> diag_env \<Rightarrow> world \<Rightarrow> world \<times> CheckResult)"

definition Checks :: "check list" where
  "Checks =
     [(''Operating System'', checkOS), (''Architecture'', checkArchitecture), (''Configuration'', checkConfiguration),
      (''Data Directory'', checkDataDirectory), (''Database'', checkDatabase), (''Logging'', checkLogging), (''Agent'', checkAgent)]"

fun run_checks :: "probe \<Rightarrow> diag_env \<Rightarrow> check list \<Rightarrow> world \<Rightarrow> world \<times> CheckResult list" where
  "run_checks pr env [] w = (w, [])"
| "run_checks pr env ((name, check) # cs) w =
     (case check pr env w of (w1, r) \<Rightarrow>
        (case run_checks pr env cs w1 of (w2, rs) \<Rightarrow>
           (w2, (if ck_Name r = [] then r\<lparr>ck_Name := name\<rparr> else r) # rs)))"

definition Diagnose :: "probe \<Rightarrow> diag_env \<Rightarrow> world \<Rightarrow> world \<times> CheckResult list" where
  "Diagnose pr env w = run_checks pr env Checks w"

section \<open>The status report\<close>

record AgentStatus =
  as_State :: ProcessState
  as_PID :: int
  as_Version :: string
  as_Detail :: string

record SystemStatus =
  ss_OS :: string
  ss_Distribution :: string
  ss_Architecture :: string
  ss_Kernel :: string
  ss_Uptime :: duration
  ss_NumCPU :: int

record StorageStatus =
  sg_Healthy :: bool
  sg_Path :: string
  sg_SchemaVersion :: int
  sg_SizeBytes :: int
  sg_Detail :: string

record ConfigStatus =
  cs_File :: string
  cs_FileExists :: bool
  cs_DataDir :: string
  cs_DevMode :: bool
  cs_Detail :: string

record Status =
  su_Agent :: AgentStatus
  su_System :: SystemStatus
  su_Storage :: StorageStatus
  su_Config :: ConfigStatus

definition Version :: string where "Version = ''0.4.1''"

definition collectSystem :: "probe \<Rightarrow> SystemStatus" where
  "collectSystem pr =
     (let info = Collect (pr_host pr) in
      \<lparr>ss_OS = in_OS info, ss_Distribution = in_Distribution info, ss_Architecture = in_Arch info,
       ss_Kernel = in_Kernel info, ss_Uptime = in_Uptime info, ss_NumCPU = in_NumCPU info\<rparr>)"

definition collectAgent :: "probe \<Rightarrow> Paths_t \<Rightarrow> world \<Rightarrow> AgentStatus" where
  "collectAgent pr paths w =
     (let file = PIDFile paths; a = \<lparr>as_State = ProcessUnknown, as_PID = 0, as_Version = Version, as_Detail = []\<rparr> in
      if file = [] then a\<lparr>as_Detail := ''the data directory is not known''\<rparr>
      else (case CheckProcess (pr_kernel pr) (pr_pid pr) file AgentBinaryName (w_pid w) of (state, pid) \<Rightarrow>
        a\<lparr>as_State := state, as_PID := pid,
          as_Detail := (if state = ProcessUnknown
                        then ''the agent state file could not be read; check permissions on '' @ file else [])\<rparr>))"

definition collectConfig :: "probe \<Rightarrow> config \<Rightarrow> Paths_t \<Rightarrow> go_error option \<Rightarrow> world \<Rightarrow> ConfigStatus" where
  "collectConfig pr cfg paths cfgErr w =
     (let st = \<lparr>cs_File = ConfigFile paths,
                cs_FileExists = (case CheckFilePermissions (pr_conf pr) (ConfigFile paths) (w_dirs w) of
                    (found, None) \<Rightarrow> found | (_, Some _) \<Rightarrow> False),
                cs_DataDir = DataDir paths, cs_DevMode = DevMode paths, cs_Detail = []\<rparr>
      in case cfgErr of Some e \<Rightarrow> st\<lparr>cs_Detail := Error e\<rparr>
         | None \<Rightarrow> if ag_DataDir (cf_Agent cfg) \<noteq> [] then st\<lparr>cs_DataDir := ag_DataDir (cf_Agent cfg)\<rparr> else st)"

definition storageDetail :: "go_error \<Rightarrow> string" where
  "storageDetail e =
     (case KindOf (Some e) of
        KindNotFound \<Rightarrow> ''the database has not been created yet; start the agent''
      | KindPermission \<Rightarrow> ''the database cannot be read by this user; run as '' @ ServiceUser @ '' or with sudo''
      | _ \<Rightarrow> Error e)"

definition no_storage :: "string \<Rightarrow> string \<Rightarrow> StorageStatus" where
  "no_storage path detail = \<lparr>sg_Healthy = False, sg_Path = path, sg_SchemaVersion = 0, sg_SizeBytes = 0, sg_Detail = detail\<rparr>"

definition collectStorage :: "probe \<Rightarrow> config \<Rightarrow> world \<Rightarrow> world \<times> StorageStatus" where
  "collectStorage pr cfg w =
     (case DatabasePath cfg of
        Inl e \<Rightarrow> (w, no_storage [] (''the database path is not usable: '' @ Error e))
      | Inr path \<Rightarrow>
          (case open_read pr path cfg w of
             (w1, Inl e) \<Rightarrow> (w1, no_storage path (storageDetail e))
           | (w1, Inr h) \<Rightarrow>
               (w1, let health = probe_health pr h (w_disk w1) in
                    \<lparr>sg_Healthy = he_Healthy health, sg_Path = path, sg_SchemaVersion = he_SchemaVersion health,
                     sg_SizeBytes = he_SizeBytes health, sg_Detail = he_Detail health\<rparr>)))"

definition CollectStatus :: "probe \<Rightarrow> config \<Rightarrow> Paths_t \<Rightarrow> go_error option \<Rightarrow> world \<Rightarrow> world \<times> Status" where
  "CollectStatus pr cfg paths cfgErr w =
     (case (if cfgErr \<noteq> None then (w, no_storage [] ''storage cannot be checked until configuration loads'')
            else collectStorage pr cfg w) of (w1, storage) \<Rightarrow>
      (w1, \<lparr>su_Agent = collectAgent pr paths w, su_System = collectSystem pr, su_Storage = storage,
            su_Config = collectConfig pr cfg paths cfgErr w\<rparr>))"

section \<open>An inspection changes nothing\<close>

text \<open>
  What may differ after an inspection: handles that were opened and closed, the sidecar files SQLite leaves beside
  the database, and, when a temporary file could not be removed, that file.
\<close>

definition same_file :: "disk \<Rightarrow> disk \<Rightarrow> bool" where
  "same_file dk dk' \<longleftrightarrow> dk_file dk' = dk_file dk \<and> dk_mode dk' = dk_mode dk"

lemma same_fileD: "same_file dk dk' \<Longrightarrow> file_of dk' = file_of dk"
  by (simp add: same_file_def file_of_def)

definition looked :: "world \<Rightarrow> world \<Rightarrow> bool" where
  "looked w w' \<longleftrightarrow> same_file (w_disk w) (w_disk w') \<and> w_pid w' = w_pid w \<and> balanced w w' \<and> w_dirs w \<subseteq>\<^sub>m w_dirs w'"

lemma balanced_refl: "balanced w w"
  by (simp add: balanced_def)

lemma balanced_trans: "balanced w w1 \<Longrightarrow> balanced w1 w2 \<Longrightarrow> balanced w w2"
  by (auto simp: balanced_def)

lemma looked_refl: "looked w w"
  by (simp add: looked_def balanced_refl same_file_def)

lemma looked_trans: "looked w w1 \<Longrightarrow> looked w1 w2 \<Longrightarrow> looked w w2"
  by (auto simp: looked_def same_file_def intro: balanced_trans map_le_trans)

lemma open_read_looks:
  assumes "open_read pr path cfg w = (w', r)"
  shows "looked w w' \<and> w_dirs w' = w_dirs w"
proof -
  let ?o = "\<lparr>op_Path = path, op_BusyTimeout = so_BusyTimeout (cf_Storage cfg), op_ReadOnly = True\<rparr>"
  obtain dk x where o: "Open_db (pr_open pr) ?o (w_disk w) = (dk, x)" by (cases "Open_db (pr_open pr) ?o (w_disk w)")
  then have "same_file (w_disk w) dk" using Open_db_read [OF o] by (simp add: same_file_def)
  with assms o show ?thesis by (cases x) (auto simp: open_read_def looked_def balanced_def)
qed

lemma writable_keeps:
  assumes "writable pr dir fs = (fs', r)"
  shows "fs \<subseteq>\<^sub>m fs' \<and> (pr_remove pr = None \<longrightarrow> fs' = fs) \<and> (r = None \<longrightarrow> fs' = fs)"
  using assms by (auto simp: writable_def Let_def map_le_def split: option.splits if_splits)

lemma checkDataDirectory_looks:
  assumes "checkDataDirectory pr env w = (w', r)"
  shows "looked w w' \<and> (pr_remove pr = None \<longrightarrow> w_dirs w' = w_dirs w)"
proof -
  have "w' = w \<or> (\<exists>fs x. writable pr (inspected_dir env) (w_dirs w) = (fs, x) \<and> w' = w\<lparr>w_dirs := fs\<rparr>)"
    using assms by (auto simp: checkDataDirectory_def Let_def split: if_splits sum.splits prod.splits option.splits)
  then show ?thesis
    using writable_keeps looked_refl by (fastforce simp: looked_def balanced_def same_file_def)
qed

lemma checkDatabase_looks:
  assumes "checkDatabase pr env w = (w', r)"
  shows "looked w w' \<and> w_dirs w' = w_dirs w"
proof -
  have "w' = w \<or> (\<exists>path x. open_read pr path (de_Config env) w = (w', x))"
    using assms by (auto simp: checkDatabase_def Let_def split: if_splits sum.splits prod.splits)
  then show ?thesis using open_read_looks looked_refl by blast
qed

lemma checks_look:
  assumes "(name, check) \<in> set Checks" "check pr env w = (w', r)"
  shows "looked w w' \<and> (pr_remove pr = None \<longrightarrow> w_dirs w' = w_dirs w)"
proof -
  have "w' = w \<or> checkDataDirectory pr env w = (w', r) \<or> checkDatabase pr env w = (w', r)"
    using assms
    by (auto simp: Checks_def checkOS_def checkArchitecture_def checkConfiguration_def checkLogging_def checkAgent_def)
  then show ?thesis using checkDataDirectory_looks checkDatabase_looks looked_refl by blast
qed

lemma run_checks_looks:
  assumes "run_checks pr env cs w = (w', rs)" "set cs \<subseteq> set Checks"
  shows "looked w w' \<and> (pr_remove pr = None \<longrightarrow> w_dirs w' = w_dirs w)"
  using assms
proof (induction pr env cs w arbitrary: w' rs rule: run_checks.induct)
  case (2 pr env name check cs w)
  obtain w1 r where c: "check pr env w = (w1, r)" by (cases "check pr env w")
  obtain w2 rs2 where d: "run_checks pr env cs w1 = (w2, rs2)" by (cases "run_checks pr env cs w1")
  have "w' = w2" using "2.prems"(1) c d by simp
  moreover have m: "(name, check) \<in> set Checks" "set cs \<subseteq> set Checks" using "2.prems"(2) by auto
  moreover have "looked w w1 \<and> (pr_remove pr = None \<longrightarrow> w_dirs w1 = w_dirs w)"
    using m(1) c by (rule checks_look)
  moreover have "looked w1 w2 \<and> (pr_remove pr = None \<longrightarrow> w_dirs w2 = w_dirs w1)"
    using "2.IH" [OF c [symmetric] d] m(2) by blast
  ultimately show ?case using looked_trans by metis
qed (simp add: looked_refl)

lemma Diagnose_looks:
  assumes "Diagnose pr env w = (w', rs)"
  shows "looked w w' \<and> (pr_remove pr = None \<longrightarrow> w_dirs w' = w_dirs w)"
  using run_checks_looks [OF assms [unfolded Diagnose_def]] by simp

lemma CollectStatus_looks:
  assumes "CollectStatus pr cfg paths cfgErr w = (w', st)"
  shows "looked w w' \<and> w_dirs w' = w_dirs w"
proof -
  have "w' = w \<or> (\<exists>s. collectStorage pr cfg w = (w', s))"
    using assms by (auto simp: CollectStatus_def split: if_splits prod.splits)
  moreover have "looked w w' \<and> w_dirs w' = w_dirs w" if "collectStorage pr cfg w = (w', s)" for s
    using that looked_refl open_read_looks
    by (fastforce simp: collectStorage_def split: sum.splits prod.splits)
  ultimately show ?thesis using looked_refl by blast
qed

text \<open>Inspections in any order, each with its own answers of the machine.\<close>

datatype inspection = RunDoctor probe diag_env | RunStatus probe config Paths_t "go_error option"

fun inspect :: "inspection \<Rightarrow> world \<Rightarrow> world" where
  "inspect (RunDoctor pr env) w = fst (Diagnose pr env w)"
| "inspect (RunStatus pr cfg paths err) w = fst (CollectStatus pr cfg paths err w)"

fun leaves_temp :: "inspection \<Rightarrow> bool" where
  "leaves_temp (RunDoctor pr env) = (pr_remove pr \<noteq> None)"
| "leaves_temp (RunStatus pr cfg paths err) = False"

lemma inspect_looks: "looked w (inspect i w) \<and> (\<not> leaves_temp i \<longrightarrow> w_dirs (inspect i w) = w_dirs w)"
  using Diagnose_looks CollectStatus_looks by (cases i) (metis inspect.simps leaves_temp.simps prod.collapse)+

interpretation inspecting: history_machine inspect "\<lambda>_. True" looked
  by unfold_locales (auto intro: looked_refl looked_trans simp: inspect_looks)

lemma inspections_keep_dirs: "list_all (\<lambda>i. \<not> leaves_temp i) is \<Longrightarrow> w_dirs (fold inspect is w) = w_dirs w"
  by (induction "is" arbitrary: w) (simp_all add: inspect_looks)

fun probe_of :: "inspection \<Rightarrow> probe" where
  "probe_of (RunDoctor pr env) = pr"
| "probe_of (RunStatus pr cfg paths err) = pr"

text \<open>The sidecar files change only by a connection, to what it leaves.\<close>

definition side_by :: "probe \<Rightarrow> world \<Rightarrow> world \<Rightarrow> bool" where
  "side_by pr w w' \<longleftrightarrow> dk_side (w_disk w') \<in> {dk_side (w_disk w), oe_side (pr_open pr)}"

lemma side_by_refl: "side_by pr w w" by (simp add: side_by_def)

lemma side_by_trans: "side_by pr w w1 \<Longrightarrow> side_by pr w1 w2 \<Longrightarrow> side_by pr w w2"
  by (auto simp: side_by_def)

lemma open_read_side:
  assumes "open_read pr path cfg w = (w', r)"
  shows "side_by pr w w'"
  using assms by (auto simp: open_read_def Open_db_def side_by_def Let_def split: sum.splits prod.splits option.splits if_splits)

lemma checks_side:
  assumes "(name, check) \<in> set Checks" "check pr env w = (w', r)"
  shows "side_by pr w w'"
proof -
  have "w' = w \<or> (\<exists>fs. w' = w\<lparr>w_dirs := fs\<rparr>) \<or> checkDatabase pr env w = (w', r)"
    using assms
    by (auto simp: Checks_def checkOS_def checkArchitecture_def checkConfiguration_def checkLogging_def checkAgent_def
        checkDataDirectory_def Let_def split: if_splits sum.splits prod.splits option.splits)
  moreover have "checkDatabase pr env w = (w', r) \<Longrightarrow> w' = w \<or> (\<exists>path x. open_read pr path (de_Config env) w = (w', x))"
    by (auto simp: checkDatabase_def Let_def split: if_splits sum.splits prod.splits)
  moreover have "side_by pr w (w\<lparr>w_dirs := fs\<rparr>)" for fs by (simp add: side_by_def)
  ultimately show ?thesis using open_read_side side_by_refl by metis
qed

lemma run_checks_side:
  "run_checks pr env cs w = (w', rs) \<Longrightarrow> set cs \<subseteq> set Checks \<Longrightarrow> side_by pr w w'"
proof (induction pr env cs w arbitrary: w' rs rule: run_checks.induct)
  case (2 pr env name check cs w)
  obtain w1 r where c: "check pr env w = (w1, r)" by (cases "check pr env w")
  obtain w2 rs2 where d: "run_checks pr env cs w1 = (w2, rs2)" by (cases "run_checks pr env cs w1")
  have "(name, check) \<in> set Checks" using 2(3) by simp
  then have "side_by pr w w1" using c by (rule checks_side)
  moreover have "side_by pr w1 w2" using 2(1) [OF c [symmetric] d] 2(3) by auto
  moreover have "w' = w2" using 2(2) c d by simp
  ultimately show ?case using side_by_trans by blast
qed (simp add: side_by_refl)

lemma inspect_side: "side_by (probe_of i) w (inspect i w)"
proof (cases i)
  case (RunDoctor pr env)
  then show ?thesis
    using run_checks_side [of pr env Checks w] by (cases "Diagnose pr env w") (simp add: Diagnose_def)
next
  case (RunStatus pr cfg paths err)
  have "inspect i w = w \<or> (\<exists>path x. open_read pr path cfg w = (inspect i w, x))"
    unfolding RunStatus inspect.simps
    by (auto simp: CollectStatus_def collectStorage_def split: if_splits sum.splits prod.splits)
  then show ?thesis using open_read_side side_by_refl RunStatus by (metis probe_of.simps(2))
qed

lemma inspections_sidecars:
  "dk_side (w_disk (fold inspect is w)) \<in> insert (dk_side (w_disk w)) ((\<lambda>i. oe_side (pr_open (probe_of i))) ` set is)"
proof (induction "is" arbitrary: w)
  case (Cons i "is")
  from inspect_side [of i w] Cons [of "inspect i w"] show ?case by (auto simp: side_by_def)
qed simp

section \<open>The verdict\<close>

lemma length_Checks: "length Checks = 7"
  by (simp add: Checks_def)

lemma Worst_fold:
  "fold (\<lambda>r worst. if ck_Status r > worst then ck_Status r else worst) rs s = Max (insert s (ck_Status ` set rs))"
proof (induction rs arbitrary: s)
  case (Cons r rs)
  have "(if ck_Status r > s then ck_Status r else s) = max s (ck_Status r)" by (auto simp: max_def dest: order.strict_implies_order)
  with Cons [of "max s (ck_Status r)"] show ?case
    by (cases "set rs = {}") (simp_all add: max.assoc insert_commute)
qed simp

lemma Worst_Max: "Worst rs = Max (insert StatusPass (ck_Status ` set rs))"
  unfolding Worst_def by (rule Worst_fold)

lemma Count_fold: "fold (\<lambda>r n. if ck_Status r = st then Suc n else n) rs k = length (filter (\<lambda>r. ck_Status r = st) rs) + k"
  by (induction rs arbitrary: k) simp_all

lemma Count_filter: "Count st rs = length (filter (\<lambda>r. ck_Status r = st) rs)"
  unfolding Count_def using Count_fold [of st rs 0] by simp

lemma Count_zero: "Count st rs = 0 \<longleftrightarrow> st \<notin> set (map ck_Status rs)"
  by (auto simp: Count_filter filter_empty_conv)

lemma status_Pass_least: "StatusPass \<le> s"
  by (simp add: less_eq_CheckStatus_def)

lemma below_Fail: "s < StatusFail \<longleftrightarrow> s \<noteq> StatusFail"
  by (cases s) (simp_all add: less_CheckStatus_def)

lemma OK_iff: "OK rs \<longleftrightarrow> Count StatusFail rs = 0"
proof -
  have "OK rs \<longleftrightarrow> StatusPass < StatusFail \<and> (\<forall>r \<in> set rs. ck_Status r < StatusFail)"
    by (simp add: OK_def Worst_Max)
  then show ?thesis by (auto simp: below_Fail Count_filter filter_empty_conv)
qed

lemma Count_sum: "Count StatusPass rs + Count StatusWarn rs + Count StatusFail rs = length rs"
proof (induction rs)
  case (Cons r rs)
  then show ?case by (cases "ck_Status r") (simp_all add: Count_filter)
qed (simp add: Count_filter)

lemma check_unnamed: "(name, check) \<in> set Checks \<Longrightarrow> ck_Name (snd (check pr env w)) = []"
  by (auto simp: Checks_def checkOS_def checkArchitecture_def checkConfiguration_def checkDataDirectory_def
      checkDatabase_def checkLogging_def checkAgent_def check_result_def too_open_def Let_def
      split: option.splits sum.splits prod.splits if_splits bool.splits ProcessState.splits)

lemma run_checks_names:
  "set cs \<subseteq> set Checks \<Longrightarrow> map ck_Name (snd (run_checks pr env cs w)) = map fst cs"
proof (induction pr env cs w rule: run_checks.induct)
  case (2 pr env name check cs w)
  obtain w1 r where c: "check pr env w = (w1, r)" by (cases "check pr env w")
  have "ck_Name r = []" using check_unnamed [of name check pr env w] 2(2) c by simp
  moreover have "map ck_Name (snd (run_checks pr env cs w1)) = map fst cs"
    using 2(1) [OF c [symmetric]] 2(2) by simp
  ultimately show ?case using c by (simp add: prod.case_eq_if)
qed simp

section \<open>Looking at a running Agent\<close>

lemma Run_start_serving:
  assumes "Run_start env (New_agent cfg paths) w = (a, w1, Serving)"
  shows "Validate cfg = None" "IsSupportedOS (ae_host env)" "PIDFile paths \<noteq> []"
    "w_pid w1 = Some (show_nat (ae_self env) @ [CHR 0x0A])"
    "EnsureDir (ae_dirs env) (ae_umask env) (ag_DataDir (cf_Agent cfg)) DirMode (w_dirs w) = (w_dirs w1, None)"
    "\<exists>p h. DatabasePath cfg = Inr p
       \<and> Open_db (ae_open env) \<lparr>op_Path = p, op_BusyTimeout = so_BusyTimeout (cf_Storage cfg), op_ReadOnly = False\<rparr> (w_disk w) = (w_disk w1, Inr h)"
proof -
  let ?a = "note_log LevelInfo ''starting'' (New_agent cfg paths)"
  have [simp]: "a_cfg (New_agent cfg paths) = cfg" "a_pidPath (New_agent cfg paths) = PIDFile paths" by (simp_all add: New_agent_def)
  obtain dirs derr where d: "EnsureDir (ae_dirs env) (ae_umask env) (ag_DataDir (cf_Agent cfg)) DirMode (w_dirs w) = (dirs, derr)"
    by (cases "EnsureDir (ae_dirs env) (ae_umask env) (ag_DataDir (cf_Agent cfg)) DirMode (w_dirs w)")
  obtain a1 w1' oerr where o: "openStorage env (note_log LevelDebug ''data directory ready'' ?a) (w\<lparr>w_dirs := dirs\<rparr>) = (a1, w1', oerr)"
    by (cases "openStorage env (note_log LevelDebug ''data directory ready'' ?a) (w\<lparr>w_dirs := dirs\<rparr>)")
  obtain a2 w2 lerr where l: "recordLiveness env a1 w1' = (a2, w2, lerr)" by (cases "recordLiveness env a1 w1'")
  have n: "validateEnvironment env ?a = None" "derr = None" "oerr = None" "lerr = None" "w1 = w2"
    using assms d o l by (auto simp: Run_start_def Let_def split: if_splits option.splits prod.splits)
  note lc = recordLiveness_cases [OF l] and oc = openStorage_cases [OF o]
  show "Validate cfg = None" "IsSupportedOS (ae_host env)" "PIDFile paths \<noteq> []"
    using n(1) by (auto simp: validateEnvironment_def split: if_splits option.splits)
  show "w_pid w1 = Some (show_nat (ae_self env) @ [CHR 0x0A])" using lc n by simp
  have "w_dirs w2 = w_dirs w1'"
    using l by (auto simp: recordLiveness_def split: prod.splits option.splits)
  then show "EnsureDir (ae_dirs env) (ae_umask env) (ag_DataDir (cf_Agent cfg)) DirMode (w_dirs w) = (w_dirs w1, None)"
    using d n oc by simp
  show "\<exists>p h. DatabasePath cfg = Inr p
       \<and> Open_db (ae_open env) \<lparr>op_Path = p, op_BusyTimeout = so_BusyTimeout (cf_Storage cfg), op_ReadOnly = False\<rparr> (w_disk w) = (w_disk w1, Inr h)"
    using o lc n by (auto simp: openStorage_def Let_def split: sum.splits prod.splits)
qed

lemma EnsureDir_done:
  assumes "EnsureDir flt um dir mode fs = (fs', None)"
  shows "dir \<noteq> [] \<and> (\<exists>st. fs' dir = Some st \<and> st_IsDir st \<and> Perm (st_Mode st) = Perm mode)"
  using assms
  by (auto simp: EnsureDir_def MkdirAll_def Stat_def split: if_splits sum.splits option.splits)

lemma world_access_Perm: "Perm m = Perm n \<Longrightarrow> IsWorldAccessible m = IsWorldAccessible n"
  by (simp add: IsWorldAccessible_def)

lemma private_modes: "\<not> IsWorldAccessible DirMode" "\<not> IsWorldAccessible (word_of_nat dbFileMode)"
  by (simp_all add: IsWorldAccessible_def Perm_def DirMode_def dbFileMode_def)

text \<open>
  An inspection whose questions are answered, by the machine an Agent with this process id serves on; the
  temporary name is free and the configuration file, if there is one, is not open to all.
\<close>

definition calm_probe :: "probe \<Rightarrow> nat \<Rightarrow> string \<Rightarrow> string \<Rightarrow> world \<Rightarrow> bool" where
  "calm_probe pr self conf dir w \<longleftrightarrow>
     IsSupportedOS (pr_host pr) \<and> pr_conf pr = None \<and> pr_dir pr = None \<and> pr_temp pr = None
     \<and> pr_remove pr = None \<and> pr_db pr = None \<and> pr_one pr = Inr 1 \<and> pr_version pr = (\<lambda>_. None)
     \<and> oe_dir (pr_open pr) = Inr True \<and> oe_stat (pr_open pr) = None \<and> oe_open (pr_open pr) = None
     \<and> oe_ping (pr_open pr) = None \<and> oe_foreign (pr_open pr) = Inr 1
     \<and> pr_pid pr = (\<lambda>_. None) \<and> sees_agent (pr_kernel pr) self
     \<and> w_dirs w (doctor_temp dir (pr_temp_num pr)) = None
     \<and> (\<forall>st. w_dirs w conf = Some st \<longrightarrow> \<not> IsWorldAccessible (st_Mode st))"

lemma file_of_side [simp]: "file_of (dk\<lparr>dk_side := x\<rparr>) = file_of dk"
  by (simp add: file_of_def)

lemma probe_health_side [simp]: "probe_health pr h (dk\<lparr>dk_side := x\<rparr>) = probe_health pr h dk"
  by (simp add: probe_health_def)

lemma Open_db_read_calm:
  assumes "calm_probe pr self conf dir w" "IsAbs path" "0 < so_BusyTimeout (cf_Storage cfg)"
  shows "open_read pr path cfg w = (w\<lparr>w_disk := (w_disk w)\<lparr>dk_side := oe_side (pr_open pr)\<rparr>,
           w_opened := w_opened w @ [\<lparr>dh_path = path, dh_readOnly = True\<rparr>],
           w_closed := w_closed w @ [\<lparr>dh_path = path, dh_readOnly = True\<rparr>]\<rparr>, Inr \<lparr>dh_path = path, dh_readOnly = True\<rparr>)"
proof -
  let ?o = "\<lparr>op_Path = path, op_BusyTimeout = so_BusyTimeout (cf_Storage cfg), op_ReadOnly = True\<rparr>"
  have "open_checks (pr_open pr) ?o = None" "applyPragmas True (pr_open pr) = None"
    using assms abs_nonempty [OF assms(2)] by (simp_all add: open_checks_def applyPragmas_def calm_probe_def Let_def)
  then have "Open_db (pr_open pr) ?o (w_disk w) =
      ((w_disk w)\<lparr>dk_side := oe_side (pr_open pr)\<rparr>, Inr \<lparr>dh_path = path, dh_readOnly = True\<rparr>)"
    using assms(1) by (simp add: Open_db_def calm_probe_def Let_def)
  then show ?thesis by (simp add: open_read_def)
qed

text \<open>What a started Agent leaves for an inspection to find.\<close>

lemma started_facts:
  assumes start: "Run_start env (New_agent cfg paths) w = (a, w1, Serving)"
    and probe: "calm_probe pr self conf dir w1"
  shows "\<exists>p st. DatabasePath cfg = Inr p \<and> IsAbs p \<and> 0 < so_BusyTimeout (cf_Storage cfg)
    \<and> stat_db None (w_disk w1) = Inr (word_of_nat dbFileMode)
    \<and> he_Healthy (probe_health pr h (w_disk w1)) \<and> he_SchemaVersion (probe_health pr h (w_disk w1)) = 2
    \<and> ag_DataDir (cf_Agent cfg) \<noteq> [] \<and> w_dirs w1 (ag_DataDir (cf_Agent cfg)) = Some st \<and> st_IsDir st
    \<and> \<not> IsWorldAccessible (st_Mode st)"
proof -
  note s = Run_start_serving [OF start]
  have v: "in_range (100 * Millisecond) (so_BusyTimeout (cf_Storage cfg)) Minute" "is_ok (DatabasePath cfg)"
    "IsAbs (ag_DataDir (cf_Agent cfg))"
    using s(1) by (simp_all add: Validate_None text_problems_Nil range_problems_Nil storage_problems_Nil)
  obtain p hd where p: "DatabasePath cfg = Inr p"
    and o: "Open_db (ae_open env) \<lparr>op_Path = p, op_BusyTimeout = so_BusyTimeout (cf_Storage cfg), op_ReadOnly = False\<rparr> (w_disk w)
        = (w_disk w1, Inr hd)" using s(6) by blast
  have "IsAbs p" using DatabasePath_inside v p by (auto simp: is_ok_iff)
  obtain g where g: "Migrate False (oe_migrate (ae_open env)) (oe_clock (ae_open env)) (file_of (w_disk w)) = (None, g)"
    and d: "w_disk w1 = \<lparr>dk_file = Some g, dk_mode = dbFileMode, dk_side = oe_side (ae_open env)\<rparr>"
    using Open_db_write [OF o] by auto
  have f: "file_of (w_disk w1) = g" using d by (simp add: file_of_def)
  have "CurrentVersion (\<lambda>_. None) g = Inr LatestVersion"
    using Migrate_reaches [OF g] by (intro CurrentVersion_latest [of g "versions_of (file_of (w_disk w))"]) auto
  then have "he_Healthy (probe_health pr h (w_disk w1)) \<and> he_SchemaVersion (probe_health pr h (w_disk w1)) = 2"
    using probe f by (simp add: probe_health_def Check_db_def calm_probe_def Let_def)
  moreover obtain st where "ag_DataDir (cf_Agent cfg) \<noteq> []" "w_dirs w1 (ag_DataDir (cf_Agent cfg)) = Some st" "st_IsDir st"
    "Perm (st_Mode st) = Perm DirMode"
    using EnsureDir_done [OF s(5)] by blast
  moreover have "stat_db None (w_disk w1) = Inr (word_of_nat dbFileMode)" using d by (simp add: stat_db_def)
  moreover have "0 < so_BusyTimeout (cf_Storage cfg)" using v(1) by (simp add: in_range_def time_units)
  ultimately show ?thesis
    using p \<open>IsAbs p\<close> world_access_Perm private_modes(1) by blast
qed

text \<open>The checks one by one.\<close>

lemma checkOS_calm: "IsSupportedOS (pr_host pr) \<Longrightarrow> ck_Status (snd (checkOS pr env w)) \<noteq> StatusFail \<and> fst (checkOS pr env w) = w"
  by (simp add: checkOS_def check_result_def Let_def)

lemma checkArchitecture_calm: "ck_Status (snd (checkArchitecture pr env w)) \<noteq> StatusFail \<and> fst (checkArchitecture pr env w) = w"
  by (simp add: checkArchitecture_def check_result_def)

lemma checkConfiguration_calm:
  "de_ConfigErr env = None \<Longrightarrow> Validate (de_Config env) = None
   \<Longrightarrow> ck_Status (snd (checkConfiguration pr env w)) \<noteq> StatusFail \<and> fst (checkConfiguration pr env w) = w"
  by (auto simp: checkConfiguration_def check_result_def too_open_def Let_def split: prod.splits bool.splits option.splits sum.splits)

lemma checkDataDirectory_calm:
  assumes "calm_probe pr self conf dir w" "inspected_dir env = dir" "dir \<noteq> []" "w_dirs w dir = Some st" "st_IsDir st"
    "\<not> IsWorldAccessible (st_Mode st)"
  shows "checkDataDirectory pr env w = (w, check_result StatusPass dir)"
proof -
  have "writable pr dir (w_dirs w) = (w_dirs w, None)"
    using assms(1) by (auto simp: writable_def calm_probe_def Let_def)
  then show ?thesis
    using assms by (simp add: checkDataDirectory_def Stat_def calm_probe_def Let_def)
qed

lemma checkDatabase_calm:
  assumes "calm_probe pr self conf dir w" "de_ConfigErr env = None" "DatabasePath (de_Config env) = Inr p" "IsAbs p"
    "0 < so_BusyTimeout (cf_Storage (de_Config env))" "stat_db None (w_disk w) = Inr (word_of_nat dbFileMode)"
    "\<And>h. he_Healthy (probe_health pr h (w_disk w)) \<and> he_SchemaVersion (probe_health pr h (w_disk w)) = 2"
  shows "snd (checkDatabase pr env w) = check_result StatusPass ''healthy, schema version 2''"
    and "w_pid (fst (checkDatabase pr env w)) = w_pid w"
proof -
  have two: "Itoa 2 = ''2''" by (simp add: Itoa_def show_nat_eval digit_char_eval)
  have "pr_db pr = None" using assms(1) by (simp add: calm_probe_def)
  note r = Open_db_read_calm [OF assms(1,4,5)] this
  show "snd (checkDatabase pr env w) = check_result StatusPass ''healthy, schema version 2''"
    "w_pid (fst (checkDatabase pr env w)) = w_pid w"
    using assms r private_modes(2) by (simp_all add: checkDatabase_def Let_def two)
qed

lemma checkLogging_calm:
  assumes "de_ConfigErr env = None" "Validate (de_Config env) = None"
  shows "ck_Status (snd (checkLogging pr env w)) = StatusPass" "fst (checkLogging pr env w) = w"
proof -
  let ?lc = "cf_Logging (de_Config env)"
  obtain l f where p: "ParseLevel (lo_Level ?lc) = Inr l" "ParseFormat (lo_Format ?lc) = Inr f"
    using assms(2) by (auto simp: Validate_None text_problems_Nil is_ok_iff)
  have "ParseFormat (Format_text FormatText) = Inr FormatText" "ParseFormat (Format_text FormatJSON) = Inr FormatJSON"
    by code_simp+
  then have "ParseFormat (Format_text f) = Inr f" by (cases f) simp_all
  with p have "is_ok (New_logger True (lo_Level ?lc) (Format_text f))" by (simp add: New_logger_def)
  with p assms(1) show "ck_Status (snd (checkLogging pr env w)) = StatusPass" "fst (checkLogging pr env w) = w"
    by (auto simp: checkLogging_def check_result_def Let_def is_ok_iff)
qed

lemma checkAgent_live:
  assumes "sees_agent (pr_kernel pr) self" "pr_pid pr = (\<lambda>_. None)" "0 < self" "int self \<le> max_int64"
    "PIDFile (de_Paths env) \<noteq> []" "w_pid w = Some (show_nat self @ [CHR 0x0A])"
  shows "checkAgent pr env w = (w, check_result StatusPass (''running, PID '' @ show_nat self))"
  using assms CheckProcess_live [of "pr_kernel pr" self]
  by (simp add: checkAgent_def AgentBinaryName_def Itoa_def)

lemma Diagnose_started:
  assumes "Run_start env (New_agent cfg paths) w = (a, w1, Serving)" "0 < ae_self env" "int (ae_self env) \<le> max_int64"
    "calm_probe pr (ae_self env) (ConfigFile paths) (ag_DataDir (cf_Agent cfg)) w1"
  shows "\<exists>w2 rs os arch conf. Diagnose pr \<lparr>de_Config = cfg, de_Paths = paths, de_ConfigErr = None\<rparr> w1 = (w2, rs)
    \<and> map ck_Status rs = [os, arch, conf, StatusPass, StatusPass, StatusPass, StatusPass]
    \<and> StatusFail \<notin> {os, arch, conf} \<and> ck_Message (last rs) = ''running, PID '' @ show_nat (ae_self env)"
proof -
  let ?env = "\<lparr>de_Config = cfg, de_Paths = paths, de_ConfigErr = None\<rparr>"
  note s = Run_start_serving [OF assms(1)]
  obtain p st where f: "DatabasePath cfg = Inr p" "IsAbs p" "0 < so_BusyTimeout (cf_Storage cfg)"
    "stat_db None (w_disk w1) = Inr (word_of_nat dbFileMode)" "ag_DataDir (cf_Agent cfg) \<noteq> []"
    "w_dirs w1 (ag_DataDir (cf_Agent cfg)) = Some st" "st_IsDir st" "\<not> IsWorldAccessible (st_Mode st)"
    and h: "\<And>h. he_Healthy (probe_health pr h (w_disk w1)) \<and> he_SchemaVersion (probe_health pr h (w_disk w1)) = 2"
    using started_facts [OF assms(1,4)] by metis
  have pr: "IsSupportedOS (pr_host pr)" "sees_agent (pr_kernel pr) (ae_self env)" "pr_pid pr = (\<lambda>_. None)"
    using assms(4) by (simp_all add: calm_probe_def)
  have in_dir: "inspected_dir ?env = ag_DataDir (cf_Agent cfg)" using f(5) by (simp add: inspected_dir_def)
  have d: "checkDataDirectory pr ?env w1 = (w1, check_result StatusPass (ag_DataDir (cf_Agent cfg)))"
    by (rule checkDataDirectory_calm [OF assms(4) in_dir f(5-8)])
  obtain w2 where b: "checkDatabase pr ?env w1 = (w2, check_result StatusPass ''healthy, schema version 2'')" "w_pid w2 = w_pid w1"
    using checkDatabase_calm [OF assms(4), of ?env p] f(1-4) h by (metis diag_env.select_convs(1,3) prod.collapse)
  obtain rc where c: "checkConfiguration pr ?env w1 = (w1, rc)" "ck_Status rc \<noteq> StatusFail"
    using checkConfiguration_calm [of ?env pr w1] s(1) by (metis diag_env.select_convs(1,3) prod.collapse)
  obtain ro ra where o: "checkOS pr ?env w1 = (w1, ro)" "ck_Status ro \<noteq> StatusFail"
      "checkArchitecture pr ?env w1 = (w1, ra)" "ck_Status ra \<noteq> StatusFail"
    using checkOS_calm [OF pr(1), of ?env w1] checkArchitecture_calm [of pr ?env w1] by (metis prod.collapse)
  obtain rl where l: "checkLogging pr ?env w2 = (w2, rl)" "ck_Status rl = StatusPass"
    using checkLogging_calm [of ?env pr w2] s(1) by (metis diag_env.select_convs(1,3) prod.collapse)
  have g: "checkAgent pr ?env w2 = (w2, check_result StatusPass (''running, PID '' @ show_nat (ae_self env)))"
    using checkAgent_live [OF pr(2,3) assms(2,3), of ?env w2] s(3,4) b(2) by simp
  have "Diagnose pr ?env w1 = (w2, snd (Diagnose pr ?env w1))"
    unfolding Diagnose_def Checks_def by (simp add: o c d b l g)
  moreover have "map ck_Status (snd (Diagnose pr ?env w1)) =
      [ck_Status ro, ck_Status ra, ck_Status rc, StatusPass, StatusPass, StatusPass, StatusPass]"
    "ck_Message (last (snd (Diagnose pr ?env w1))) = ''running, PID '' @ show_nat (ae_self env)"
    unfolding Diagnose_def Checks_def using l(2) by (simp_all add: o c d b l g check_result_def)
  moreover have "StatusFail \<notin> {ck_Status ro, ck_Status ra, ck_Status rc}" using o c by auto
  ultimately show ?thesis by (intro exI conjI)
qed

lemma CollectStatus_started:
  assumes "Run_start env (New_agent cfg paths) w = (a, w1, Serving)" "0 < ae_self env" "int (ae_self env) \<le> max_int64"
    "calm_probe pr (ae_self env) (ConfigFile paths) (ag_DataDir (cf_Agent cfg)) w1"
  shows "\<exists>w3 st. CollectStatus pr cfg paths None w1 = (w3, st) \<and> as_State (su_Agent st) = ProcessRunning
    \<and> as_PID (su_Agent st) = int (ae_self env) \<and> sg_Healthy (su_Storage st) \<and> sg_SchemaVersion (su_Storage st) = LatestVersion"
proof -
  note s = Run_start_serving [OF assms(1)]
  obtain p where f: "DatabasePath cfg = Inr p" "IsAbs p" "0 < so_BusyTimeout (cf_Storage cfg)"
    and h: "\<And>h. he_Healthy (probe_health pr h (w_disk w1)) \<and> he_SchemaVersion (probe_health pr h (w_disk w1)) = 2"
    using started_facts [OF assms(1,4)] by metis
  have "sees_agent (pr_kernel pr) (ae_self env)" "pr_pid pr = (\<lambda>_. None)" using assms(4) by (simp_all add: calm_probe_def)
  then show ?thesis
    using Open_db_read_calm [OF assms(4) f(2,3)] f(1) h s(3,4) CheckProcess_live [of "pr_kernel pr" "ae_self env"] assms(2,3)
    by (simp add: CollectStatus_def collectStorage_def collectAgent_def AgentBinaryName_def Let_def)
qed

section \<open>Properties\<close>

text \<open>
  C28. Inspecting is reading: any sequence of \<open>doctor\<close> and \<open>status\<close> runs, whatever fails, leaves what the database
  file holds and its mode, the PID file and every existing directory entry as they were and closes each handle it
  opens. Besides SQLite's own sidecar files beside the database, which a read-only connection may leave or remove
  too, nothing is left behind unless a temporary file of \<open>doctor\<close> cannot be removed; and the sidecars are as
  they were or as a connection of one of the runs left them.
\<close>

theorem inspections_change_nothing:
  shows "dk_file (w_disk (fold inspect is w)) = dk_file (w_disk w) \<and> dk_mode (w_disk (fold inspect is w)) = dk_mode (w_disk w)
    \<and> w_pid (fold inspect is w) = w_pid w \<and> balanced w (fold inspect is w)
    \<and> w_dirs w \<subseteq>\<^sub>m w_dirs (fold inspect is w)
    \<and> (list_all (\<lambda>i. \<not> leaves_temp i) is \<longrightarrow> w_dirs (fold inspect is w) = w_dirs w)
    \<and> dk_side (w_disk (fold inspect is w)) \<in> insert (dk_side (w_disk w)) ((\<lambda>i. oe_side (pr_open (probe_of i))) ` set is)"
  using inspecting.run_before [of w "is"] inspections_keep_dirs inspections_sidecars by (auto simp: looked_def same_file_def)

definition toy_probe :: probe where
  "toy_probe =
     \<lparr>pr_host = ae_host toy_agent_env, pr_conf = None, pr_conf_again = None, pr_dir = None, pr_temp = None, pr_temp_num = 7,
      pr_remove = None, pr_db = None, pr_open = toy_open_env (\<lambda>_. None), pr_one = Inr 1, pr_version = (\<lambda>_. None),
      pr_size = Inr 4096, pr_close = None, pr_kernel = toy_kernel, pr_pid = (\<lambda>_. None)\<rparr>"

definition toy_diag :: diag_env where
  "toy_diag = \<lparr>de_Config = Default toy_paths_t, de_Paths = toy_paths_t, de_ConfigErr = None\<rparr>"

theorem inspections_change_nothing_witness:
  "w_dirs (fold inspect [RunDoctor toy_probe toy_diag, RunStatus toy_probe (Default toy_paths_t) toy_paths_t None] toy_world)
     = w_dirs toy_world"
  using inspections_change_nothing
    [of "[RunDoctor toy_probe toy_diag, RunStatus toy_probe (Default toy_paths_t) toy_paths_t None]" toy_world]
  by (simp add: toy_probe_def)

text \<open>
  A status of a write-ahead-log database, opened read-only, leaves the sidecar files SQLite made for the connection,
  although the comments of \<open>Open\<close> and \<open>Options\<close> have it touch nothing.
\<close>

lemma status_leaves_sidecars:
  assumes "pr_open pr = (toy_open_env (\<lambda>_. None))\<lparr>oe_side := [WalFile, ShmFile]\<rparr>" "Validate cfg = None"
  shows "dk_side (w_disk (fst (CollectStatus pr cfg paths None w))) = [WalFile, ShmFile]"
proof -
  have v: "in_range (100 * Millisecond) (so_BusyTimeout (cf_Storage cfg)) Minute" "is_ok (DatabasePath cfg)"
    "IsAbs (ag_DataDir (cf_Agent cfg))"
    using assms(2) by (simp_all add: Validate_None text_problems_Nil range_problems_Nil storage_problems_Nil)
  then obtain p where p: "DatabasePath cfg = Inr p" by (auto simp: is_ok_iff)
  then have "IsAbs p" "0 < so_BusyTimeout (cf_Storage cfg)"
    using v DatabasePath_inside by (auto simp: in_range_def time_units)
  with p abs_nonempty show ?thesis
    by (simp add: CollectStatus_def collectStorage_def open_read_def Open_db_def open_checks_def applyPragmas_def
        assms(1) toy_open_env_def Let_def)
qed

text \<open>
  C29. The verdict of a report: it has one result for each check, in order and by name; the exit code is 0 exactly
  when no check failed, warnings or not; and its worst status is one no result exceeds.
\<close>

theorem doctor_verdict:
  assumes "Diagnose pr env w = (w', rs)"
  shows "map ck_Name rs = map fst Checks
    \<and> (Report_ExitCode rs = 0 \<longleftrightarrow> Count StatusFail rs = 0)
    \<and> Count StatusPass rs + Count StatusWarn rs + Count StatusFail rs = 7
    \<and> Worst rs \<in> ck_Status ` set rs \<and> (\<forall>r \<in> set rs. ck_Status r \<le> Worst rs)"
proof -
  have n: "map ck_Name rs = map fst Checks"
    using run_checks_names [of Checks pr env w] assms by (simp add: Diagnose_def)
  then have l: "length rs = 7" by (metis length_map length_Checks)
  then have ne: "rs \<noteq> []" by auto
  then have "Worst rs = Max (ck_Status ` set rs)" by (simp add: Worst_Max max_absorb2 status_Pass_least)
  then have "Worst rs \<in> ck_Status ` set rs" using ne by (simp add: Max_in)
  moreover have "\<forall>r \<in> set rs. ck_Status r \<le> Worst rs" by (simp add: Worst_Max)
  moreover have "Report_ExitCode rs = 0 \<longleftrightarrow> Count StatusFail rs = 0"
    by (simp add: Report_ExitCode_def OK_iff exit_codes)
  ultimately show ?thesis using n l Count_sum [of rs] by simp
qed

theorem doctor_verdict_witness:
  "\<exists>w' rs. Diagnose toy_probe toy_diag toy_world = (w', rs) \<and> map ck_Name rs = map fst Checks \<and> Worst rs \<in> ck_Status ` set rs"
proof -
  obtain w' rs where "Diagnose toy_probe toy_diag toy_world = (w', rs)" by (cases "Diagnose toy_probe toy_diag toy_world")
  with doctor_verdict [OF this] show ?thesis by blast
qed

text \<open>
  C30. After an Agent has started, on a machine that answers, \<open>doctor\<close> finds nothing failed, with the data
  directory, the database, the logging and the Agent passing, and \<open>status\<close> shows the Agent running and
  the database healthy at the newest schema. This holds whatever the state was before the start.
\<close>

theorem doctor_confirms_started_agent:
  assumes "Run_start env (New_agent cfg paths) w = (a, w1, Serving)" "0 < ae_self env" "int (ae_self env) \<le> max_int64"
    "calm_probe pr (ae_self env) (ConfigFile paths) (ag_DataDir (cf_Agent cfg)) w1"
  shows "\<exists>w2 rs w3 st. Diagnose pr \<lparr>de_Config = cfg, de_Paths = paths, de_ConfigErr = None\<rparr> w1 = (w2, rs)
    \<and> Report_ExitCode rs = 0 \<and> map ck_Status (drop 3 rs) = replicate 4 StatusPass
    \<and> ck_Message (last rs) = ''running, PID '' @ show_nat (ae_self env)
    \<and> CollectStatus pr cfg paths None w1 = (w3, st) \<and> as_State (su_Agent st) = ProcessRunning
    \<and> as_PID (su_Agent st) = int (ae_self env) \<and> sg_Healthy (su_Storage st) \<and> sg_SchemaVersion (su_Storage st) = LatestVersion"
proof -
  obtain w2 rs os arch conf where d: "Diagnose pr \<lparr>de_Config = cfg, de_Paths = paths, de_ConfigErr = None\<rparr> w1 = (w2, rs)"
    "map ck_Status rs = [os, arch, conf, StatusPass, StatusPass, StatusPass, StatusPass]"
    "StatusFail \<notin> {os, arch, conf}" "ck_Message (last rs) = ''running, PID '' @ show_nat (ae_self env)"
    using Diagnose_started [OF assms] by (elim exE conjE)
  have "Report_ExitCode rs = 0" using d(2,3) by (simp add: Report_ExitCode_def OK_iff exit_codes Count_zero)
  moreover have "map ck_Status (drop 3 rs) = replicate 4 StatusPass"
    unfolding drop_map [symmetric] d(2) by (simp add: numeral_eq_Suc)
  moreover have "\<exists>w3 st. CollectStatus pr cfg paths None w1 = (w3, st) \<and> as_State (su_Agent st) = ProcessRunning
    \<and> as_PID (su_Agent st) = int (ae_self env) \<and> sg_Healthy (su_Storage st) \<and> sg_SchemaVersion (su_Storage st) = LatestVersion"
    by (rule CollectStatus_started [OF assms])
  ultimately show ?thesis using d by blast
qed

theorem doctor_confirms_started_agent_witness:
  "\<exists>cfg a w1 w2 rs. Run_start toy_agent_env (New_agent cfg toy_paths_t) toy_world = (a, w1, Serving)
     \<and> Diagnose toy_probe \<lparr>de_Config = cfg, de_Paths = toy_paths_t, de_ConfigErr = None\<rparr> w1 = (w2, rs)
     \<and> Report_ExitCode rs = 0"
proof -
  obtain cfg a w1 where s: "Run_start toy_agent_env (New_agent cfg toy_paths_t) toy_world = (a, w1, Serving)"
    using toy_started by blast
  let ?dir = "ag_DataDir (cf_Agent cfg)"
  have "ae_umask toy_agent_env = 0" "ae_dirs toy_agent_env = (\<lambda>_. None)" by (simp_all add: toy_agent_env_def)
  with Run_start_serving(5) [OF s] have "EnsureDir (\<lambda>_. None) 0 ?dir DirMode Map.empty = (w_dirs w1, None)"
    by (simp add: toy_world_def)
  then have d: "w_dirs w1 x = None" if "x \<noteq> ?dir" for x
    using EnsureDir_only_dir [OF that, of "\<lambda>_. None" 0 DirMode Map.empty] by simp
  have "doctor_temp ?dir 7 \<noteq> ?dir" by (simp add: doctor_temp_def)
  moreover obtain st0 where "w_dirs w1 ?dir = Some st0" "Perm (st_Mode st0) = Perm DirMode"
    using EnsureDir_done [OF Run_start_serving(5) [OF s]] by blast
  then have "w_dirs w1 (ConfigFile toy_paths_t) = Some st \<Longrightarrow> \<not> IsWorldAccessible (st_Mode st)" for st
    using d world_access_Perm [of "st_Mode st0" DirMode] private_modes(1) by (cases "ConfigFile toy_paths_t = ?dir") simp_all
  ultimately have calm: "calm_probe toy_probe (ae_self toy_agent_env) (ConfigFile toy_paths_t) ?dir w1"
    using d toy_calm(1)
    by (auto simp: calm_probe_def toy_probe_def toy_open_env_def sees_agent_def toy_kernel_def calm_def)
  have "0 < ae_self toy_agent_env" "int (ae_self toy_agent_env) \<le> max_int64"
    by (simp_all add: toy_agent_env_def max_int64_def)
  from doctor_confirms_started_agent [OF s this calm] obtain w2 rs where
    "Diagnose toy_probe \<lparr>de_Config = cfg, de_Paths = toy_paths_t, de_ConfigErr = None\<rparr> w1 = (w2, rs)" "Report_ExitCode rs = 0"
    by (elim exE conjE)
  with s show ?thesis by (intro exI conjI)
qed

end
