(* ===== verification/Web_Manager.thy ===== *)
theory Web_Manager
  imports Errors
begin

text \<open>
  \<open>internal/web/manager.go\<close> and \<open>internal/firewall/firewall.go\<close>: the panel's service unit driven through
  \<open>systemctl\<close>, and the detection of a firewall. A command run is the runner's answer to a command line:
  its output and whether it failed; the calls made are recorded in order.
\<close>

section \<open>The service unit\<close>

type_synonym command = "string list"
type_synonym runner = "command \<Rightarrow> string \<times> go_error option"

definition web_unit :: string where "web_unit = ''infrapilot-web.service''"

definition manager_action :: "runner \<Rightarrow> string \<Rightarrow> command list \<Rightarrow> command list \<times> go_error option" where
  "manager_action run a log =
     (let cmd = [''systemctl'', a, web_unit] in
      (log @ [cmd],
       case snd (run cmd) of None \<Rightarrow> None
       | Some _ \<Rightarrow> Some (New KindPermission ''web.Manager'' (''failed to '' @ a @ '' web service''))))"

definition Start_web :: "runner \<Rightarrow> command list \<Rightarrow> command list \<times> go_error option" where
  "Start_web run = manager_action run ''start''"
definition Stop_web :: "runner \<Rightarrow> command list \<Rightarrow> command list \<times> go_error option" where
  "Stop_web run = manager_action run ''stop''"
definition Restart_web :: "runner \<Rightarrow> command list \<Rightarrow> command list \<times> go_error option" where
  "Restart_web run = manager_action run ''restart''"
definition Enable_web :: "runner \<Rightarrow> command list \<Rightarrow> command list \<times> go_error option" where
  "Enable_web run = manager_action run ''enable''"
definition Disable_web :: "runner \<Rightarrow> command list \<Rightarrow> command list \<times> go_error option" where
  "Disable_web run = manager_action run ''disable''"

definition Status_web :: "runner \<Rightarrow> command list \<Rightarrow> command list \<times> string \<times> go_error option" where
  "Status_web run log =
     (let cmd = [''systemctl'', ''is-active'', web_unit] in (log @ [cmd], run cmd))"

definition Logs_web :: "runner \<Rightarrow> command list \<Rightarrow> command list \<times> string \<times> go_error option" where
  "Logs_web run log =
     (let cmd = [''journalctl'', ''-u'', web_unit, ''-n'', ''100'', ''--no-pager''] in (log @ [cmd], run cmd))"

section \<open>Firewall\<close>

record fw_info =
  fw_Detected :: string
  fw_Port :: int
  fw_Status :: string

definition fw_status :: "string \<Rightarrow> string" where
  "fw_status v =
     (let s = ToLower (TrimSpace v) in
      if Contains s ''active'' \<or> Contains s ''running'' then ''active''
      else if Contains s ''inactive'' \<or> Contains s ''not running'' then ''blocked''
      else ''unknown'')"

text \<open>\<open>look_path\<close> says which programs are on the path; an error of the run itself is ignored.\<close>

definition DetectWith :: "(string \<Rightarrow> bool) \<Rightarrow> runner \<Rightarrow> int \<Rightarrow> fw_info" where
  "DetectWith look_path run port =
     (if look_path ''ufw''
      then \<lparr>fw_Detected = ''ufw'', fw_Port = port, fw_Status = fw_status (fst (run [''ufw'', ''status'']))\<rparr>
      else if look_path ''firewall-cmd''
      then \<lparr>fw_Detected = ''firewalld'', fw_Port = port, fw_Status = fw_status (fst (run [''firewall-cmd'', ''--state'']))\<rparr>
      else \<lparr>fw_Detected = [], fw_Port = port, fw_Status = ''unknown''\<rparr>)"

section \<open>Lemmas\<close>

lemma Contains_inactive: "Contains s ''inactive'' \<Longrightarrow> Contains s ''active''"
  by (rule Contains_trans, assumption, code_simp)

lemma Contains_not_running: "Contains s ''not running'' \<Longrightarrow> Contains s ''running''"
  by (rule Contains_trans, assumption, code_simp)

section \<open>Properties\<close>

text \<open>
  No firewall is ever found blocked: whatever the tools print, the status is \<open>active\<close> or \<open>unknown\<close>,
  because \<open>inactive\<close> contains \<open>active\<close> and \<open>not running\<close> contains \<open>running\<close>.
\<close>

theorem firewall_never_blocked: "fw_Status (DetectWith look_path run port) \<in> {''active'', ''unknown''}"
  using Contains_inactive Contains_not_running by (auto simp: DetectWith_def fw_status_def Let_def)
end
