(* ===== verification/Services.thy ===== *)
theory Services
  imports Web_Manager Paths "HOL-Library.Word" "HOL-Library.List_Lexorder" "HOL-Library.Char_ord"
    "HOL-Library.Multiset"
begin

text \<open>
  \<open>internal/service/service.go\<close> and \<open>internal/service/systemd/systemd.go\<close>: the service manager, the
  interface of its backends, and the backend that drives \<open>systemctl\<close> and \<open>journalctl\<close>. The machine the
  commands run on is a state of any type: a runner answers a command with the state after it, what it
  printed, and whether it failed.
\<close>

section \<open>Services and names\<close>

datatype State = StateRunning | StateStopped | StateFailed | StateUnknown

fun State_text :: "State \<Rightarrow> string" where
  "State_text StateRunning = ''running''"
| "State_text StateStopped = ''stopped''"
| "State_text StateFailed = ''failed''"
| "State_text StateUnknown = ''unknown''"

text \<open>\<open>NotListed\<close> is the empty text, which a map lookup gives for a unit without a unit file.\<close>

datatype Enablement = UnitEnabled | UnitDisabled | UnitStatic | UnitUnknown | NotListed

fun Enablement_text :: "Enablement \<Rightarrow> string" where
  "Enablement_text UnitEnabled = ''enabled''"
| "Enablement_text UnitDisabled = ''disabled''"
| "Enablement_text UnitStatic = ''static''"
| "Enablement_text UnitUnknown = ''unknown''"
| "Enablement_text NotListed = []"

record service =
  se_Name :: string
  se_Description :: string
  se_State :: State
  se_Enablement :: Enablement
  se_PID :: int
  se_StartedAt :: string
  se_MemoryBytes :: "64 word"

text \<open>The pattern \<open>^[A-Za-z0-9][A-Za-z0-9_.@-]{0,254}$\<close>.\<close>

definition name_char :: "char \<Rightarrow> bool" where
  "name_char c \<longleftrightarrow> is_alnum c \<or> c \<in> {CHR ''_'', CHR ''.'', CHR ''@'', CHR ''-''}"

definition validName :: "string \<Rightarrow> bool" where
  "validName s = (case s of [] \<Rightarrow> False | c # r \<Rightarrow> is_alnum c \<and> length r \<le> 254 \<and> list_all name_char r)"

definition NormalizeName :: "string \<Rightarrow> go_error + string" where
  "NormalizeName name =
     (if \<not> validName name \<or> Contains name ''..''
      then Inl (New KindValidation ''service.NormalizeName'' (''invalid service name '' @ Quote name))
      else Inr (if HasSuffix name ''.service'' then name else name @ ''.service''))"

section \<open>The manager\<close>

record 'm Backend =
  be_List :: "'m \<Rightarrow> 'm \<times> (go_error + service list)"
  be_Status :: "string \<Rightarrow> 'm \<Rightarrow> 'm \<times> (go_error + service)"
  be_Start :: "string \<Rightarrow> 'm \<Rightarrow> 'm \<times> go_error option"
  be_Stop :: "string \<Rightarrow> 'm \<Rightarrow> 'm \<times> go_error option"
  be_Restart :: "string \<Rightarrow> 'm \<Rightarrow> 'm \<times> go_error option"
  be_Enable :: "string \<Rightarrow> 'm \<Rightarrow> 'm \<times> go_error option"
  be_Disable :: "string \<Rightarrow> 'm \<Rightarrow> 'm \<times> go_error option"
  be_Logs :: "string \<Rightarrow> int \<Rightarrow> 'm \<Rightarrow> 'm \<times> (go_error + string)"

definition Manager_List :: "'m Backend \<Rightarrow> 'm \<Rightarrow> 'm \<times> (go_error + service list)" where
  "Manager_List B m = be_List B m"

definition Manager_Status :: "'m Backend \<Rightarrow> string \<Rightarrow> 'm \<Rightarrow> 'm \<times> (go_error + service)" where
  "Manager_Status B name m =
     (case NormalizeName name of Inl e \<Rightarrow> (m, Inl e) | Inr u \<Rightarrow> be_Status B u m)"

definition service_action ::
  "string \<Rightarrow> string \<Rightarrow> (string \<Rightarrow> 'm \<Rightarrow> 'm \<times> go_error option) \<Rightarrow> 'm \<Rightarrow> 'm \<times> go_error option" where
  "service_action a name f m =
     (case NormalizeName name of Inl e \<Rightarrow> (m, Some e)
      | Inr u \<Rightarrow>
          (case f u m of
             (m', None) \<Rightarrow> (m', None)
           | (m', Some e) \<Rightarrow>
               (m', Some (wrap_err (KindOf (Some e)) (''service.Manager.'' @ a)
                            (''failed to '' @ a @ '' service '' @ Quote name) e))))"

definition Manager_Start :: "'m Backend \<Rightarrow> string \<Rightarrow> 'm \<Rightarrow> 'm \<times> go_error option" where
  "Manager_Start B name = service_action ''start'' name (be_Start B)"
definition Manager_Stop :: "'m Backend \<Rightarrow> string \<Rightarrow> 'm \<Rightarrow> 'm \<times> go_error option" where
  "Manager_Stop B name = service_action ''stop'' name (be_Stop B)"
definition Manager_Restart :: "'m Backend \<Rightarrow> string \<Rightarrow> 'm \<Rightarrow> 'm \<times> go_error option" where
  "Manager_Restart B name = service_action ''restart'' name (be_Restart B)"
definition Manager_Enable :: "'m Backend \<Rightarrow> string \<Rightarrow> 'm \<Rightarrow> 'm \<times> go_error option" where
  "Manager_Enable B name = service_action ''enable'' name (be_Enable B)"
definition Manager_Disable :: "'m Backend \<Rightarrow> string \<Rightarrow> 'm \<Rightarrow> 'm \<times> go_error option" where
  "Manager_Disable B name = service_action ''disable'' name (be_Disable B)"

definition Manager_Logs :: "'m Backend \<Rightarrow> string \<Rightarrow> int \<Rightarrow> 'm \<Rightarrow> 'm \<times> (go_error + string)" where
  "Manager_Logs B name lines m =
     (case NormalizeName name of Inl e \<Rightarrow> (m, Inl e)
      | Inr u \<Rightarrow>
          if lines < 1 \<or> lines > 10000
          then (m, Inl (New KindValidation ''service.Manager.Logs'' ''log lines must be between 1 and 10000''))
          else be_Logs B u lines m)"

section \<open>The systemd backend\<close>

datatype run_failure = ErrNotFound | CommandFailed

type_synonym 'm unit_runner = "command \<Rightarrow> 'm \<Rightarrow> 'm \<times> string \<times> run_failure option"

text \<open>The kind and message of a failed command, from what it printed.\<close>

definition classify_failure :: "string \<Rightarrow> run_failure \<Rightarrow> string \<Rightarrow> go_error" where
  "classify_failure program f out =
     (let msg = TrimSpace out; lower = ToLower msg;
          km = (if f = ErrNotFound \<or> Contains lower ''system has not been booted with systemd''
                  \<or> Contains lower ''failed to connect to bus''
                then (KindUnsupported, ''systemd is unavailable'')
                else if Contains lower ''access denied'' \<or> Contains lower ''permission denied''
                  \<or> Contains lower ''authentication is required'' \<or> Contains lower ''interactive authentication required''
                then (KindPermission, ''permission denied; run this operation with appropriate privileges'')
                else if Contains lower ''not found'' \<or> Contains lower ''could not be found'' \<or> Contains lower ''not loaded''
                then (KindNotFound, ''service was not found'')
                else (KindUnknown, msg))
      in New (fst km) ''systemd.run'' (if snd km = [] then program @ '' command failed'' else snd km))"

definition run_unit_command :: "'m unit_runner \<Rightarrow> command \<Rightarrow> 'm \<Rightarrow> 'm \<times> (go_error + string)" where
  "run_unit_command rn cmd m =
     (case rn cmd m of
        (m', out, None) \<Rightarrow> (m', Inr out)
      | (m', out, Some f) \<Rightarrow> (m', Inl (classify_failure (hd cmd) f out)))"

definition unit_state :: "string \<Rightarrow> State" where
  "unit_state v =
     (if v \<in> {''active'', ''reloading''} then StateRunning
      else if v \<in> {''inactive'', ''deactivating''} then StateStopped
      else if v = ''failed'' then StateFailed
      else StateUnknown)"

definition enablement :: "string \<Rightarrow> Enablement" where
  "enablement v =
     (if v \<in> {''enabled'', ''enabled-runtime'', ''linked'', ''linked-runtime'', ''alias''} then UnitEnabled
      else if v \<in> {''disabled'', ''masked'', ''masked-runtime''} then UnitDisabled
      else if v \<in> {''static'', ''indirect'', ''generated'', ''transient''} then UnitStatic
      else UnitUnknown)"

text \<open>Go's maps keep the last value assigned to a key.\<close>

definition enablement_table :: "string \<Rightarrow> string \<Rightarrow> Enablement" where
  "enablement_table files u =
     (case map_of (rev [(fs ! 0, enablement (fs ! 1)). fs \<leftarrow> map Fields (Split files CHR 0x0A), 2 \<le> length fs]) u of
        None \<Rightarrow> NotListed | Some e \<Rightarrow> e)"

definition listed_service :: "(string \<Rightarrow> Enablement) \<Rightarrow> string list \<Rightarrow> service" where
  "listed_service enabled fs =
     \<lparr>se_Name = TrimSuffix (fs ! 0) ''.service'', se_Description = Join (drop 4 fs) '' '', se_State = unit_state (fs ! 2),
      se_Enablement = enabled (fs ! 0), se_PID = 0, se_StartedAt = [], se_MemoryBytes = 0\<rparr>"

definition service_line :: "string list \<Rightarrow> bool" where
  "service_line fs \<longleftrightarrow> 4 \<le> length fs \<and> HasSuffix (fs ! 0) ''.service''"

definition list_units_cmd :: command where
  "list_units_cmd = [''systemctl'', ''list-units'', ''--type=service'', ''--all'', ''--no-legend'', ''--plain'', ''--no-pager'']"

definition list_files_cmd :: command where
  "list_files_cmd = [''systemctl'', ''list-unit-files'', ''--type=service'', ''--no-legend'', ''--no-pager'']"

definition Adapter_List :: "'m unit_runner \<Rightarrow> 'm \<Rightarrow> 'm \<times> (go_error + service list)" where
  "Adapter_List rn m =
     (case run_unit_command rn list_units_cmd m of
        (m1, Inl e) \<Rightarrow> (m1, Inl e)
      | (m1, Inr units) \<Rightarrow>
          (case run_unit_command rn list_files_cmd m1 of
             (m2, Inl e) \<Rightarrow> (m2, Inl e)
           | (m2, Inr files) \<Rightarrow>
               (m2, Inr (sort_key se_Name
                 (map (listed_service (enablement_table files)) (filter service_line (map Fields (Split units CHR 0x0A))))))))"

text \<open>
  Numbers as \<open>strconv\<close> returns them beside an ignored error: zero for what is not a number, the nearest bound
  as soon as the digits read so far are out of range.
\<close>

fun scan_uint :: "nat \<Rightarrow> nat \<Rightarrow> string \<Rightarrow> nat" where
  "scan_uint bound acc [] = acc"
| "scan_uint bound acc (c # s) =
     (if \<not> is_digit c then 0
      else if bound < 10 * acc + digit_val c then bound
      else scan_uint bound (10 * acc + digit_val c) s)"

definition ParseUint_value :: "string \<Rightarrow> nat" where
  "ParseUint_value s = scan_uint 18446744073709551615 0 s"

definition Atoi_value :: "string \<Rightarrow> int" where
  "Atoi_value s =
     (let neg = (case s of c # _ \<Rightarrow> c = CHR ''-'' | [] \<Rightarrow> False);
          body = (case s of c # r \<Rightarrow> if c = CHR ''-'' \<or> c = CHR ''+'' then r else s | [] \<Rightarrow> s);
          n = int (ParseUint_value body)
      in if neg then max min_int64 (- n) else min max_int64 n)"

text \<open>\<open>systemctl show\<close> prints one property per line; a missing one reads as the empty text.\<close>

definition show_properties :: "string \<Rightarrow> string \<Rightarrow> string" where
  "show_properties out key =
     (case map_of (rev (List.map_filter (\<lambda>line. Cut line CHR ''='') (Split out CHR 0x0A))) key of None \<Rightarrow> [] | Some v \<Rightarrow> v)"

definition show_service :: "(string \<Rightarrow> string) \<Rightarrow> service" where
  "show_service values =
     \<lparr>se_Name = TrimSuffix (values ''Id'') ''.service'', se_Description = values ''Description'',
      se_State = unit_state (values ''ActiveState''), se_Enablement = enablement (values ''UnitFileState''),
      se_PID = Atoi_value (values ''MainPID''), se_StartedAt = values ''ActiveEnterTimestamp'',
      se_MemoryBytes = word_of_nat (ParseUint_value (values ''MemoryCurrent''))\<rparr>"

definition show_cmd :: "string \<Rightarrow> command" where
  "show_cmd u =
     [''systemctl'', ''show'', u, ''--no-pager'',
      ''--property=Id,Description,LoadState,ActiveState,UnitFileState,MainPID,ActiveEnterTimestamp,MemoryCurrent'']"

definition Adapter_Status :: "'m unit_runner \<Rightarrow> string \<Rightarrow> 'm \<Rightarrow> 'm \<times> (go_error + service)" where
  "Adapter_Status rn u m =
     (case run_unit_command rn (show_cmd u) m of
        (m', Inl e) \<Rightarrow> (m', Inl e)
      | (m', Inr out) \<Rightarrow>
          (m', let values = show_properties out in
               if values ''LoadState'' = ''not-found'' \<or> values ''Id'' = []
               then Inl (New KindNotFound ''systemd.Status'' (''service '' @ Quote (TrimSuffix u ''.service'') @ '' was not found''))
               else Inr (show_service values)))"

definition unit_cmd :: "string \<Rightarrow> string \<Rightarrow> command" where
  "unit_cmd verb u = [''systemctl'', verb, ''--'', u]"

definition adapter_verb :: "'m unit_runner \<Rightarrow> string \<Rightarrow> string \<Rightarrow> 'm \<Rightarrow> 'm \<times> go_error option" where
  "adapter_verb rn verb u m =
     (case run_unit_command rn (unit_cmd verb u) m of (m', Inl e) \<Rightarrow> (m', Some e) | (m', Inr _) \<Rightarrow> (m', None))"

definition logs_cmd :: "string \<Rightarrow> int \<Rightarrow> command" where
  "logs_cmd u lines = [''journalctl'', ''--unit'', u, ''--lines'', Itoa lines, ''--no-pager'']"

definition Adapter_Logs :: "'m unit_runner \<Rightarrow> string \<Rightarrow> int \<Rightarrow> 'm \<Rightarrow> 'm \<times> (go_error + string)" where
  "Adapter_Logs rn u lines = run_unit_command rn (logs_cmd u lines)"

definition Adapter :: "'m unit_runner \<Rightarrow> 'm Backend" where
  "Adapter rn =
     \<lparr>be_List = Adapter_List rn, be_Status = Adapter_Status rn,
      be_Start = adapter_verb rn ''start'', be_Stop = adapter_verb rn ''stop'', be_Restart = adapter_verb rn ''restart'',
      be_Enable = adapter_verb rn ''enable'', be_Disable = adapter_verb rn ''disable'', be_Logs = Adapter_Logs rn\<rparr>"

section \<open>What a backend promises the manager\<close>

definition unit_name :: "string \<Rightarrow> bool" where
  "unit_name u \<longleftrightarrow> u \<noteq> [] \<and> is_alnum (hd u) \<and> list_all name_char u
     \<and> HasSuffix u ''.service'' \<and> length u \<le> 263"

text \<open>The calls a client makes, by their effect on the machine.\<close>

datatype service_call =
    ListAll | StatusOf string | StartIt string | StopIt string | RestartIt string | EnableIt string | DisableIt string
  | LogsOf string int

fun manager_op :: "'m Backend \<Rightarrow> service_call \<Rightarrow> 'm \<Rightarrow> 'm" where
  "manager_op B ListAll m = fst (Manager_List B m)"
| "manager_op B (StatusOf name) m = fst (Manager_Status B name m)"
| "manager_op B (StartIt name) m = fst (Manager_Start B name m)"
| "manager_op B (StopIt name) m = fst (Manager_Stop B name m)"
| "manager_op B (RestartIt name) m = fst (Manager_Restart B name m)"
| "manager_op B (EnableIt name) m = fst (Manager_Enable B name m)"
| "manager_op B (DisableIt name) m = fst (Manager_Disable B name m)"
| "manager_op B (LogsOf name n) m = fst (Manager_Logs B name n m)"

lemma validName_unit: "validName s \<Longrightarrow> s \<noteq> [] \<and> is_alnum (hd s) \<and> list_all name_char s \<and> length s \<le> 255"
  by (auto simp: validName_def name_char_def split: list.splits)

lemma service_suffix_chars: "list_all name_char ''.service''"
  by code_simp

lemma NormalizeName_unit:
  assumes "NormalizeName name = Inr u"
  shows "unit_name u"
proof -
  from assms have "validName name" and u: "u = (if HasSuffix name ''.service'' then name else name @ ''.service'')"
    by (auto simp: NormalizeName_def split: if_splits)
  note v = validName_unit [OF this(1)]
  show ?thesis
  proof (cases "HasSuffix name ''.service''")
    case True
    with u v show ?thesis by (simp add: unit_name_def)
  next
    case False
    have "length (name @ ''.service'') \<le> 263" using v by simp
    moreover have "list_all name_char (name @ ''.service'')" using v service_suffix_chars by (simp only: list_all_append)
    ultimately show ?thesis using False u v by (simp add: unit_name_def)
  qed
qed

text \<open>The check for two dots precedes the suffix, which can make two of one at the end.\<close>

lemma dots_at_the_join: "NormalizeName ''nginx.'' = Inr ''nginx..service''"
  by code_simp

text \<open>
  A backend that is given only well-formed units and bounds reaches only states that the relation
  \<open>steps\<close> allows. The manager then does, whatever a user typed.
\<close>

locale unit_backend =
  fixes B :: "'m Backend" and steps :: "'m \<Rightarrow> 'm \<Rightarrow> bool"
  assumes steps_refl: "steps m m"
    and steps_trans: "steps m m1 \<Longrightarrow> steps m1 m2 \<Longrightarrow> steps m m2"
    and list_steps: "steps m (fst (be_List B m))"
    and status_steps: "unit_name u \<Longrightarrow> steps m (fst (be_Status B u m))"
    and verb_steps: "unit_name u \<Longrightarrow> f \<in> {be_Start B, be_Stop B, be_Restart B, be_Enable B, be_Disable B} \<Longrightarrow> steps m (fst (f u m))"
    and logs_steps: "unit_name u \<Longrightarrow> 1 \<le> n \<Longrightarrow> n \<le> 10000 \<Longrightarrow> steps m (fst (be_Logs B u n m))"
begin

lemma normalized_unit: "NormalizeName name = Inr u \<Longrightarrow> unit_name u"
  by (rule NormalizeName_unit)

lemma action_steps:
  assumes "f \<in> {be_Start B, be_Stop B, be_Restart B, be_Enable B, be_Disable B}"
  shows "steps m (fst (service_action a name f m))"
proof (cases "NormalizeName name")
  case (Inl e)
  then show ?thesis by (simp add: service_action_def steps_refl)
next
  case (Inr u)
  obtain m' r where f: "f u m = (m', r)" by (cases "f u m")
  then have "fst (service_action a name f m) = fst (f u m)"
    using Inr by (cases r) (simp_all add: service_action_def)
  then show ?thesis using verb_steps [OF normalized_unit [OF Inr] assms] by simp
qed

lemma manager_steps: "steps m (manager_op B op m)"
proof (cases op)
  case (StatusOf name)
  then show ?thesis
    by (cases "NormalizeName name") (auto simp: Manager_Status_def steps_refl dest: normalized_unit intro: status_steps)
next
  case (LogsOf name n)
  then show ?thesis
    by (cases "NormalizeName name") (auto simp: Manager_Logs_def steps_refl dest: normalized_unit intro: logs_steps)
qed (simp_all add: Manager_List_def list_steps action_steps Manager_Start_def Manager_Stop_def Manager_Restart_def
       Manager_Enable_def Manager_Disable_def)

end

text \<open>A manager is then a machine whose histories are those steps.\<close>

sublocale unit_backend \<subseteq> calls: history_machine "manager_op B" "\<lambda>_. True" steps
  by unfold_locales (auto intro: steps_refl steps_trans manager_steps)

section \<open>The systemd backend keeps the promise\<close>

text \<open>The states that are reached by running commands with a property.\<close>

inductive runs :: "'m unit_runner \<Rightarrow> (command \<Rightarrow> bool) \<Rightarrow> 'm \<Rightarrow> 'm \<Rightarrow> bool"
  for rn :: "'m unit_runner" and ok :: "command \<Rightarrow> bool" where
  runs_refl: "runs rn ok m m"
| runs_step: "runs rn ok m m1 \<Longrightarrow> ok cmd \<Longrightarrow> rn cmd m1 = (m2, r) \<Longrightarrow> runs rn ok m m2"

lemma runs_trans: "runs rn ok m2 m3 \<Longrightarrow> runs rn ok m1 m2 \<Longrightarrow> runs rn ok m1 m3"
  by (induction rule: runs.induct) (auto intro: runs_step)

lemma runs_command: "ok cmd \<Longrightarrow> runs rn ok m (fst (run_unit_command rn cmd m))"
  by (auto simp: run_unit_command_def split: prod.splits option.splits intro: runs_step [OF runs_refl])

text \<open>
  A safe command runs one of two programs; each argument is a fixed word of the program, a line count, or
  a well-formed unit name, which no option parser can take for an option.
\<close>

definition fixed_words :: "string list" where
  "fixed_words =
     tl list_units_cmd @ tl list_files_cmd @ tl (show_cmd []) @ tl (unit_cmd ''start'' []) @ [''stop'', ''restart'', ''enable'', ''disable'']
     @ tl (logs_cmd [] 1)"

definition safe_argument :: "string \<Rightarrow> bool" where
  "safe_argument a \<longleftrightarrow> a \<in> set fixed_words - {[]} \<or> (\<exists>n. 1 \<le> n \<and> n \<le> 10000 \<and> a = Itoa n)
     \<or> (unit_name a \<and> \<not> HasPrefix a ''-'')"

definition safe_command :: "command \<Rightarrow> bool" where
  "safe_command cmd \<longleftrightarrow> hd cmd \<in> {''systemctl'', ''journalctl''} \<and> list_all safe_argument (tl cmd)"

lemma unit_no_option: "unit_name u \<Longrightarrow> \<not> HasPrefix u ''-''"
  by (cases u) (auto simp: unit_name_def HasPrefix_def is_alnum_def is_digit_def is_upper_def is_lower_def)

lemma safe_words: "a \<in> set fixed_words \<Longrightarrow> a \<noteq> [] \<Longrightarrow> safe_argument a"
  by (simp add: safe_argument_def)

lemma safe_unit: "unit_name u \<Longrightarrow> safe_argument u"
  by (simp add: safe_argument_def unit_no_option)

lemma safe_count: "1 \<le> n \<Longrightarrow> n \<le> 10000 \<Longrightarrow> safe_argument (Itoa n)"
  by (auto simp: safe_argument_def)

lemma fixed_words_safe:
  "list_all safe_argument (tl list_units_cmd)" "list_all safe_argument (tl list_files_cmd)"
  "list_all safe_argument (tl (tl (tl (show_cmd u))))"
  "list_all safe_argument [''show'', ''start'', ''stop'', ''restart'', ''enable'', ''disable'', ''--'', ''--unit'', ''--lines'', ''--no-pager'']"
proof -
  have "list_all (\<lambda>a. a \<in> set fixed_words \<and> a \<noteq> []) (tl list_units_cmd @ tl list_files_cmd @ tl (tl (tl (show_cmd [])))
     @ [''show'', ''start'', ''stop'', ''restart'', ''enable'', ''disable'', ''--'', ''--unit'', ''--lines'', ''--no-pager''])"
    by code_simp
  moreover have "tl (tl (tl (show_cmd u))) = tl (tl (tl (show_cmd [])))" by (simp add: show_cmd_def)
  ultimately show
    "list_all safe_argument (tl list_units_cmd)" "list_all safe_argument (tl list_files_cmd)"
    "list_all safe_argument (tl (tl (tl (show_cmd u))))"
    "list_all safe_argument [''show'', ''start'', ''stop'', ''restart'', ''enable'', ''disable'', ''--'', ''--unit'', ''--lines'', ''--no-pager'']"
    by (auto simp only: list_all_iff set_append intro: safe_words)
qed

lemma safe_list_cmds: "safe_command list_units_cmd" "safe_command list_files_cmd"
  using fixed_words_safe by (simp_all add: safe_command_def list_units_cmd_def list_files_cmd_def)

lemma safe_show_cmd: "unit_name u \<Longrightarrow> safe_command (show_cmd u)"
  using fixed_words_safe(3) [of u] fixed_words_safe(4) safe_unit by (simp add: safe_command_def show_cmd_def)

lemma safe_unit_cmd:
  "unit_name u \<Longrightarrow> verb \<in> {''start'', ''stop'', ''restart'', ''enable'', ''disable''} \<Longrightarrow> safe_command (unit_cmd verb u)"
  using fixed_words_safe(4) safe_unit by (auto simp: safe_command_def unit_cmd_def)

lemma safe_logs_cmd: "unit_name u \<Longrightarrow> 1 \<le> n \<Longrightarrow> n \<le> 10000 \<Longrightarrow> safe_command (logs_cmd u n)"
  using fixed_words_safe(4) safe_unit safe_count by (simp add: safe_command_def logs_cmd_def)

lemma adapter_verb_runs: "safe_command (unit_cmd verb u) \<Longrightarrow> runs rn safe_command m (fst (adapter_verb rn verb u m))"
  using runs_command [of safe_command "unit_cmd verb u" rn m] by (auto simp: adapter_verb_def split: prod.splits sum.splits)

lemma Adapter_List_runs: "runs rn safe_command m (fst (Adapter_List rn m))"
proof -
  obtain m1 r1 where 1: "run_unit_command rn list_units_cmd m = (m1, r1)" by (cases "run_unit_command rn list_units_cmd m")
  obtain m2 r2 where 2: "run_unit_command rn list_files_cmd m1 = (m2, r2)" by (cases "run_unit_command rn list_files_cmd m1")
  from runs_command [of safe_command list_units_cmd rn m] safe_list_cmds(1) 1 have r: "runs rn safe_command m m1" by simp
  from runs_command [of safe_command list_files_cmd rn m1] safe_list_cmds(2) 2 have "runs rn safe_command m1 m2" by simp
  from runs_trans [OF this r] r 1 2 show ?thesis by (auto simp: Adapter_List_def split: sum.splits)
qed

interpretation systemd: unit_backend "Adapter rn" "runs rn safe_command" for rn :: "'m unit_runner"
proof unfold_locales
  fix m m1 m2
  assume "runs rn safe_command m m1" "runs rn safe_command m1 m2"
  then show "runs rn safe_command m m2" by (blast intro: runs_trans)
next
  fix u m
  assume "unit_name u"
  from runs_command [of safe_command "show_cmd u" rn m] safe_show_cmd [OF this]
  show "runs rn safe_command m (fst (be_Status (Adapter rn) u m))"
    by (auto simp: Adapter_def Adapter_Status_def split: prod.splits sum.splits)
next
  fix u :: string and n :: int and m
  assume "unit_name u" "1 \<le> n" "n \<le> 10000"
  from runs_command [of safe_command "logs_cmd u n" rn m] safe_logs_cmd [OF this]
  show "runs rn safe_command m (fst (be_Logs (Adapter rn) u n m))"
    by (simp add: Adapter_def Adapter_Logs_def)
next
  fix u f m
  assume u: "unit_name u"
    and f: "f \<in> {be_Start (Adapter rn), be_Stop (Adapter rn), be_Restart (Adapter rn), be_Enable (Adapter rn), be_Disable (Adapter rn)}"
  from f have "f \<in> adapter_verb rn ` {''start'', ''stop'', ''restart'', ''enable'', ''disable''}"
    by (simp only: Adapter_def Backend.simps image_insert image_empty)
  then obtain verb where "f = adapter_verb rn verb" "verb \<in> {''start'', ''stop'', ''restart'', ''enable'', ''disable''}"
    by (rule imageE)
  with safe_unit_cmd [OF u] show "runs rn safe_command m (fst (f u m))" by (simp only: adapter_verb_runs)
qed (simp_all only: runs_refl Adapter_def Backend.simps Adapter_List_runs)

section \<open>Listing what systemctl prints\<close>

text \<open>
  A line of a table: words separated by one or more spaces, with spaces before and after them as the columns
  are padded.
\<close>

inductive laid_out :: "string list \<Rightarrow> string \<Rightarrow> bool" where
  empty: "laid_out [] []"
| pad: "laid_out ws line \<Longrightarrow> laid_out ws (CHR '' '' # line)"
| last: "word_text w \<Longrightarrow> laid_out [w] w"
| word: "word_text w \<Longrightarrow> laid_out ws line \<Longrightarrow> laid_out (w # ws) (w @ CHR '' '' # line)"

lemma Fields_Nil: "Fields [] = []"
  by (simp add: Fields_def)

lemma space_word [simp]: "is_space CHR '' ''"
  by (simp add: is_space_def)

lemma laid_out_Fields: "laid_out ws line \<Longrightarrow> Fields line = ws"
proof (induction rule: laid_out.induct)
  case (last w)
  then show ?case using fields_aux_word [of w "[]" "[]"] by (auto simp: Fields_def word_text_def)
next
  case (word w ws line)
  then show ?case using fields_aux_word [of w "[]" "CHR '' '' # line"] by (auto simp: Fields_def word_text_def)
qed (simp_all add: Fields_def)

lemma laid_out_line: "laid_out ws line \<Longrightarrow> CHR 0x0A \<notin> set line"
  by (induction rule: laid_out.induct) (auto simp: word_text_def is_space_def)

lemma table_fields:
  assumes "list_all2 laid_out rows ls"
  shows "map Fields (Split (end_lines ls) CHR 0x0A) = rows @ [[]]"
proof -
  have "map Fields ls = rows" "\<forall>l \<in> set ls. CHR 0x0A \<notin> set l"
    using assms by (induction rule: list_all2_induct) (simp_all add: laid_out_Fields laid_out_line)
  then show ?thesis by (simp add: Split_end_lines Fields_Nil)
qed

text \<open>
  The rows of the two tables. \<open>list-units\<close> shows the units in memory, those without a file and those not found
  among them; \<open>list-unit-files\<close> the files, templates among them, with a further column for the preset.
\<close>

record unit_row =
  ur_unit :: string
  ur_load :: string
  ur_active :: string
  ur_sub :: string
  ur_words :: "string list"

record file_row =
  fr_unit :: string
  fr_state :: string
  fr_preset :: "string list"

definition unit_cells :: "unit_row \<Rightarrow> string list" where
  "unit_cells u = ur_unit u # ur_load u # ur_active u # ur_sub u # ur_words u"

definition file_cells :: "file_row \<Rightarrow> string list" where
  "file_cells f = fr_unit f # fr_state f # fr_preset f"

text \<open>The service the list shows for a unit: its enablement is the one of its file, empty when it has none.\<close>

definition file_enablement :: "file_row list \<Rightarrow> string \<Rightarrow> Enablement" where
  "file_enablement fs u =
     (case find (\<lambda>f. fr_unit f = u) (rev fs) of None \<Rightarrow> NotListed | Some f \<Rightarrow> enablement (fr_state f))"

definition service_of :: "file_row list \<Rightarrow> unit_row \<Rightarrow> service" where
  "service_of fs u =
     \<lparr>se_Name = TrimSuffix (ur_unit u) ''.service'', se_Description = Join (ur_words u) '' '',
      se_State = unit_state (ur_active u), se_Enablement = file_enablement fs (ur_unit u),
      se_PID = 0, se_StartedAt = [], se_MemoryBytes = 0\<rparr>"

definition is_service :: "unit_row \<Rightarrow> bool" where
  "is_service u \<longleftrightarrow> HasSuffix (ur_unit u) ''.service''"

lemma map_of_find: "map_of (map (\<lambda>x. (k x, v x)) xs) u = map_option v (find (\<lambda>x. k x = u) xs)"
  by (induction xs) auto

lemma enablement_table_of:
  assumes "list_all2 laid_out (map file_cells fs) ls"
  shows "enablement_table (end_lines ls) = file_enablement fs"
proof
  fix u
  have "[(fs ! 0, enablement (fs ! 1)). fs \<leftarrow> map file_cells fs @ [[]], 2 \<le> length fs]
      = map (\<lambda>f. (fr_unit f, enablement (fr_state f))) fs"
    by (induction fs) (simp_all add: file_cells_def)
  then show "enablement_table (end_lines ls) u = file_enablement fs u"
    unfolding enablement_table_def table_fields [OF assms]
    by (simp add: rev_map map_of_find file_enablement_def split: option.splits)
qed

lemma listed_units:
  assumes "list_all2 laid_out (map unit_cells us) ls"
  shows "map (listed_service (file_enablement fs)) (filter service_line (map Fields (Split (end_lines ls) CHR 0x0A)))
     = map (service_of fs) (filter is_service us)"
  unfolding table_fields [OF assms]
  by (induction us) (simp_all add: service_line_def listed_service_def service_of_def is_service_def unit_cells_def numeral_eq_Suc)

lemma Adapter_List_tables:
  assumes "list_all2 laid_out (map unit_cells us) ulines" "list_all2 laid_out (map file_cells fs) flines"
    "rn list_units_cmd m = (m1, end_lines ulines, None)" "rn list_files_cmd m1 = (m2, end_lines flines, None)"
  shows "Adapter_List rn m = (m2, Inr (sort_key se_Name (map (service_of fs) (filter is_service us))))"
  using assms(3,4)
  by (simp add: Adapter_List_def run_unit_command_def enablement_table_of [OF assms(2)] listed_units [OF assms(1)])

lemma TrimSuffix_inj: "HasSuffix s p \<Longrightarrow> HasSuffix t p \<Longrightarrow> TrimSuffix s p = TrimSuffix t p \<Longrightarrow> s = t"
  by (auto simp: TrimSuffix_def HasSuffix_def suffix_def)

text \<open>An error of a backend keeps its kind on the way through the manager.\<close>

lemma service_action_kind:
  assumes "service_action a name f m = (m', Some e)"
  shows "(\<exists>e0. NormalizeName name = Inl e0 \<and> e = e0 \<and> KindOf (Some e) = KindValidation \<and> m' = m)
    \<or> (\<exists>u e0. NormalizeName name = Inr u \<and> f u m = (m', Some e0) \<and> KindOf (Some e) = KindOf (Some e0))"
  using assms
  by (auto simp: service_action_def NormalizeName_def New_def split: sum.splits prod.splits option.splits if_splits)

section \<open>Properties\<close>

text \<open>
  Whatever names and line counts users pass, in whatever sequence of calls, the manager over systemd runs only
  safe commands: \<open>systemctl\<close> or \<open>journalctl\<close> with fixed words, counts from 1 to 10000, and unit names of
  letters, digits and \<open>_.@-\<close> that no option parser takes for an option.
\<close>

theorem service_commands_are_safe:
  "runs rn safe_command m (fold (manager_op (Adapter rn)) ops m)"
  by (rule systemd.calls.run_before) simp

text \<open>
  C27. What \<open>systemctl\<close> prints about the units and their files is read back, however its columns are padded and
  whatever columns follow: the list holds each service of the unit table once, by its name without the suffix, with
  its description (runs of spaces as one), its state and the enablement its row of the file table gives, the
  empty one when it has no row there; units of other types and files without a unit do not show. It is in the
  order of the names.
\<close>

theorem list_reads_the_tables:
  assumes "list_all2 laid_out (map unit_cells us) ulines" "list_all2 laid_out (map file_cells fs) flines"
    "rn list_units_cmd m = (m1, end_lines ulines, None)" "rn list_files_cmd m1 = (m2, end_lines flines, None)"
    "distinct (map ur_unit us)"
  shows "\<exists>l. Manager_List (Adapter rn) m = (m2, Inr l) \<and> mset l = mset (map (service_of fs) (filter is_service us))
    \<and> sorted (map se_Name l) \<and> distinct (map se_Name l)"
proof -
  let ?l = "sort_key se_Name (map (service_of fs) (filter is_service us))"
  have "inj_on (se_Name \<circ> service_of fs) (set (filter is_service us))"
    using assms(5) by (auto simp: inj_on_def service_of_def is_service_def distinct_map dest: TrimSuffix_inj)
  moreover have "distinct (filter is_service us)" using assms(5) by (simp add: distinct_map)
  ultimately have "distinct (map se_Name ?l)"
    by (simp add: distinct_map comp_inj_on_iff inj_on_imageI flip: comp_def) (auto simp: inj_on_def)
  moreover have "Manager_List (Adapter rn) m = (m2, Inr ?l)"
    using Adapter_List_tables [OF assms(1-4)] by (simp add: Manager_List_def Adapter_def)
  ultimately show ?thesis by (simp add: mset_sort)
qed

text \<open>A padded pair of tables: a unit that is not found, a template, a preset column.\<close>

definition toy_units :: "unit_row list" where
  "toy_units =
     [\<lparr>ur_unit = ''nginx.service'', ur_load = ''loaded'', ur_active = ''active'', ur_sub = ''running'', ur_words = [''Web'', ''server'']\<rparr>,
      \<lparr>ur_unit = ''ntp.service'', ur_load = ''not-found'', ur_active = ''inactive'', ur_sub = ''dead'', ur_words = [''ntp.service'']\<rparr>]"

definition toy_files :: "file_row list" where
  "toy_files =
     [\<lparr>fr_unit = ''getty@.service'', fr_state = ''enabled'', fr_preset = [''enabled'']\<rparr>,
      \<lparr>fr_unit = ''nginx.service'', fr_state = ''disabled'', fr_preset = [''enabled'']\<rparr>]"

definition toy_unit_lines :: "string list" where
  "toy_unit_lines =
     [''  nginx.service loaded    active   running Web server'',
      ''  ntp.service   not-found inactive dead    ntp.service'']"

definition toy_file_lines :: "string list" where
  "toy_file_lines =
     [''getty@.service enabled  enabled'',
      ''nginx.service  disabled enabled '']"

definition toy_runner :: "nat unit_runner" where
  "toy_runner cmd m = (Suc m, end_lines (if cmd = list_units_cmd then toy_unit_lines else toy_file_lines), None)"

lemma laid_out_first:
  assumes "takeWhile (\<lambda>c. c \<noteq> CHR '' '') s = w" "word_text w" "dropWhile (\<lambda>c. c \<noteq> CHR '' '') s \<noteq> []"
    "laid_out ws (tl (dropWhile (\<lambda>c. c \<noteq> CHR '' '') s))"
  shows "laid_out (w # ws) s"
proof -
  obtain c line where d: "dropWhile (\<lambda>c. c \<noteq> CHR '' '') s = c # line" using assms(3) by (metis list.exhaust)
  then have "c = CHR '' ''" using hd_dropWhile [OF assms(3)] by simp
  with d assms(1) have "s = w @ CHR '' '' # line" by (metis takeWhile_dropWhile_id)
  with laid_out.word [OF assms(2), of ws line] assms(4) d show ?thesis by simp
qed


lemma toy_tables_laid_out:
  "list_all2 laid_out (map unit_cells toy_units) toy_unit_lines"
  "list_all2 laid_out (map file_cells toy_files) toy_file_lines"
proof -
  have w: "word_text ''nginx.service''" "word_text ''ntp.service''" "word_text ''getty@.service''" "word_text ''loaded''"
    "word_text ''not-found''" "word_text ''active''" "word_text ''inactive''" "word_text ''running''" "word_text ''dead''"
    "word_text ''Web''" "word_text ''server''" "word_text ''enabled''" "word_text ''disabled''"
    by (simp_all add: word_text_def is_space_def)
  show "list_all2 laid_out (map unit_cells toy_units) toy_unit_lines"
    unfolding toy_units_def toy_unit_lines_def unit_cells_def
    by (simp, intro conjI)
      ((rule laid_out.empty laid_out.pad | (rule laid_out.last, simp add: w; fail) | (rule laid_out_first; simp add: w))+)
  show "list_all2 laid_out (map file_cells toy_files) toy_file_lines"
    unfolding toy_files_def toy_file_lines_def file_cells_def
    by (simp, intro conjI)
      ((rule laid_out.empty laid_out.pad | (rule laid_out.last, simp add: w; fail) | (rule laid_out_first; simp add: w))+)
qed

theorem list_reads_the_tables_witness:
  "\<exists>l. Manager_List (Adapter toy_runner) 0 = (2, Inr l) \<and> mset l = mset (map (service_of toy_files) toy_units)
    \<and> sorted (map se_Name l) \<and> distinct (map se_Name l)
    \<and> map se_Enablement (map (service_of toy_files) toy_units) = [UnitDisabled, NotListed]"
proof -
  have r: "toy_runner list_units_cmd 0 = (1, end_lines toy_unit_lines, None)"
    "toy_runner list_files_cmd 1 = (2, end_lines toy_file_lines, None)"
    by (simp_all add: toy_runner_def list_units_cmd_def list_files_cmd_def)
  have "HasSuffix ''nginx.service'' ''.service''" "HasSuffix ''ntp.service'' ''.service''" by code_simp+
  then have "distinct (map ur_unit toy_units)" "filter is_service toy_units = toy_units"
    "map se_Enablement (map (service_of toy_files) toy_units) = [UnitDisabled, NotListed]"
    by (simp_all add: toy_units_def is_service_def service_of_def file_enablement_def toy_files_def enablement_def)
  with list_reads_the_tables [OF toy_tables_laid_out r] show ?thesis by metis
qed

end
