(* ===== verification/Cli_Output.thy ===== *)
theory Cli_Output
  imports Doctor Services
begin

text \<open>
  The text the commands print: the rendering functions of \<open>internal/cli\<close> (\<open>status.go\<close>, \<open>doctor.go\<close>,
  \<open>service.go\<close>, \<open>systeminfo.go\<close>, \<open>version.go\<close>). A writer is the text written to it.
\<close>

section \<open>Sizes\<close>

definition tenths_text :: "nat \<Rightarrow> string" where
  "tenths_text t = show_nat (t div 10) @ [CHR ''.'', digit_char (t mod 10)]"

text \<open>\<open>strconv.FormatFloat(v, 'f', 1, 64)\<close> of \<open>p / q\<close>: the exact value, ties to even.\<close>

definition FormatFloat1 :: "nat \<Rightarrow> nat \<Rightarrow> string" where
  "FormatFloat1 p q = tenths_text (round_half_even (10 * p) q)"

text \<open>Dividing a float64 of this size by 1024 is exact.\<close>

fun format_units :: "nat \<Rightarrow> nat \<Rightarrow> string list \<Rightarrow> string" where
  "format_units p q [] = FormatFloat1 p q @ '' PiB''"
| "format_units p q (unit # us) =
     (let q' = 1024 * q in
      if p < 1024 * q' then FormatFloat1 p q' @ '' '' @ unit else format_units p q' us)"

definition formatBytes :: "int \<Rightarrow> string" where
  "formatBytes n =
     (if n < 0 then ''unknown''
      else if n < 1024 then Itoa n @ '' B''
      else (case float64 (nat n) 1 of (p, q) \<Rightarrow> format_units p q [''KiB'', ''MiB'', ''GiB'', ''TiB'']))"

section \<open>Reports\<close>

definition newline :: string where "newline = [CHR 0x0A]"

definition pad_right :: "nat \<Rightarrow> string \<Rightarrow> string" where
  "pad_right n s = s @ replicate (n - length s) CHR '' ''"

definition field :: "string \<Rightarrow> string \<Rightarrow> string" where
  "field label value = ''  '' @ label @ '': '' @ (if value = [] then ''unknown'' else value) @ newline"

definition optional :: "string \<Rightarrow> string \<Rightarrow> string" where
  "optional label value = (if value = [] then [] else ''  '' @ label @ '': '' @ value @ newline)"

definition describeOS :: "SystemStatus \<Rightarrow> string" where
  "describeOS s = (if ss_Distribution s \<noteq> [] then ss_Distribution s else ss_OS s)"

definition healthLabel :: "bool \<Rightarrow> string" where
  "healthLabel healthy = (if healthy then ''healthy'' else ''unavailable'')"

definition presenceLabel :: "bool \<Rightarrow> string" where
  "presenceLabel found = (if found then ''present'' else ''not present, using defaults'')"

definition writeStatus :: "Status \<Rightarrow> string" where
  "writeStatus s =
     (let a = su_Agent s; y = su_System s; g = su_Storage s; c = su_Config s in
      ''InfraPilot Status'' @ newline @ newline
      @ ''Agent'' @ newline
      @ field ''Status'' (ProcessState_String (as_State a)) @ field ''Version'' (as_Version a)
      @ (if 0 < as_PID a then field ''PID'' (Itoa (as_PID a)) else []) @ optional ''Detail'' (as_Detail a)
      @ newline @ ''System'' @ newline
      @ field ''OS'' (describeOS y) @ field ''Architecture'' (ss_Architecture y) @ optional ''Kernel'' (ss_Kernel y)
      @ field ''Uptime'' (FormatUptime (ss_Uptime y)) @ field ''CPUs'' (Itoa (ss_NumCPU y))
      @ newline @ ''Storage'' @ newline
      @ field ''Database'' (healthLabel (sg_Healthy g)) @ optional ''Path'' (sg_Path g)
      @ (if sg_Healthy g
         then field ''Schema'' (''v'' @ Itoa (sg_SchemaVersion g)) @ field ''Size'' (formatBytes (sg_SizeBytes g)) else [])
      @ optional ''Detail'' (sg_Detail g)
      @ newline @ ''Configuration'' @ newline
      @ field ''File'' (cs_File c @ '' ('' @ presenceLabel (cs_FileExists c) @ '')'') @ field ''Data directory'' (cs_DataDir c)
      @ (if cs_DevMode c then field ''Mode'' ''development'' else []) @ optional ''Detail'' (cs_Detail c))"

definition result_line :: "CheckResult \<Rightarrow> string" where
  "result_line r =
     pad_right 4 (CheckStatus_String (ck_Status r)) @ ''  '' @ ck_Name r @ newline
     @ (if ck_Message r \<noteq> [] then ''      '' @ ck_Message r @ newline else [])"

definition writeReport :: "CheckResult list \<Rightarrow> string" where
  "writeReport rs =
     ''InfraPilot Doctor'' @ newline @ newline @ concat (map result_line rs)
     @ newline @ show_nat (Count StatusPass rs) @ '' passed, '' @ show_nat (Count StatusWarn rs) @ '' warnings, ''
     @ show_nat (Count StatusFail rs) @ '' failed'' @ newline
     @ (if 0 < Count StatusFail rs
        then newline @ ''Fix the failures above, then run infrapilot doctor again.'' @ newline
        else if 0 < Count StatusWarn rs
        then newline @ ''No failures. Warnings are safe to ignore if they are expected.'' @ newline
        else [])"

definition tab :: string where "tab = [CHR 0x09]"

definition writeServices :: "service list \<Rightarrow> string" where
  "writeServices items =
     ''InfraPilot Services'' @ newline @ newline @ ''NAME'' @ tab @ ''STATUS'' @ tab @ ''ENABLED'' @ newline
     @ concat (map (\<lambda>s. se_Name s @ tab @ State_text (se_State s) @ tab @ Enablement_text (se_Enablement s) @ newline) items)"

text \<open>The count of bytes is converted to \<open>int64\<close> before it is formatted.\<close>

definition writeService :: "service \<Rightarrow> string" where
  "writeService s =
     ''Service: '' @ se_Name s @ newline @ newline @ ''Status:'' @ tab @ State_text (se_State s) @ newline
     @ ''Enabled:'' @ tab @ Enablement_text (se_Enablement s) @ newline
     @ (if 0 < se_PID s then ''PID:'' @ tab @ Itoa (se_PID s) @ newline else [])
     @ (if se_StartedAt s \<noteq> [] then ''Started:'' @ tab @ se_StartedAt s @ newline else [])
     @ (if 0 < se_MemoryBytes s then ''Memory:'' @ tab @ formatBytes (sint (se_MemoryBytes s)) @ newline else [])"

definition writeSystem :: "Info \<Rightarrow> string" where
  "writeSystem i =
     ''InfraPilot System Information'' @ newline @ newline
     @ ''Operating System: '' @ in_OS i @ newline @ ''Distribution: '' @ in_Distribution i @ newline
     @ ''Kernel: '' @ in_Kernel i @ newline @ ''Architecture: '' @ in_Arch i @ newline
     @ ''CPU: '' @ in_CPUModel i @ '' ('' @ Itoa (in_NumCPU i) @ '')'' @ newline
     @ ''Memory: '' @ formatBytes (sint (in_MemoryAvailable i)) @ '' available of '' @ formatBytes (sint (in_MemoryTotal i)) @ newline
     @ ''Disk: '' @ formatBytes (sint (in_DiskAvailable i)) @ '' available of '' @ formatBytes (sint (in_DiskTotal i)) @ newline
     @ ''Uptime: '' @ FormatUptime (in_Uptime i) @ newline"

text \<open>The build: the version, the platform and the toolchain.\<close>

record Build =
  bu_Version :: string
  bu_OS :: string
  bu_Arch :: string
  bu_GoVersion :: string

definition Product_Name :: string where "Product_Name = ''InfraPilot''"

definition Current :: "host \<Rightarrow> string \<Rightarrow> Build" where
  "Current h go = \<lparr>bu_Version = Version, bu_OS = h_GOOS h, bu_Arch = h_GOARCH h, bu_GoVersion = go\<rparr>"

definition runVersion :: "host \<Rightarrow> string \<Rightarrow> string" where
  "runVersion h go =
     (let build = Current h go in
      Product_Name @ '' v'' @ bu_Version build @ newline @ ''OS: '' @ bu_OS build @ newline
      @ ''Architecture: '' @ bu_Arch build @ newline @ ''Go: '' @ bu_GoVersion build @ newline)"

section \<open>Sizes are readable up to a pebibyte\<close>

lemma tenths_close:
  assumes "0 < q" "0 < U"
  shows "\<exists>t. FormatFloat1 (n * q) (U * q) = tenths_text t \<and> \<bar>2 * int t * int U - 20 * int n\<bar> \<le> int U"
proof -
  let ?t = "round_half_even (10 * (n * q)) (U * q)"
  have "\<bar>2 * (int ?t * int (U * q)) - 2 * int (10 * (n * q))\<bar> \<le> int (U * q)" using assms by (intro round_close) simp
  then have "\<bar>(2 * int ?t * int U - 20 * int n) * int q\<bar> \<le> int U * int q" by (simp add: algebra_simps)
  then have "\<bar>2 * int ?t * int U - 20 * int n\<bar> \<le> int U" using assms(1) by (simp add: abs_mult)
  then show ?thesis by (auto simp: FormatFloat1_def)
qed

lemma format_units_step:
  assumes "0 < q"
  shows "format_units (n * q) (U * q) (u # us) =
    (if n < 1024 * (1024 * U) then FormatFloat1 (n * q) ((1024 * U) * q) @ '' '' @ u else format_units (n * q) ((1024 * U) * q) us)"
proof -
  have "n * q < 1024 * (1024 * (U * q)) \<longleftrightarrow> n * q < (1024 * (1024 * U)) * q" by (simp add: algebra_simps)
  also have "\<dots> \<longleftrightarrow> n < 1024 * (1024 * U)" using assms by simp
  finally show ?thesis by (simp add: Let_def mult.assoc)
qed

text \<open>The unit a size is printed with and the power of 1024 it is divided by.\<close>

lemma formatBytes_unit:
  assumes "1024 \<le> n" "n < 2 ^ 53"
  shows "\<exists>q u k. 0 < q \<and> formatBytes (int n) = FormatFloat1 (n * q) (1024 ^ k * q) @ '' '' @ u \<and> 1024 ^ k \<le> n
    \<and> (u, k) \<in> {(''KiB'', 1), (''MiB'', 2), (''GiB'', 3), (''TiB'', 4), (''PiB'', 4)}
    \<and> (u = ''PiB'' \<longleftrightarrow> 1024 ^ 5 \<le> n) \<and> (u \<noteq> ''PiB'' \<longrightarrow> n < 1024 ^ (k + 1))"
proof -
  obtain q where q: "float64 n 1 = (n * q, q)" "0 < q" using float64_nat [of n] assms by auto
  have f: "formatBytes (int n) = format_units (n * q) (1 * q) [''KiB'', ''MiB'', ''GiB'', ''TiB'']"
    using assms(1) q by (simp add: formatBytes_def)
  note step = format_units_step [OF q(2)]
  consider "n < 1024 ^ 2" | "1024 ^ 2 \<le> n" "n < 1024 ^ 3" | "1024 ^ 3 \<le> n" "n < 1024 ^ 4" | "1024 ^ 4 \<le> n" "n < 1024 ^ 5"
    | "1024 ^ 5 \<le> n" by linarith
  then show ?thesis
  proof cases
    case 1
    then show ?thesis using assms(1) q(2) unfolding f step by (intro exI [of _ q] exI [of _ "''KiB''"] exI [of _ 1]) simp
  next
    case 2
    then show ?thesis using q(2) unfolding f step by (intro exI [of _ q] exI [of _ "''MiB''"] exI [of _ 2]) simp
  next
    case 3
    then show ?thesis using q(2) unfolding f step by (intro exI [of _ q] exI [of _ "''GiB''"] exI [of _ 3]) simp
  next
    case 4
    then show ?thesis using q(2) unfolding f step by (intro exI [of _ q] exI [of _ "''TiB''"] exI [of _ 4]) simp
  next
    case 5
    then show ?thesis using q(2) unfolding f step by (intro exI [of _ q] exI [of _ "''PiB''"] exI [of _ 4]) simp
  qed
qed

section \<open>Properties\<close>

text \<open>
  C32. A size from 1 KiB to below 8 PiB is printed to the nearest tenth of the unit it is divided by, and that unit
  is the largest it reaches up to 1024 TiB. From there on the number is still divided by a TiB, but it is
  labelled PiB: what is printed is 1024 times too much.
\<close>

theorem sizes_are_printed_to_a_tenth:
  assumes "1024 \<le> n" "n < 2 ^ 53"
  shows "\<exists>u k t. formatBytes (int n) = tenths_text t @ '' '' @ u \<and> \<bar>2 * int t * 1024 ^ k - 20 * int n\<bar> \<le> 1024 ^ k \<and> 1024 ^ k \<le> n
    \<and> (u, k) \<in> {(''KiB'', 1), (''MiB'', 2), (''GiB'', 3), (''TiB'', 4), (''PiB'', 4)}
    \<and> (u = ''PiB'' \<longleftrightarrow> 1024 ^ 5 \<le> n) \<and> (u \<noteq> ''PiB'' \<longrightarrow> n < 1024 ^ (k + 1))"
proof -
  obtain q u k where u: "0 < q" "formatBytes (int n) = FormatFloat1 (n * q) (1024 ^ k * q) @ '' '' @ u" "1024 ^ k \<le> n"
    "(u, k) \<in> {(''KiB'', 1), (''MiB'', 2), (''GiB'', 3), (''TiB'', 4), (''PiB'', 4)}"
    "u = ''PiB'' \<longleftrightarrow> 1024 ^ 5 \<le> n" "u \<noteq> ''PiB'' \<longrightarrow> n < 1024 ^ (k + 1)"
    using formatBytes_unit [OF assms] by (elim exE conjE)
  obtain t where "FormatFloat1 (n * q) (1024 ^ k * q) = tenths_text t" "\<bar>2 * int t * int (1024 ^ k) - 20 * int n\<bar> \<le> int (1024 ^ k)"
    using tenths_close [OF u(1), of "1024 ^ k" n] by auto
  with u show ?thesis by (intro exI [of _ u] exI [of _ k] exI [of _ t] conjI) simp_all
qed

theorem sizes_are_printed_to_a_tenth_witness:
  "\<exists>t. formatBytes 1125899906842624 = tenths_text t @ '' PiB''
    \<and> \<bar>2199023255552 * int t - 22517998136852480\<bar> \<le> 1099511627776"
  using sizes_are_printed_to_a_tenth [of 1125899906842624] by auto

end
