(* ===== verification/Cli_Identity.thy ===== *)
theory Cli_Identity
  imports Cli_Output
begin

text \<open>
  The secure identity commands, \<open>internal/cli/identity.go\<close>: they tie the identity files of this device
  (\<open>Device_Key\<close>) and the trust tables (\<open>Trust_Store\<close>) in the database of this machine (\<open>Storage\<close>) together.
\<close>

section \<open>The machine of a command\<close>

text \<open>
  The identity files of each data directory beside what an Agent shares; and what one command line run is
  answered: by the random source and the files, the database, and the clock.
\<close>

record machine =
  m_world :: world
  m_id :: "string \<Rightarrow> id_files"

record sk_env =
  sk_crypto :: crypto
  sk_files :: id_faults
  sk_input :: create_input
  sk_open :: open_env
  sk_sql :: sql_faults
  sk_now :: instant

type_synonym cli_env = diag_env

text \<open>The result of a command: the machine after it, what it printed, and its error.\<close>

type_synonym 'm cli_result = "'m \<times> string \<times> go_error option"

definition identityDir :: "cli_env \<Rightarrow> string" where
  "identityDir env =
     (if ag_DataDir (cf_Agent (de_Config env)) \<noteq> [] then ag_DataDir (cf_Agent (de_Config env)) else DataDir (de_Paths env))"

definition set_id :: "string \<Rightarrow> id_files \<Rightarrow> machine \<Rightarrow> machine" where
  "set_id dir fs m = m\<lparr>m_id := (m_id m)(dir := fs)\<rparr>"

section \<open>The database\<close>

text \<open>
  \<open>openIdentityDB\<close> and the deferred close: the handle is closed when the command returns, so it is counted
  as closed with the result.
\<close>

definition openIdentityDB :: "open_env \<Rightarrow> cli_env \<Rightarrow> world \<Rightarrow> world \<times> (go_error + db_handle)" where
  "openIdentityDB oe env w =
     (case DatabasePath (de_Config env) of Inl e \<Rightarrow> (w, Inl e)
      | Inr path \<Rightarrow>
          (case Open_db oe \<lparr>op_Path = path, op_BusyTimeout = so_BusyTimeout (cf_Storage (de_Config env)), op_ReadOnly = False\<rparr> (w_disk w) of
             (dk, Inl e) \<Rightarrow> (w\<lparr>w_disk := dk\<rparr>, Inl e)
           | (dk, Inr h) \<Rightarrow> (w\<lparr>w_disk := dk, w_opened := w_opened w @ [h]\<rparr>, Inr h)))"

definition close_db :: "db_handle \<Rightarrow> world \<Rightarrow> world" where
  "close_db h w = w\<lparr>w_closed := w_closed w @ [h]\<rparr>"

text \<open>Without its tables every statement on them fails; a transaction can still begin and commit.\<close>

definition no_tables :: sql_faults where
  "no_tables op = (if op \<in> {SqlBegin, SqlCommit} then None else Some (StdErr OtherOS ''no such table''))"

definition on_tables :: "sql_faults \<Rightarrow> (sql_faults \<Rightarrow> database \<Rightarrow> database \<times> 'r) \<Rightarrow> world \<Rightarrow> world \<times> 'r" where
  "on_tables flt f w =
     (let file = file_of (w_disk w) in
      case sf_identity file of
        None \<Rightarrow> (w, snd (f no_tables empty_db))
      | Some d \<Rightarrow>
          (case f flt d of (d', r) \<Rightarrow>
             (w\<lparr>w_disk := (w_disk w)\<lparr>dk_file := Some (file\<lparr>sf_identity := Some d'\<rparr>)\<rparr>\<rparr>, r)))"

text \<open>Opening, one use of the repository, and closing.\<close>

definition with_repository ::
  "sk_env \<Rightarrow> cli_env \<Rightarrow> (sql_faults \<Rightarrow> database \<Rightarrow> database \<times> (go_error + 'r)) \<Rightarrow> machine \<Rightarrow> machine \<times> (go_error + 'r)" where
  "with_repository sk env f m =
     (case openIdentityDB (sk_open sk) env (m_world m) of
        (w, Inl e) \<Rightarrow> (m\<lparr>m_world := w\<rparr>, Inl e)
      | (w, Inr h) \<Rightarrow> (case on_tables (sk_sql sk) f w of (w', r) \<Rightarrow> (m\<lparr>m_world := close_db h w'\<rparr>, r)))"

section \<open>The commands\<close>

definition sk_usage :: "string \<Rightarrow> go_error" where
  "sk_usage msg = New KindUsage ''cli.sk'' msg"

definition identity_heading :: string where
  "identity_heading = ''InfraPilot Secure Identity'' @ newline @ newline"

definition identity_text :: "identity \<Rightarrow> string" where
  "identity_text i =
     identity_heading @ ''Device ID: '' @ id_DeviceID i @ newline @ ''Public Key: '' @ EncodeToString (id_PublicKey i) @ newline"

definition stored_text :: string where
  "stored_text = ''Private key: stored securely'' @ newline"

definition created_text :: "identity \<Rightarrow> string \<Rightarrow> string" where
  "created_text i token = identity_text i @ ''Pairing Token: '' @ token @ newline @ newline @ stored_text"

definition devices_text :: "Device list \<Rightarrow> string" where
  "devices_text ds =
     ''InfraPilot Trusted Devices'' @ newline @ newline @ ''DEVICE ID'' @ tab @ ''STATUS'' @ newline
     @ concat (map (\<lambda>d. dv_DeviceID d @ tab @ dv_Status d @ newline) ds)"

definition sk_create :: "sk_env \<Rightarrow> cli_env \<Rightarrow> machine \<Rightarrow> machine cli_result" where
  "sk_create sk env m =
     (let dir = identityDir env in
      case Create (sk_crypto sk) dir (sk_files sk) (sk_input sk) (m_id m dir) of
        (fs, Inl e) \<Rightarrow> (set_id dir fs m, [], Some e)
      | (fs, Inr (i, token)) \<Rightarrow> (set_id dir fs m, created_text i token, None))"

definition sk_replace :: "sk_env \<Rightarrow> cli_env \<Rightarrow> string \<Rightarrow> machine \<Rightarrow> machine cli_result" where
  "sk_replace sk env token m =
     (case with_repository sk env (\<lambda>flt. Replace (sk_crypto sk) flt token (sk_now sk)) m of
        (m', Inl e) \<Rightarrow> (m', [], Some e)
      | (m', Inr device) \<Rightarrow> (m', ''Paired device '' @ dv_DeviceID device @ newline, None))"

definition sk_list :: "sk_env \<Rightarrow> cli_env \<Rightarrow> machine \<Rightarrow> machine cli_result" where
  "sk_list sk env m =
     (case with_repository sk env (\<lambda>flt db. (db, List_devices flt db)) m of
        (m', Inl e) \<Rightarrow> (m', [], Some e)
      | (m', Inr devices) \<Rightarrow> (m', devices_text devices, None))"

definition sk_revoke :: "sk_env \<Rightarrow> cli_env \<Rightarrow> string \<Rightarrow> machine \<Rightarrow> machine cli_result" where
  "sk_revoke sk env d m =
     (case with_repository sk env
         (\<lambda>flt db. case Revoke flt d (sk_now sk) db of (db', None) \<Rightarrow> (db', Inr ()) | (db', Some e) \<Rightarrow> (db', Inl e)) m of
        (m', Inl e) \<Rightarrow> (m', [], Some e)
      | (m', Inr _) \<Rightarrow> (m', ''Revoked device '' @ d @ newline, None))"

definition sk_status :: "sk_env \<Rightarrow> cli_env \<Rightarrow> machine \<Rightarrow> machine cli_result" where
  "sk_status sk env m =
     (case Load (identityDir env) (sk_files sk) (m_id m (identityDir env)) of
        Inl e \<Rightarrow> (m, [], Some e)
      | Inr i \<Rightarrow> (m, identity_text i @ stored_text, None))"

text \<open>The audit record of a deletion is written when the database can be opened; its failure is ignored.\<close>

definition sk_delete :: "sk_env \<Rightarrow> cli_env \<Rightarrow> machine \<Rightarrow> machine cli_result" where
  "sk_delete sk env m =
     (let dir = identityDir env in
      case Delete dir (sk_files sk) (m_id m dir) of
        (fs, Inl e) \<Rightarrow> (set_id dir fs m, [], Some e)
      | (fs, Inr d) \<Rightarrow>
          (fst (with_repository sk env
             (\<lambda>flt db. (audit flt ''local_identity_deleted'' d True ''local key removed by user'' (sk_now sk) db, Inr ())) (set_id dir fs m)),
           ''Deleted local device identity '' @ d
             @ ''. The private key cannot be recovered; trusted remote devices were not changed.'' @ newline, None))"

definition sk_help :: string where
  "sk_help =
     ''Usage: infrapilot sk <subcommand>'' @ newline @ newline @ ''Subcommands:'' @ newline
     @ ''  create              Create a local device identity'' @ newline
     @ ''  status              Show the local identity'' @ newline
     @ ''  replace <token>     Register this identity with a trusted service'' @ newline
     @ ''  revoke <device-id>  Revoke a trusted remote device'' @ newline
     @ ''  delete              Delete local identity (requires --confirm)'' @ newline
     @ ''  reset               Alias for delete (requires --confirm)'' @ newline
     @ ''  list                List trusted devices'' @ newline"

definition runSK :: "sk_env \<Rightarrow> cli_env \<Rightarrow> string list \<Rightarrow> machine \<Rightarrow> machine cli_result" where
  "runSK sk env args m =
     (let usage = (\<lambda>msg. (m, [], Some (sk_usage msg))) in
      case args of
        [] \<Rightarrow> usage ''secure identity subcommand is required''
      | sub # rest \<Rightarrow>
          if sub = ''help'' then (if rest \<noteq> [] then usage ''sk help takes no arguments'' else (m, sk_help, None))
          else if sub = ''create'' then (if rest \<noteq> [] then usage ''sk create takes no arguments'' else sk_create sk env m)
          else if sub = ''replace'' then
            (case rest of [token] \<Rightarrow> sk_replace sk env token m | _ \<Rightarrow> usage ''usage: infrapilot sk replace <pairing-token>'')
          else if sub = ''list'' then (if rest \<noteq> [] then usage ''sk list takes no arguments'' else sk_list sk env m)
          else if sub = ''revoke'' then
            (case rest of [d] \<Rightarrow> sk_revoke sk env d m | _ \<Rightarrow> usage ''usage: infrapilot sk revoke <device-id>'')
          else if sub = ''status'' then (if rest \<noteq> [] then usage ''sk status takes no arguments'' else sk_status sk env m)
          else if sub = ''delete'' \<or> sub = ''reset'' then
            (if rest \<noteq> [''--confirm'']
             then usage (''this permanently deletes the private key and cannot be recovered; use: infrapilot sk '' @ sub @ '' --confirm'')
             else sk_delete sk env m)
          else usage (''unknown secure identity subcommand '' @ Quote sub))"

section \<open>What the commands do to the registry\<close>

text \<open>The trusted devices of a machine, as the registry the repository implements.\<close>

definition registry_of :: "machine \<Rightarrow> registry" where
  "registry_of m = abs_registry (tables_of (file_of (w_disk (m_world m))))"

lemma set_id_simps [simp]: "m_world (set_id dir fs m) = m_world m" "registry_of (set_id dir fs m) = registry_of m"
  by (simp_all add: set_id_def registry_of_def)

lemma openIdentityDB_cases:
  assumes "openIdentityDB oe env w = (w', r)"
  shows "tables_of (file_of (w_disk w')) = tables_of (file_of (w_disk w)) \<and> w_closed w' = w_closed w
    \<and> w_opened w' = w_opened w @ (case r of Inl _ \<Rightarrow> [] | Inr h \<Rightarrow> [h])"
proof (cases "DatabasePath (de_Config env)")
  case (Inl e)
  with assms show ?thesis by (auto simp: openIdentityDB_def)
next
  case (Inr path)
  let ?o = "\<lparr>op_Path = path, op_BusyTimeout = so_BusyTimeout (cf_Storage (de_Config env)), op_ReadOnly = False\<rparr>"
  obtain dk x where o: "Open_db oe ?o (w_disk w) = (dk, x)" by (cases "Open_db oe ?o (w_disk w)")
  have "tables_of (file_of dk) = tables_of (file_of (w_disk w))" using Open_db_tables [of oe ?o "w_disk w"] o by simp
  with assms Inr o show ?thesis by (cases x) (auto simp: openIdentityDB_def)
qed

lemma on_tables_cases:
  assumes "on_tables flt f w = (w', r)"
  shows "w_opened w' = w_opened w \<and> w_closed w' = w_closed w
    \<and> ((\<exists>d. f flt (tables_of (file_of (w_disk w))) = (d, r) \<and> tables_of (file_of (w_disk w')) = d)
       \<or> (w' = w \<and> r = snd (f no_tables empty_db)))"
  using assms
  by (auto simp: on_tables_def tables_of_def file_of_def Let_def split: option.splits prod.splits)

text \<open>
  A command that uses the repository either fails before, or runs its operation on the tables of the machine;
  without tables it runs on nothing. Handles are balanced, and the identity files are left alone.
\<close>

lemma with_repository_cases:
  assumes "with_repository sk env f m = (m', r)"
  shows "m_id m' = m_id m \<and> balanced (m_world m) (m_world m')
    \<and> ((\<exists>d. f (sk_sql sk) (tables_of (file_of (w_disk (m_world m)))) = (d, r) \<and> registry_of m' = abs_registry d)
       \<or> (registry_of m' = registry_of m \<and> (is_err r \<or> r = snd (f no_tables empty_db))))"
proof -
  obtain w x where o: "openIdentityDB (sk_open sk) env (m_world m) = (w, x)" by (cases "openIdentityDB (sk_open sk) env (m_world m)")
  note oc = openIdentityDB_cases [OF o]
  show ?thesis
  proof (cases x)
    case (Inl e)
    with assms o oc show ?thesis by (auto simp: with_repository_def registry_of_def balanced_def)
  next
    case (Inr h)
    obtain w' r' where t: "on_tables (sk_sql sk) f w = (w', r')" by (cases "on_tables (sk_sql sk) f w")
    with assms o Inr have m': "m' = m\<lparr>m_world := close_db h w'\<rparr>" "r = r'" by (simp_all add: with_repository_def)
    have "balanced (m_world m) (m_world m')"
      using oc on_tables_cases [OF t] m' Inr by (auto simp: balanced_def close_db_def)
    then show ?thesis using oc on_tables_cases [OF t] m' by (auto simp: registry_of_def close_db_def)
  qed
qed

lemma no_tables_fail:
  "is_err (snd (Replace C no_tables token now empty_db))" "is_err (List_devices no_tables empty_db)"
  "snd (Revoke no_tables d now empty_db) \<noteq> None"
  by (auto simp: Replace_def register_rows_def exec_def no_tables_def List_devices_def Revoke_def Let_def res_bind_def
      split: sum.splits prod.splits)

lemma sk_replace_registry:
  assumes "sk_replace sk env token m = (m', out, err)"
  shows "m_id m' = m_id m \<and> balanced (m_world m) (m_world m')
    \<and> (case err of Some _ \<Rightarrow> registry_of m' = registry_of m
       | None \<Rightarrow> \<exists>d pub. out = ''Paired device '' @ d @ newline \<and> registry_of m d = None
           \<and> registry_of m' = (registry_of m)(d \<mapsto> (pub, True)))"
proof -
  let ?f = "\<lambda>flt. Replace (sk_crypto sk) flt token (sk_now sk)"
  obtain m1 r where w: "with_repository sk env ?f m = (m1, r)" by (cases "with_repository sk env ?f m")
  note c = with_repository_cases [OF w]
  have m1: "m' = m1" using assms w by (auto simp: sk_replace_def split: sum.splits)
  show ?thesis
  proof (cases r)
    case (Inl e)
    have "registry_of m1 = registry_of m"
      using c Inl abs_Replace [of "sk_crypto sk" "sk_sql sk" token "sk_now sk" "tables_of (file_of (w_disk (m_world m)))"]
      by (auto simp: registry_of_def)
    with c m1 assms w Inl show ?thesis by (auto simp: sk_replace_def)
  next
    case (Inr dev)
    then obtain db' where r: "Replace (sk_crypto sk) (sk_sql sk) token (sk_now sk) (tables_of (file_of (w_disk (m_world m)))) = (db', Inr dev)"
      "registry_of m1 = abs_registry db'"
      using c no_tables_fail(1) [of "sk_crypto sk" token "sk_now sk"] by (auto simp: is_err_def split: sum.splits)
    then have "registry_of m1 = (registry_of m)(dv_DeviceID dev \<mapsto> (dv_PublicKey dev, True))"
      using abs_Replace [of "sk_crypto sk" "sk_sql sk" token "sk_now sk" "tables_of (file_of (w_disk (m_world m)))"]
      by (simp add: registry_of_def reg_add_def)
    moreover have "registry_of m (dv_DeviceID dev) = None"
      using Replace_InrD [OF r(1)] by (auto simp: registry_of_def abs_registry_None fresh_pairing_def)
    ultimately show ?thesis using c m1 assms w Inr by (auto simp: sk_replace_def)
  qed
qed

lemma Revoke_None_active: "snd (Revoke flt d now db) = None \<Longrightarrow> \<exists>pub. abs_registry db d = Some (pub, True) \<or> \<not> db_ok db"
  by (cases flt d now db rule: Revoke_cases) (auto simp: filter_empty_conv active_row_def abs_registry_Some)

lemma sk_revoke_registry:
  assumes "sk_revoke sk env d m = (m', out, err)"
  shows "m_id m' = m_id m \<and> balanced (m_world m) (m_world m')
    \<and> registry_of m' \<in> {registry_of m, reg_revoke d (registry_of m)}
    \<and> (err = None \<longrightarrow> out = ''Revoked device '' @ d @ newline \<and> registry_of m' = reg_revoke d (registry_of m))"
proof -
  let ?f = "\<lambda>flt db. case Revoke flt d (sk_now sk) db of (db', None) \<Rightarrow> (db', Inr ()) | (db', Some e) \<Rightarrow> (db', Inl e)"
  let ?T = "tables_of (file_of (w_disk (m_world m)))"
  obtain m1 r where w: "with_repository sk env ?f m = (m1, r)" by (cases "with_repository sk env ?f m")
  note c = with_repository_cases [OF w]
  have m1: "m' = m1" "err = (case r of Inl e \<Rightarrow> Some e | Inr _ \<Rightarrow> None)" "err = None \<longrightarrow> out = ''Revoked device '' @ d @ newline"
    using assms w by (auto simp: sk_revoke_def split: sum.splits)
  have none: "is_err (snd (?f no_tables empty_db))"
    using no_tables_fail(3) [of d "sk_now sk"] by (auto simp: is_err_def split: prod.splits option.splits)
  have "err = None \<longrightarrow> sk_sql sk SqlUpdate = None" if "?f (sk_sql sk) ?T = (db', r)" for db'
    using that m1(2) by (auto simp: Revoke_def split: option.splits prod.splits)
  moreover have "abs_registry db' = abs_registry (fst (Revoke (sk_sql sk) d (sk_now sk) ?T))" if "?f (sk_sql sk) ?T = (db', r)" for db'
    using that by (auto split: prod.splits option.splits)
  moreover have "err = None \<longrightarrow> \<not> is_err r" using m1(2) by (auto simp: is_err_def split: sum.splits)
  ultimately show ?thesis
    using c m1(1,3) none abs_Revoke [of "sk_sql sk" d "sk_now sk" ?T] by (fastforce simp: registry_of_def)
qed

lemma reading_registry:
  assumes "with_repository sk env (\<lambda>flt db. (g flt db, h flt db)) m = (m', r)" "\<And>flt db. abs_registry (g flt db) = abs_registry db"
  shows "m_id m' = m_id m \<and> balanced (m_world m) (m_world m') \<and> registry_of m' = registry_of m"
  using with_repository_cases [OF assms(1)] assms(2) by (auto simp: registry_of_def)

lemma sk_list_registry:
  assumes "sk_list sk env m = (m', out, err)"
  shows "m_id m' = m_id m \<and> balanced (m_world m) (m_world m') \<and> registry_of m' = registry_of m"
proof -
  obtain m1 r where w: "with_repository sk env (\<lambda>flt db. (db, List_devices flt db)) m = (m1, r)"
    by (cases "with_repository sk env (\<lambda>flt db. (db, List_devices flt db)) m")
  have "m' = m1" using assms w by (auto simp: sk_list_def split: sum.splits)
  with reading_registry [OF w] show ?thesis by simp
qed

lemma sk_delete_registry:
  assumes "sk_delete sk env m = (m', out, err)"
  shows "balanced (m_world m) (m_world m') \<and> registry_of m' = registry_of m
    \<and> (err \<noteq> None \<longrightarrow> m_world m' = m_world m) \<and> (\<forall>dir. dir \<noteq> identityDir env \<longrightarrow> m_id m' dir = m_id m dir)"
proof -
  obtain fs r where d: "Delete (identityDir env) (sk_files sk) (m_id m (identityDir env)) = (fs, r)"
    by (cases "Delete (identityDir env) (sk_files sk) (m_id m (identityDir env))")
  show ?thesis
  proof (cases r)
    case (Inl e)
    with assms d show ?thesis by (auto simp: sk_delete_def Let_def set_id_def registry_of_def balanced_def)
  next
    case (Inr dv)
    let ?f = "\<lambda>flt db. (audit flt ''local_identity_deleted'' dv True ''local key removed by user'' (sk_now sk) db, Inr ())"
    obtain m1 x where w: "with_repository sk env ?f (set_id (identityDir env) fs m) = (m1, x)"
      by (cases "with_repository sk env ?f (set_id (identityDir env) fs m)")
    with assms d Inr have "m' = m1" "err = None" by (simp_all add: sk_delete_def Let_def)
    with reading_registry [OF w] show ?thesis by (simp add: set_id_def registry_of_def)
  qed
qed


lemma sk_create_registry:
  assumes "sk_create sk env m = (m', out, err)"
  shows "m_world m' = m_world m \<and> (\<forall>dir. dir \<noteq> identityDir env \<longrightarrow> m_id m' dir = m_id m dir)"
  using assms by (auto simp: sk_create_def set_id_def Let_def split: prod.splits sum.splits)

lemma sk_status_same: "sk_status sk env m = (m', out, err) \<Longrightarrow> m' = m"
  by (auto simp: sk_status_def split: sum.splits)

text \<open>What a run of \<open>sk\<close> may do: the abstract step on the registry, with what it says.\<close>

definition sk_refines :: "machine \<Rightarrow> string list \<Rightarrow> machine \<Rightarrow> string \<Rightarrow> go_error option \<Rightarrow> bool" where
  "sk_refines m args m' out err \<longleftrightarrow>
     (if hd args = ''replace'' \<and> err = None
      then \<exists>d pub. out = ''Paired device '' @ d @ newline \<and> registry_of m d = None \<and> registry_of m' = (registry_of m)(d \<mapsto> (pub, True))
      else if hd args = ''revoke'' \<and> err = None
      then out = ''Revoked device '' @ args ! 1 @ newline \<and> registry_of m' = reg_revoke (args ! 1) (registry_of m)
      else registry_of m' = registry_of m \<or> (hd args = ''revoke'' \<and> registry_of m' = reg_revoke (args ! 1) (registry_of m)))"

definition sk_changes_identity :: "string list \<Rightarrow> bool" where
  "sk_changes_identity args \<longleftrightarrow> args \<in> {[''create''], [''delete'', ''--confirm''], [''reset'', ''--confirm'']}"

lemma runSK_cases:
  assumes "runSK sk env args m = r"
  obtains (usage) msg where "r = (m, [], Some (sk_usage msg))"
  | (helped) "r = (m, sk_help, None)" "args = [''help'']"
  | (create) "r = sk_create sk env m" "args = [''create'']"
  | (replace) token where "r = sk_replace sk env token m" "args = [''replace'', token]"
  | (list) "r = sk_list sk env m" "args = [''list'']"
  | (revoke) d where "r = sk_revoke sk env d m" "args = [''revoke'', d]"
  | (status) "r = sk_status sk env m" "args = [''status'']"
  | (delete) "r = sk_delete sk env m" "args \<in> {[''delete'', ''--confirm''], [''reset'', ''--confirm'']}"
  using assms unfolding runSK_def Let_def
  by (simp split: list.splits if_splits) metis+

lemma runSK_effects:
  assumes "runSK sk env args m = (m', out, err)"
  shows "sk_refines m args m' out err \<and> balanced (m_world m) (m_world m')
    \<and> (m_id m' \<noteq> m_id m \<longrightarrow> sk_changes_identity args) \<and> (\<forall>dir. dir \<noteq> identityDir env \<longrightarrow> m_id m' dir = m_id m dir)"
  using assms
proof (cases rule: runSK_cases)
  case (replace token)
  with sk_replace_registry [of sk env token m m' out err] show ?thesis
    by (cases err) (auto simp: sk_refines_def)
next
  case (revoke d)
  with sk_revoke_registry [of sk env d m m' out err] show ?thesis by (auto simp: sk_refines_def)
next
  case list
  with sk_list_registry [of sk env m m' out err] show ?thesis by (auto simp: sk_refines_def)
next
  case delete
  with sk_delete_registry [of sk env m m' out err] show ?thesis by (auto simp: sk_refines_def sk_changes_identity_def)
next
  case create
  with sk_create_registry [of sk env m m' out err] show ?thesis
    by (auto simp: sk_refines_def sk_changes_identity_def registry_of_def balanced_def)
next
  case status
  with sk_status_same [of sk env m m' out err] show ?thesis by (auto simp: sk_refines_def balanced_def)
qed (auto simp: sk_refines_def balanced_def)

section \<open>A machine that answers\<close>

lemma Create_made:
  assumes "Create C dir flt ci fs = (fs', Inr (i, tok))"
  shows "IsAbs dir \<and> i = \<lparr>id_DeviceID = EncodeToString (ci_id ci), id_PublicKey = public_of (cr_key C (ci_seed ci)),
        id_privateKey = cr_key C (ci_seed ci)\<rparr>
    \<and> fs' = \<lparr>f_key = Some (cr_key C (ci_seed ci)), f_meta = Some (meta_bytes (EncodeToString (ci_id ci)) (ci_stamp ci))\<rparr>
    \<and> PairingToken C i (Some (ci_nonce ci)) (ci_now ci) = Inr tok"
  using assms by (auto simp: Create_def Let_def id_paths_def PairingToken_def split: option_sum_splits)

lemma Revoke_calm:
  assumes "db_ok db" "abs_registry db d = Some (pub, True)"
  shows "snd (Revoke sql_ok d now db) = None"
proof -
  have "filter (active_row d) (db_devices db) \<noteq> []"
    using assms by (auto simp: abs_registry_Some filter_empty_conv active_row_def)
  then show ?thesis by (simp add: Revoke_def sql_ok_def exec_def insert_audit_def)
qed

definition server_ready :: "cli_env \<Rightarrow> machine \<Rightarrow> bool" where
  "server_ready env m \<longleftrightarrow> Validate (de_Config env) = None \<and> schema_ok (file_of (w_disk (m_world m)))
     \<and> (\<forall>v \<in> versions_of (file_of (w_disk (m_world m))). v \<le> LatestVersion)
     \<and> db_ok (tables_of (file_of (w_disk (m_world m))))"

definition calm_sk :: "sk_env \<Rightarrow> bool" where
  "calm_sk sk \<longleftrightarrow> calm_open (sk_open sk) \<and> sk_sql sk = sql_ok"

lemma openIdentityDB_calm:
  assumes "calm_open oe" "server_ready env m"
  shows "\<exists>w h g. openIdentityDB oe env (m_world m) = (w, Inr h) \<and> dk_file (w_disk w) = Some g \<and> sf_identity g \<noteq> None
    \<and> tables_of g = tables_of (file_of (w_disk (m_world m))) \<and> schema_ok g \<and> (\<forall>v \<in> versions_of g. v \<le> LatestVersion)"
proof -
  let ?c = "de_Config env" and ?dk = "w_disk (m_world m)"
  have v: "Validate ?c = None" using assms(2) by (simp add: server_ready_def)
  then obtain p where p: "DatabasePath ?c = Inr p" "0 < so_BusyTimeout (cf_Storage ?c)"
    by (auto simp: Validate_None storage_problems_Nil range_problems_Nil in_range_def is_ok_iff time_units)
  let ?o = "\<lparr>op_Path = p, op_BusyTimeout = so_BusyTimeout (cf_Storage ?c), op_ReadOnly = False\<rparr>"
  have "IsAbs p" using DatabasePath_inside [OF p(1)] by simp
  moreover have "\<forall>v \<in> versions_of (file_of ?dk). v \<le> 2" using assms(2) by (simp add: server_ready_def LatestVersion_def)
  ultimately obtain g where o: "Open_db oe ?o ?dk = (\<lparr>dk_file = Some g, dk_mode = dbFileMode, dk_side = oe_side oe\<rparr>, Inr \<lparr>dh_path = p, dh_readOnly = False\<rparr>)"
    using Open_db_calm [OF assms(1), of ?o ?dk] p(2) abs_nonempty by auto
  have r: "schema_ok g" "versions_of g = versions_of (file_of ?dk) \<union> {1, LatestVersion}" "sf_identity g \<noteq> None"
    using Open_db_ready [OF o, of "\<lambda>_. None"] assms(2) by (auto simp: server_ready_def file_of_def)
  have "tables_of g = tables_of (file_of ?dk)" using Open_db_tables [of oe ?o ?dk] o by (simp add: file_of_def)
  with r o p assms(2) show ?thesis
    by (auto simp: openIdentityDB_def server_ready_def LatestVersion_def)
qed

lemma with_repository_calm:
  assumes "calm_open (sk_open sk)" "server_ready env m"
    and "f (sk_sql sk) (tables_of (file_of (w_disk (m_world m)))) = (d, r)" "db_ok d"
  shows "\<exists>m'. with_repository sk env f m = (m', r) \<and> server_ready env m' \<and> registry_of m' = abs_registry d
    \<and> tables_of (file_of (w_disk (m_world m'))) = d"
proof -
  from openIdentityDB_calm [OF assms(1,2)] obtain w h g where
    o: "openIdentityDB (sk_open sk) env (m_world m) = (w, Inr h)" "dk_file (w_disk w) = Some g" "sf_identity g \<noteq> None"
      "tables_of g = tables_of (file_of (w_disk (m_world m)))" "schema_ok g" "\<forall>v \<in> versions_of g. v \<le> LatestVersion" by blast
  then obtain T where T: "sf_identity g = Some T" "T = tables_of (file_of (w_disk (m_world m)))" by (auto simp: tables_of_def)
  with o assms(3) show ?thesis
    using assms(2,4)
    by (auto simp: with_repository_def on_tables_def file_of_def Let_def registry_of_def close_db_def server_ready_def
        schema_ok_def versions_of_def tables_of_def)
qed

section \<open>Properties\<close>

text \<open>
  C35. The \<open>sk\<close> commands implement the registry of trusted devices: with any faults, \<open>replace\<close> either adds one
  unknown device as active or changes nothing, \<open>revoke\<close> deactivates the device it names (or fails), and every other
  command leaves the registry alone. Only \<open>create\<close> and a confirmed \<open>delete\<close> touch the identity files, of the
  configured directory alone, and every database handle opened is closed.
\<close>

theorem sk_commands_refine_registry:
  assumes "runSK sk env args m = (m', out, err)"
  shows "sk_refines m args m' out err \<and> balanced (m_world m) (m_world m')
    \<and> (m_id m' \<noteq> m_id m \<longrightarrow> sk_changes_identity args) \<and> (\<forall>dir. dir \<noteq> identityDir env \<longrightarrow> m_id m' dir = m_id m dir)"
  using assms by (rule runSK_effects)


definition unknown_to :: "crypto \<Rightarrow> identity \<Rightarrow> string \<Rightarrow> database \<Rightarrow> bool" where
  "unknown_to C i tok db \<longleftrightarrow> id_DeviceID i \<notin> dr_id ` set (db_devices db) \<and> id_PublicKey i \<notin> dr_key ` set (db_devices db)
     \<and> cr_sha256 C tok \<notin> tr_hash ` set (db_tokens db)"

lemma sk_replace_calm:
  assumes "calm_sk sk" "server_ready env m" "ed25519_ok (sk_crypto sk)" "good_identity (sk_crypto sk) i" "length nonce = 32"
    "int64_range (Unix (now + tokenLifetime))" "Unix (sk_now sk) \<le> Unix (now + tokenLifetime)"
    "PairingToken (sk_crypto sk) i (Some nonce) now = Inr tok"
    "unknown_to (sk_crypto sk) i tok (tables_of (file_of (w_disk (m_world m))))"
  shows "\<exists>m'. runSK sk env [''replace'', tok] m = (m', ''Paired device '' @ id_DeviceID i @ newline, None)
    \<and> server_ready env m' \<and> registry_of m' = (registry_of m)(id_DeviceID i \<mapsto> (id_PublicKey i, True))"
proof -
  let ?db = "tables_of (file_of (w_disk (m_world m)))" and ?C = "sk_crypto sk"
  have ok: "db_ok ?db" using assms(2) by (simp add: server_ready_def)
  have f: "fresh_pairing (unsigned_envelope i nonce now) (id_PublicKey i) (cr_sha256 ?C tok) ?db"
    using assms(9) by (simp add: fresh_pairing_def unknown_to_def)
  let ?db' = "registered (unsigned_envelope i nonce now) (id_PublicKey i) (cr_sha256 ?C tok) (RFC3339Nano (sk_now sk)) ?db"
  have r: "Replace ?C (sk_sql sk) tok (sk_now sk) ?db =
      (?db', Inr \<lparr>dv_DeviceID = id_DeviceID i, dv_PublicKey = id_PublicKey i, dv_CreatedAt = sk_now sk, dv_Status = ''active''\<rparr>)"
    using pair_token [OF assms(3-7) ok assms(8) f] assms(1) by (simp add: calm_sk_def)
  have "db_ok ?db'" using Replace_ok [OF ok, of ?C "sk_sql sk" tok "sk_now sk"] r by simp
  from with_repository_calm [of sk env m "\<lambda>flt. Replace ?C flt tok (sk_now sk)", OF _ assms(2) r this] assms(1)
  obtain m' where "with_repository sk env (\<lambda>flt. Replace ?C flt tok (sk_now sk)) m =
      (m', Inr \<lparr>dv_DeviceID = id_DeviceID i, dv_PublicKey = id_PublicKey i, dv_CreatedAt = sk_now sk, dv_Status = ''active''\<rparr>)"
    "server_ready env m'" "registry_of m' = abs_registry ?db'" by (auto simp: calm_sk_def)
  with abs_registered [OF f] show ?thesis by (simp add: runSK_def sk_replace_def registry_of_def reg_add_def)
qed

lemma sk_revoke_calm:
  assumes "calm_sk sk" "server_ready env m" "registry_of m d = Some (pub, True)"
  shows "\<exists>m'. runSK sk env [''revoke'', d] m = (m', ''Revoked device '' @ d @ newline, None)
    \<and> server_ready env m' \<and> registry_of m' = (registry_of m)(d \<mapsto> (pub, False))"
proof -
  let ?db = "tables_of (file_of (w_disk (m_world m)))"
  let ?f = "\<lambda>flt db. case Revoke flt d (sk_now sk) db of (db', None) \<Rightarrow> (db', Inr ()) | (db', Some e) \<Rightarrow> (db', Inl e)"
  have ok: "db_ok ?db" using assms(2) by (simp add: server_ready_def)
  obtain db' where r: "Revoke sql_ok d (sk_now sk) ?db = (db', None)"
    using Revoke_calm [OF ok, of d pub "sk_now sk"] assms(3) by (cases "Revoke sql_ok d (sk_now sk) ?db") (auto simp: registry_of_def)
  have g: "?f (sk_sql sk) ?db = (db', Inr ())" using r assms(1) by (simp add: calm_sk_def)
  have "db_ok db'" using Revoke_ok [OF ok, of sql_ok d "sk_now sk"] r by simp
  from with_repository_calm [of sk env m ?f, OF _ assms(2) g this] assms(1)
  obtain m' where "with_repository sk env ?f m = (m', Inr ())" "server_ready env m'" "registry_of m' = abs_registry db'"
    by (auto simp: calm_sk_def)
  moreover have "abs_registry db' = reg_revoke d (abs_registry ?db)"
    using abs_Revoke [of sql_ok d "sk_now sk" ?db] r by (simp add: sql_ok_def)
  ultimately show ?thesis using assms(3) by (simp add: runSK_def sk_revoke_def registry_of_def reg_revoke_def)
qed

text \<open>
  C34. Pairing from the command line: the token that \<open>sk create\<close> prints, given to \<open>sk replace\<close> on a server within its
  ten minutes, registers the device as active, \<open>sk revoke\<close> of the printed device id deactivates it, and \<open>sk status\<close>
  on the first machine goes on showing the identity; unless the server knows the device id, the key or the
  token already.
\<close>

theorem pairing_by_commands:
  assumes "ed25519_ok C" "sk_crypto sk = C" "sk_crypto sk2 = C"
    "length (ci_seed (sk_input sk)) = 32" "length (ci_id (sk_input sk)) = 16" "length (ci_nonce (sk_input sk)) = 32"
    "int64_range (Unix (ci_now (sk_input sk) + tokenLifetime))" "Unix (sk_now sk2) \<le> Unix (ci_now (sk_input sk) + tokenLifetime)"
    "runSK sk env [''create''] m = (m1, out, None)" "server_ready senv s" "calm_sk sk2" "calm_sk sk3"
  shows "\<exists>i tok. out = created_text i tok
    \<and> runSK (sk\<lparr>sk_files := no_faults\<rparr>) env [''status''] m1 = (m1, identity_text i @ stored_text, None)
    \<and> (unknown_to C i tok (tables_of (file_of (w_disk (m_world s)))) \<longrightarrow>
       (\<exists>s1 s2. runSK sk2 senv [''replace'', tok] s = (s1, ''Paired device '' @ id_DeviceID i @ newline, None)
          \<and> registry_of s1 = (registry_of s)(id_DeviceID i \<mapsto> (id_PublicKey i, True))
          \<and> runSK sk3 senv [''revoke'', id_DeviceID i] s1 = (s2, ''Revoked device '' @ id_DeviceID i @ newline, None)
          \<and> registry_of s2 = (registry_of s)(id_DeviceID i \<mapsto> (id_PublicKey i, False))))"
proof -
  let ?ci = "sk_input sk" and ?dir = "identityDir env"
  obtain fs i tok where c: "Create C ?dir (sk_files sk) ?ci (m_id m ?dir) = (fs, Inr (i, tok))"
    and out: "out = created_text i tok" "m1 = set_id ?dir fs m"
    using assms(2,9) by (auto simp: runSK_def sk_create_def Let_def split: prod.splits sum.splits)
  note made = Create_made [OF c]
  have ne: "ci_id ?ci \<noteq> []" and k: "length (cr_key C (ci_seed ?ci)) = 64" using assms(1,4,5) by (auto simp: ed25519_ok_def)
  have good: "good_identity C i" using made assms(4,5) ne by (auto simp: good_identity_def generated_key_def)
  have status: "Load ?dir no_faults fs = Inr i" using made k ne by (auto simp: no_faults_def intro!: Load_files)
  have st: "runSK (sk\<lparr>sk_files := no_faults\<rparr>) env [''status''] m1 = (m1, identity_text i @ stored_text, None)"
    using status out(2) by (simp add: runSK_def sk_status_def set_id_def)
  have pair: "\<exists>s1 s2. runSK sk2 senv [''replace'', tok] s = (s1, ''Paired device '' @ id_DeviceID i @ newline, None)
      \<and> registry_of s1 = (registry_of s)(id_DeviceID i \<mapsto> (id_PublicKey i, True))
      \<and> runSK sk3 senv [''revoke'', id_DeviceID i] s1 = (s2, ''Revoked device '' @ id_DeviceID i @ newline, None)
      \<and> registry_of s2 = (registry_of s)(id_DeviceID i \<mapsto> (id_PublicKey i, False))"
    if u: "unknown_to C i tok (tables_of (file_of (w_disk (m_world s))))"
  proof -
    obtain s1 where s1: "runSK sk2 senv [''replace'', tok] s = (s1, ''Paired device '' @ id_DeviceID i @ newline, None)"
      "server_ready senv s1" "registry_of s1 = (registry_of s)(id_DeviceID i \<mapsto> (id_PublicKey i, True))"
      using sk_replace_calm [of sk2 senv s i "ci_nonce ?ci" "ci_now ?ci" tok] assms good made u by auto
    with sk_revoke_calm [OF assms(12) s1(2), of "id_DeviceID i" "id_PublicKey i"] show ?thesis by auto
  qed
  show ?thesis using out(1) st pair by blast
qed


definition toy_sk :: sk_env where
  "toy_sk = \<lparr>sk_crypto = toy_crypto, sk_files = no_faults, sk_input = toy_input, sk_open = toy_open_env (\<lambda>_. None),
     sk_sql = sql_ok, sk_now = 0\<rparr>"

definition toy_machine :: machine where
  "toy_machine = \<lparr>m_world = toy_world, m_id = (\<lambda>_. no_files)\<rparr>"

theorem sk_commands_refine_registry_witness:
  "\<exists>m' out err. runSK toy_sk toy_diag [''list''] toy_machine = (m', out, err)
     \<and> registry_of m' = registry_of toy_machine \<and> m_id m' = m_id toy_machine"
proof -
  obtain m' out err where r: "runSK toy_sk toy_diag [''list''] toy_machine = (m', out, err)"
    by (cases "runSK toy_sk toy_diag [''list''] toy_machine")
  from sk_commands_refine_registry [OF r] have "registry_of m' = registry_of toy_machine" "m_id m' = m_id toy_machine"
    by (auto simp: sk_refines_def sk_changes_identity_def)
  with r show ?thesis by blast
qed

definition toy_cli :: cli_env where
  "toy_cli = \<lparr>de_Config = (Default toy_paths_t)\<lparr>cf_Agent := (cf_Agent (Default toy_paths_t))\<lparr>ag_DataDir := TrimSpace (DataDir toy_paths_t)\<rparr>\<rparr>,
     de_Paths = toy_paths_t, de_ConfigErr = None\<rparr>"

lemma toy_cli_valid: "Validate (de_Config toy_cli) = None"
  using fresh_load [of "StdErr NotExist ''none''" "\<lambda>_. None" toy_paths_t "\<lambda>_. Inl ''EOF''"] toy_dir Load_config_validated
  by (auto simp: lookup_env_def toy_cli_def)

lemma toy_cli_ready: "server_ready toy_cli toy_machine" "IsAbs (identityDir toy_cli)"
proof -
  show "server_ready toy_cli toy_machine"
    using toy_cli_valid
    by (simp add: server_ready_def toy_machine_def toy_world_def file_of_def new_file_def schema_ok_def versions_of_def tables_of_def)
  show "IsAbs (identityDir toy_cli)"
    using toy_dir(1) by (auto simp: identityDir_def toy_cli_def IsAbs_def HasPrefix_def)
qed

theorem pairing_by_commands_witness:
  "\<exists>m1 out i tok s1. runSK toy_sk toy_cli [''create''] toy_machine = (m1, out, None) \<and> out = created_text i tok
     \<and> runSK toy_sk toy_cli [''replace'', tok] toy_machine = (s1, ''Paired device '' @ id_DeviceID i @ newline, None)
     \<and> registry_of s1 (id_DeviceID i) = Some (id_PublicKey i, True)"
proof -
  have sk: "ed25519_ok toy_crypto" "sk_crypto toy_sk = toy_crypto" "length (ci_seed (sk_input toy_sk)) = 32"
    "length (ci_id (sk_input toy_sk)) = 16" "length (ci_nonce (sk_input toy_sk)) = 32"
    "int64_range (Unix (ci_now (sk_input toy_sk) + tokenLifetime))" "calm_sk toy_sk"
    using toy_lifetime toy_crypto_ok
    by (simp_all add: toy_sk_def toy_input_def calm_sk_def calm_open_def toy_open_env_def)
  have "Unix (sk_now toy_sk) \<le> Unix (ci_now (sk_input toy_sk) + tokenLifetime)"
    by (rule Unix_mono) (simp add: toy_sk_def toy_input_def tokenLifetime_def time_units)
  moreover obtain m1 out where c: "runSK toy_sk toy_cli [''create''] toy_machine = (m1, out, None)"
    using Create_no_faults [OF toy_cli_ready(2), of no_files toy_crypto toy_input]
    by (auto simp: runSK_def sk_create_def toy_sk_def toy_machine_def no_files_def Let_def)
  ultimately obtain i tok s1 where "out = created_text i tok"
    "runSK toy_sk toy_cli [''replace'', tok] toy_machine = (s1, ''Paired device '' @ id_DeviceID i @ newline, None)"
    "registry_of s1 = (registry_of toy_machine)(id_DeviceID i \<mapsto> (id_PublicKey i, True))"
    using pairing_by_commands [OF sk(1,2,2,3-6) _ c toy_cli_ready(1) sk(7) sk(7)]
    by (auto simp: unknown_to_def toy_machine_def toy_world_def file_of_def new_file_def tables_of_def empty_db_def)
  with c show ?thesis by (intro exI conjI) (assumption | simp)+
qed

end
