(* ===== verification/Update.thy ===== *)
theory Update
  imports Device_Key Web_Manager
begin

text \<open>
  \<open>internal/update/update.go\<close> and \<open>internal/cli/update.go\<close>: release versions and their order, the choice of
  the release assets, the checksum check, and the replacement of the installed binaries with its
  rollback. The file system is a map from paths to contents with a mode; a fault plan says which system
  calls fail. The network, SHA-256 and the reader of compressed tar archives are parameters.
\<close>

section \<open>Versions\<close>

text \<open>
  \<open>fmt.Sscanf(part, "%d", &n)\<close>: skip blanks other than a newline, an optional sign, the longest run of
  digits; n keeps its zero when nothing is read or the number is out of range.
\<close>

definition scan_int :: "string \<Rightarrow> int" where
  "scan_int s =
     (let r = dropWhile (\<lambda>c. is_space c \<and> ord c \<noteq> 10) s;
          sign = (case r of c # _ \<Rightarrow> if c = CHR ''-'' \<or> c = CHR ''+'' then [c] else [] | [] \<Rightarrow> []);
          digs = takeWhile is_digit (drop (length sign) r)
      in case Atoi (sign @ digs) of None \<Rightarrow> 0 | Some v \<Rightarrow> v)"

definition version_parts :: "string \<Rightarrow> string list" where
  "version_parts v = Split (TrimPrefix (TrimSpace v) ''v'') CHR ''.''"

definition version_part :: "string list \<Rightarrow> nat \<Rightarrow> int" where
  "version_part ps i = (if i < length ps then scan_int (ps ! i) else 0)"

fun compare_parts :: "string list \<Rightarrow> string list \<Rightarrow> nat list \<Rightarrow> int" where
  "compare_parts pa pb [] = 0"
| "compare_parts pa pb (i # is) =
     (let ai = version_part pa i; bi = version_part pb i in
      if ai \<noteq> bi then (if ai < bi then -1 else 1) else compare_parts pa pb is)"

definition Compare :: "string \<Rightarrow> string \<Rightarrow> int" where
  "Compare a b = compare_parts (version_parts a) (version_parts b) [0..<3]"

definition version_key :: "string \<Rightarrow> int list" where
  "version_key v = map (version_part (version_parts v)) [0..<3]"

text \<open>What the update command relies on: the comparison is a total preorder.\<close>

locale release_order =
  fixes cmp :: "'v \<Rightarrow> 'v \<Rightarrow> int"
  assumes cmp_refl: "cmp a a = 0"
    and cmp_swap: "cmp b a = - cmp a b"
    and cmp_trans: "cmp a b \<le> 0 \<Longrightarrow> cmp b c \<le> 0 \<Longrightarrow> cmp a c \<le> 0"
begin

lemma cmp_less_trans: "cmp a b < 0 \<Longrightarrow> cmp b c \<le> 0 \<Longrightarrow> cmp a c < 0"
proof -
  assume lt: "cmp a b < 0" and le: "cmp b c \<le> 0"
  have "cmp a c \<le> 0" using lt le cmp_trans [of a b c] by simp
  moreover have "cmp a c \<noteq> 0"
  proof
    assume "cmp a c = 0"
    then have "cmp c a \<le> 0" using cmp_swap [of c a] by simp
    with le have "cmp b a \<le> 0" by (rule cmp_trans)
    with lt cmp_swap [of b a] show False by simp
  qed
  ultimately show ?thesis by simp
qed

text \<open>A chain of updates, each offered because it compares above what is installed.\<close>

fun offered :: "'v \<Rightarrow> 'v list \<Rightarrow> bool" where
  "offered v [] \<longleftrightarrow> True"
| "offered v (r # rs) \<longleftrightarrow> cmp v r < 0 \<and> offered r rs"

lemma offered_above: "offered v rs \<Longrightarrow> r \<in> set rs \<Longrightarrow> cmp v r < 0"
  by (induction rs arbitrary: v) (auto intro: cmp_less_trans less_imp_le)

lemma offered_distinct: "offered v rs \<Longrightarrow> distinct rs \<and> v \<notin> set rs"
proof (induction rs arbitrary: v)
  case (Cons r rs)
  then have "v \<notin> set (r # rs)"
    using offered_above [of v "r # rs" v] cmp_refl [of v] by auto
  moreover have "distinct rs \<and> r \<notin> set rs"
    using Cons.prems by (intro Cons.IH) simp
  ultimately show ?case by simp
qed simp

end

lemma compare_parts_zero: "compare_parts pa pb is = 0 \<longleftrightarrow> (\<forall>i \<in> set is. version_part pa i = version_part pb i)"
  by (induction "is") (auto simp: Let_def)

lemma compare_parts_swap: "compare_parts pb pa is = - compare_parts pa pb is"
  by (induction "is") (auto simp: Let_def)

lemma compare_parts_trans:
  "compare_parts pa pb is \<le> 0 \<Longrightarrow> compare_parts pb pc is \<le> 0 \<Longrightarrow> compare_parts pa pc is \<le> 0"
  by (induction "is") (auto simp: Let_def split: if_splits)

interpretation versions: release_order Compare
  by unfold_locales
    (auto simp: Compare_def compare_parts_zero intro: compare_parts_swap compare_parts_trans)

lemma Compare_zero_iff: "Compare a b = 0 \<longleftrightarrow> version_key a = version_key b"
  by (simp add: Compare_def version_key_def compare_parts_zero)


section \<open>Releases and metadata\<close>

definition Repository :: string where "Repository = ''iAghaTraker/InfraPilot''"
definition MetadataPath :: string where "MetadataPath = ''/etc/infrapilot/install.json''"

record Metadata_t =
  md_Method :: string
  md_Prefix :: string
  md_BinaryDir :: string
  md_Services :: "string list"

record Asset =
  as_Name :: string
  as_URL :: string

record Release =
  rl_TagName :: string
  rl_Name :: string
  rl_Body :: string
  rl_Assets :: "Asset list"

text \<open>A JSON array of strings; null leaves an element empty, and leaves the slice nil as a whole.\<close>

fun string_items :: "json list \<Rightarrow> string list option" where
  "string_items [] = Some []"
| "string_items (JStr s # vs) = map_option ((#) s) (string_items vs)"
| "string_items (JNull # vs) = map_option ((#) []) (string_items vs)"
| "string_items (_ # vs) = None"

fun field_strs :: "string \<Rightarrow> (string \<times> json) list \<Rightarrow> string list \<Rightarrow> string list option" where
  "field_strs name [] acc = Some acc"
| "field_strs name ((k, v) # fs) acc =
     (if EqualFold k name then
        (case v of JArr vs \<Rightarrow> Option.bind (string_items vs) (field_strs name fs)
         | JNull \<Rightarrow> field_strs name fs [] | _ \<Rightarrow> None)
      else field_strs name fs acc)"

definition decode_metadata :: "bytes \<Rightarrow> Metadata_t option" where
  "decode_metadata b =
     Option.bind (Unmarshal b) (\<lambda>v. Option.bind (struct_fields v) (\<lambda>fs.
     Option.bind (field_str ''method'' fs []) (\<lambda>m. Option.bind (field_str ''prefix'' fs []) (\<lambda>p.
     Option.bind (field_str ''binary_dir'' fs []) (\<lambda>d. Option.bind (field_strs ''services'' fs []) (\<lambda>ss.
       Some \<lparr>md_Method = m, md_Prefix = p, md_BinaryDir = d, md_Services = ss\<rparr>))))))"

definition json_error :: go_error where
  "json_error = StdErr OtherOS ''invalid JSON''"

text \<open>\<open>content\<close> is what reading the file gives.\<close>

definition LoadMetadata :: "go_error + bytes \<Rightarrow> go_error + Metadata_t" where
  "LoadMetadata content =
     (case content of Inl e \<Rightarrow> Inl e
      | Inr b \<Rightarrow>
          (case decode_metadata b of None \<Rightarrow> Inl json_error
           | Some m \<Rightarrow>
               if md_Method m \<noteq> ''binary'' \<or> \<not> IsAbs (md_BinaryDir m)
               then Inl (StdErr OtherOS ''invalid installation metadata'') else Inr m))"

definition default_metadata :: Metadata_t where
  "default_metadata =
     \<lparr>md_Method = ''binary'', md_Prefix = ''/usr/local'', md_BinaryDir = ''/usr/local/bin'',
      md_Services = [''infrapilot-agent.service'', ''infrapilot-web.service'']\<rparr>"

text \<open>\<open>links\<close> is \<open>filepath.EvalSymlinks\<close>, whose error is dropped: it then gives the empty path.\<close>

definition Detect :: "(string \<Rightarrow> go_error + bytes) \<Rightarrow> (string \<Rightarrow> string) \<Rightarrow> string \<Rightarrow> string \<Rightarrow> go_error + Metadata_t" where
  "Detect files links metadataPath executable =
     (case LoadMetadata (files metadataPath) of
        Inr m \<Rightarrow> Inr m
      | Inl _ \<Rightarrow>
          if links executable = ''/usr/local/bin/infrapilot'' \<or> executable = ''/usr/local/bin/infrapilot''
          then Inr default_metadata
          else Inl (StdErr OtherOS (''cannot determine installation method; reinstall InfraPilot to record ''
                 @ ''installation metadata'')))"

lemma Detect_absolute:
  "Detect files links mp ex = Inr m \<Longrightarrow> md_Method m = ''binary'' \<and> IsAbs (md_BinaryDir m)"
  by (auto simp: Detect_def LoadMetadata_def default_metadata_def split: sum.splits option.splits if_splits)

section \<open>The world of an update\<close>

record reply =
  re_Status :: nat
  re_StatusText :: string
  re_Body :: bytes
  re_ReadErr :: "go_error option"

record tar_entry =
  te_Path :: string
  te_Data :: bytes
  te_ReadErr :: "go_error option"

datatype up_op =
    OpStale string | OpBackup string | OpTemp string | OpWriteTemp string | OpSyncTemp string
  | OpChmodTemp string | OpCloseTemp string | OpPlace string | OpDropTemp string
  | OpUndoRemove string | OpUndoRename string | OpDropBackup string | OpMakeDir

text \<open>
  \<open>ue_fetch\<close> answers a GET, \<open>ue_untar\<close> reads a compressed archive: the entries up to the end or an
  error. \<open>ue_run\<close> answers a command given the commands run before, \<open>ue_rand\<close> is the number
  \<open>os.CreateTemp\<close> draws, and \<open>ue_partial\<close> what a failing write leaves.
\<close>

record up_env =
  ue_root :: bool
  ue_arch :: string
  ue_fetch :: "string \<Rightarrow> go_error + reply"
  ue_sha256 :: "bytes \<Rightarrow> bytes"
  ue_untar :: "bytes \<Rightarrow> go_error + (tar_entry list \<times> go_error option)"
  ue_fault :: "up_op \<Rightarrow> go_error option"
  ue_rand :: "string \<Rightarrow> nat"
  ue_partial :: "string \<Rightarrow> bytes"
  ue_run :: "command list \<Rightarrow> command \<Rightarrow> go_error option"

text \<open>A file is its contents and its permission bits.\<close>

type_synonym up_files = "string \<rightharpoonup> bytes \<times> nat"

record up_state =
  up_files :: up_files
  up_log :: "command list"

definition no_file :: go_error where "no_file = StdErr NotExist ''no such file or directory''"

definition rename_file :: "go_error option \<Rightarrow> string \<Rightarrow> string \<Rightarrow> up_files \<Rightarrow> go_error option \<times> up_files" where
  "rename_file fault a b fs =
     (case fault of Some e \<Rightarrow> (Some e, fs)
      | None \<Rightarrow> (case fs a of None \<Rightarrow> (Some no_file, fs) | Some f \<Rightarrow> (None, (fs(a := None))(b \<mapsto> f))))"

definition remove_file :: "go_error option \<Rightarrow> string \<Rightarrow> up_files \<Rightarrow> up_files" where
  "remove_file fault a fs = (case fault of Some _ \<Rightarrow> fs | None \<Rightarrow> fs(a := None))"

text \<open>\<open>os.CreateTemp(dir, prefix)\<close>: the directory, a slash unless it ends in one, and a number.\<close>

definition temp_path :: "string \<Rightarrow> nat \<Rightarrow> string" where
  "temp_path dir n =
     (if dir \<noteq> [] \<and> last dir = CHR ''/'' then dir else dir @ ''/'') @ ''.infrapilot-update-'' @ show_nat n"

definition create_temp :: "go_error option \<Rightarrow> string \<Rightarrow> up_files \<Rightarrow> go_error option \<times> up_files" where
  "create_temp fault path fs =
     (case fault of Some e \<Rightarrow> (Some e, fs)
      | None \<Rightarrow> if fs path \<noteq> None then (Some (StdErr OtherOS ''file exists''), fs)
                else (None, fs(path \<mapsto> ([], 0x180))))"

fun first_error :: "go_error option list \<Rightarrow> go_error option" where
  "first_error [] = None"
| "first_error (Some e # es) = Some e"
| "first_error (None # es) = first_error es"

text \<open>\<open>io.ReadAll\<close> behind an \<open>io.LimitReader\<close>.\<close>

definition read_limited :: "nat \<Rightarrow> bytes \<Rightarrow> go_error option \<Rightarrow> go_error + bytes" where
  "read_limited limit data err =
     (if length data < limit then (case err of Some e \<Rightarrow> Inl e | None \<Rightarrow> Inr data)
      else Inr (take limit data))"

section \<open>Looking up, downloading and checking\<close>

definition hex_text :: "bytes \<Rightarrow> string" where
  "hex_text bs = concat (map (\<lambda>b. [hex_digit (ord b div 16), hex_digit (ord b mod 16)]) bs)"

definition VerifySHA256 :: "(bytes \<Rightarrow> bytes) \<Rightarrow> bytes \<Rightarrow> string \<Rightarrow> bool" where
  "VerifySHA256 sha data expected = EqualFold (hex_text (sha data)) (TrimSpace expected)"

definition decode_asset :: "json \<Rightarrow> Asset option" where
  "decode_asset v =
     Option.bind (struct_fields v) (\<lambda>fs. Option.bind (field_str ''name'' fs []) (\<lambda>n.
     Option.bind (field_str ''browser_download_url'' fs []) (\<lambda>u. Some \<lparr>as_Name = n, as_URL = u\<rparr>)))"

fun asset_items :: "json list \<Rightarrow> Asset list option" where
  "asset_items [] = Some []"
| "asset_items (v # vs) =
     Option.bind (decode_asset v) (\<lambda>a. map_option ((#) a) (asset_items vs))"

fun field_assets :: "(string \<times> json) list \<Rightarrow> Asset list \<Rightarrow> Asset list option" where
  "field_assets [] acc = Some acc"
| "field_assets ((k, v) # fs) acc =
     (if EqualFold k ''assets'' then
        (case v of JArr vs \<Rightarrow> Option.bind (asset_items vs) (field_assets fs)
         | JNull \<Rightarrow> field_assets fs [] | _ \<Rightarrow> None)
      else field_assets fs acc)"

definition decode_release :: "bytes \<Rightarrow> Release option" where
  "decode_release b =
     Option.bind (parse_first b) (\<lambda>v. Option.bind (struct_fields v) (\<lambda>fs.
     Option.bind (field_str ''tag_name'' fs []) (\<lambda>t. Option.bind (field_str ''name'' fs []) (\<lambda>n.
     Option.bind (field_str ''body'' fs []) (\<lambda>d. Option.bind (field_assets fs []) (\<lambda>a.
       Some \<lparr>rl_TagName = t, rl_Name = n, rl_Body = d, rl_Assets = a\<rparr>))))))"

definition latest :: "up_env \<Rightarrow> string \<Rightarrow> go_error + Release" where
  "latest env BaseURL =
     (let base = (if BaseURL = [] then ''https://api.github.com'' else BaseURL) in
      case ue_fetch env (base @ ''/repos/'' @ Repository @ ''/releases/latest'') of
        Inl e \<Rightarrow> Inl e
      | Inr resp \<Rightarrow>
          if re_Status resp \<noteq> 200
          then Inl (StdErr OtherOS (''release lookup returned HTTP '' @ re_StatusText resp))
          else (case decode_release (re_Body resp) of None \<Rightarrow> Inl json_error | Some r \<Rightarrow> Inr r))"

definition AssetName :: "up_env \<Rightarrow> string" where
  "AssetName env = ''infrapilot-linux-'' @ ue_arch env"

definition download :: "up_env \<Rightarrow> string \<Rightarrow> nat \<Rightarrow> go_error + bytes" where
  "download env url limit =
     (case ue_fetch env url of Inl e \<Rightarrow> Inl e
      | Inr resp \<Rightarrow>
          if re_Status resp \<noteq> 200
          then Inl (StdErr OtherOS (''download returned HTTP '' @ re_StatusText resp))
          else read_limited limit (re_Body resp) (re_ReadErr resp))"

text \<open>The last asset of a name, and the last line of the checksum list for it.\<close>

fun pick_asset :: "string \<Rightarrow> Asset list \<Rightarrow> Asset \<Rightarrow> Asset" where
  "pick_asset name [] acc = acc"
| "pick_asset name (a # rest) acc = pick_asset name rest (if as_Name a = name then a else acc)"

fun listed_checksum :: "(string \<Rightarrow> bool) \<Rightarrow> string list \<Rightarrow> string \<Rightarrow> string" where
  "listed_checksum want [] acc = acc"
| "listed_checksum want (line # rest) acc =
     (let f = Fields line in
      listed_checksum want rest (if 2 \<le> length f \<and> want (f ! 1) then f ! 0 else acc))"

definition text_lines :: "bytes \<Rightarrow> string list" where
  "text_lines b = Split b CHR 0x0A"

definition binary_names :: "string list" where
  "binary_names = [''infrapilot'', ''infrapilot-agent'', ''infrapilot-web'']"

fun collect_entries :: "tar_entry list \<Rightarrow> (string \<rightharpoonup> bytes) \<Rightarrow> go_error + (string \<rightharpoonup> bytes)" where
  "collect_entries [] files = Inr files"
| "collect_entries (h # hs) files =
     (if Base (te_Path h) \<in> set binary_names
      then (case read_limited 134217728 (te_Data h) (te_ReadErr h) of
              Inl e \<Rightarrow> Inl e
            | Inr b \<Rightarrow> collect_entries hs (files(Base (te_Path h) \<mapsto> b)))
      else collect_entries hs files)"

definition entry_data :: "(string \<rightharpoonup> bytes) \<Rightarrow> string \<Rightarrow> bytes" where
  "entry_data files name = (case files name of None \<Rightarrow> [] | Some b \<Rightarrow> b)"

definition read_binaries :: "up_env \<Rightarrow> bytes \<Rightarrow> go_error + (string \<rightharpoonup> bytes)" where
  "read_binaries env archive =
     (case ue_untar env archive of Inl e \<Rightarrow> Inl e
      | Inr (entries, err) \<Rightarrow>
          res_bind (collect_entries entries Map.empty) (\<lambda>files.
            case err of Some e \<Rightarrow> Inl e
            | None \<Rightarrow>
                (case List.find (\<lambda>n. entry_data files n = []) binary_names of
                   Some n \<Rightarrow> Inl (StdErr OtherOS (''release archive is missing '' @ n))
                 | None \<Rightarrow> Inr files)))"

definition verified_binaries :: "up_env \<Rightarrow> Release \<Rightarrow> go_error + (string \<rightharpoonup> bytes)" where
  "verified_binaries env release =
     (let none = \<lparr>as_Name = [], as_URL = []\<rparr>;
          artifact = pick_asset (AssetName env) (rl_Assets release) none;
          checksums = pick_asset ''checksums.txt'' (rl_Assets release) none
      in if as_URL artifact = [] \<or> as_URL checksums = []
         then Inl (StdErr OtherOS (''release is missing '' @ AssetName env @ '' or checksums.txt''))
         else res_bind (download env (as_URL artifact) 268435456) (\<lambda>archive.
              res_bind (download env (as_URL checksums) 2097152) (\<lambda>sums.
                let expected = listed_checksum (\<lambda>f. TrimPrefix f ''*'' = as_Name artifact) (text_lines sums) []
                in if expected = [] \<or> \<not> VerifySHA256 (ue_sha256 env) archive expected
                   then Inl (StdErr OtherOS ''download checksum verification failed'')
                   else read_binaries env archive)))"


section \<open>Replacing the binaries\<close>

definition target_path :: "string \<Rightarrow> string \<Rightarrow> string" where
  "target_path dir name = join_path dir name"

definition backup_path :: "string \<Rightarrow> string \<Rightarrow> string" where
  "backup_path dir name = target_path dir name @ ''.update-backup''"

text \<open>
  The steps on the temporary file: write, sync, chmod, close, rename onto the target, and the removal of
  whatever is left under its name. A step runs only while there is no error, the close always.
\<close>

definition place_binary :: "up_env \<Rightarrow> string \<Rightarrow> string \<Rightarrow> bytes \<Rightarrow> up_files \<Rightarrow> go_error option \<times> up_files" where
  "place_binary env dir name data fs =
     (let flt = ue_fault env; tmp = temp_path dir (ue_rand env name) in
      case create_temp (flt (OpTemp name)) tmp fs of
        (Some e, fs1) \<Rightarrow> (Some e, fs1)
      | (None, fs1) \<Rightarrow>
          (let wr = flt (OpWriteTemp name);
               prepared = first_error [wr, flt (OpSyncTemp name), flt (OpChmodTemp name)];
               content = (if wr = None then data else ue_partial env name);
               mode = (if prepared = None then 0x1ED else 0x180);
               fs2 = fs1(tmp \<mapsto> (content, mode));
               err = first_error [prepared, flt (OpCloseTemp name)];
               (err3, fs3) = (if err = None
                  then rename_file (flt (OpPlace name)) tmp (target_path dir name) fs2 else (err, fs2))
           in (err3, remove_file (flt (OpDropTemp name)) tmp fs3)))"

text \<open>One round of the installation: the old backup goes, the binary becomes the backup, the new one is placed.\<close>

datatype round_result = NoBackup go_error | NotPlaced go_error | Placed

definition install_round :: "up_env \<Rightarrow> string \<Rightarrow> string \<Rightarrow> bytes \<Rightarrow> up_files \<Rightarrow> round_result \<times> up_files" where
  "install_round env dir name data fs =
     (let flt = ue_fault env;
          fs1 = remove_file (flt (OpStale name)) (backup_path dir name) fs
      in case rename_file (flt (OpBackup name)) (target_path dir name) (backup_path dir name) fs1 of
           (Some e, fs2) \<Rightarrow> (NoBackup e, fs2)
         | (None, fs2) \<Rightarrow>
             (case place_binary env dir name data fs2 of
                (Some e, fs3) \<Rightarrow> (NotPlaced e, fs3)
              | (None, fs3) \<Rightarrow> (Placed, fs3)))"

text \<open>The loop: an error with the state of the round it stopped in, and what was backed up and installed.\<close>

record progress =
  pg_backups :: "string list"
  pg_installed :: "string list"
  pg_files :: up_files

fun install_loop :: "up_env \<Rightarrow> string \<Rightarrow> (string \<rightharpoonup> bytes) \<Rightarrow> string list \<Rightarrow> progress \<Rightarrow> go_error option \<times> progress" where
  "install_loop env dir files [] p = (None, p)"
| "install_loop env dir files (name # names) p =
     (case install_round env dir name (entry_data files name) (pg_files p) of
        (NoBackup e, fs) \<Rightarrow> (Some e, p\<lparr>pg_files := fs\<rparr>)
      | (NotPlaced e, fs) \<Rightarrow> (Some e, p\<lparr>pg_backups := pg_backups p @ [name], pg_files := fs\<rparr>)
      | (Placed, fs) \<Rightarrow>
          install_loop env dir files names
            \<lparr>pg_backups = pg_backups p @ [name], pg_installed = pg_installed p @ [name], pg_files = fs\<rparr>)"

definition run_command :: "up_env \<Rightarrow> command \<Rightarrow> command list \<Rightarrow> go_error option \<times> command list" where
  "run_command env cmd log = (ue_run env log cmd, log @ [cmd])"

text \<open>Commands for each service up to the first that fails, which is named.\<close>

fun run_each :: "up_env \<Rightarrow> (string \<Rightarrow> command) \<Rightarrow> string list \<Rightarrow> command list \<Rightarrow> (string \<times> go_error) option \<times> command list" where
  "run_each env cmd [] log = (None, log)"
| "run_each env cmd (svc # svcs) log =
     (case run_command env (cmd svc) log of
        (Some e, log1) \<Rightarrow> (Some (svc, e), log1)
      | (None, log1) \<Rightarrow> run_each env cmd svcs log1)"

definition restart_cmd :: "string \<Rightarrow> command" where
  "restart_cmd svc = [''systemctl'', ''restart'', svc]"

definition active_cmd :: "string \<Rightarrow> command" where
  "active_cmd svc = [''systemctl'', ''is-active'', ''--quiet'', svc]"

definition doctor_cmd :: "string \<Rightarrow> command" where
  "doctor_cmd dir = [join_path dir ''infrapilot'', ''doctor'']"

definition undo_one :: "up_env \<Rightarrow> string \<Rightarrow> string \<Rightarrow> up_files \<Rightarrow> up_files" where
  "undo_one env dir name fs =
     (let fs1 = remove_file (ue_fault env (OpUndoRemove name)) (target_path dir name) fs in
      snd (rename_file (ue_fault env (OpUndoRename name)) (backup_path dir name) (target_path dir name) fs1))"

definition rolled_back :: "go_error \<Rightarrow> go_error" where
  "rolled_back cause = FmtErr (''update failed and was rolled back: '' @ Error cause) cause"

definition rollback :: "up_env \<Rightarrow> Metadata_t \<Rightarrow> string list \<Rightarrow> go_error \<Rightarrow> up_state \<Rightarrow> up_state \<times> go_error option" where
  "rollback env md installed cause st =
     (let dir = md_BinaryDir md in
      (\<lparr>up_files = fold (undo_one env dir) installed (up_files st),
        up_log = fold (\<lambda>svc log. snd (run_command env (restart_cmd svc) log)) (md_Services md) (up_log st)\<rparr>,
       Some (rolled_back cause)))"

definition health_error :: "string \<Rightarrow> go_error \<Rightarrow> go_error" where
  "health_error svc e = FmtErr (''health check failed for '' @ svc @ '': '' @ Error e) e"

definition doctor_error :: "go_error \<Rightarrow> go_error" where
  "doctor_error e = FmtErr (''doctor health check failed: '' @ Error e) e"

text \<open>Restarts, then the state of each service, then the new binary's own checks.\<close>

definition check_services :: "up_env \<Rightarrow> Metadata_t \<Rightarrow> command list \<Rightarrow> go_error option \<times> command list" where
  "check_services env md log =
     (case run_each env restart_cmd (md_Services md) log of
        (Some (_, e), log1) \<Rightarrow> (Some e, log1)
      | (None, log1) \<Rightarrow>
          (case run_each env active_cmd (md_Services md) log1 of
             (Some (svc, e), log2) \<Rightarrow> (Some (health_error svc e), log2)
           | (None, log2) \<Rightarrow>
               (case run_command env (doctor_cmd (md_BinaryDir md)) log2 of
                  (Some e, log3) \<Rightarrow> (Some (doctor_error e), log3)
                | (None, log3) \<Rightarrow> (None, log3))))"

definition InstallAll :: "up_env \<Rightarrow> Release \<Rightarrow> Metadata_t \<Rightarrow> up_state \<Rightarrow> up_state \<times> go_error option" where
  "InstallAll env release md st =
     (if \<not> ue_root env then (st, Some (StdErr OtherOS ''binary update must run as root''))
      else (case verified_binaries env release of
        Inl e \<Rightarrow> (st, Some e)
      | Inr files \<Rightarrow>
          (let dir = md_BinaryDir md;
               (err, p) = install_loop env dir files binary_names
                            \<lparr>pg_backups = [], pg_installed = [], pg_files = up_files st\<rparr>;
               st1 = st\<lparr>up_files := pg_files p\<rparr>
           in case err of
                Some e \<Rightarrow> rollback env md (pg_installed p) e st1
              | None \<Rightarrow>
                  (case check_services env md (up_log st1) of
                     (Some e, log) \<Rightarrow> rollback env md (pg_installed p) e (st1\<lparr>up_log := log\<rparr>)
                   | (None, log) \<Rightarrow>
                       (\<lparr>up_files = fold (\<lambda>n. remove_file (ue_fault env (OpDropBackup n)) (backup_path dir n))
                           (pg_backups p) (pg_files p), up_log = log\<rparr>, None)))))"


section \<open>Replacing the command alone\<close>

text \<open>
  \<open>Install\<close>, the older single-binary installer: any asset whose name starts with the wanted one, checksums
  from every asset that looks like a checksum list whatever status its download had, and the first entry
  named \<open>infrapilot\<close> of an archive, or the data itself. Its calls are those of the binary named by the
  empty text in the fault plan.
\<close>

fun gather_checksum :: "up_env \<Rightarrow> string \<Rightarrow> Asset list \<Rightarrow> string \<Rightarrow> string" where
  "gather_checksum env name [] acc = acc"
| "gather_checksum env name (x # rest) acc =
     gather_checksum env name rest
       (if Contains (as_Name x) ''sha256'' \<or> Contains (as_Name x) ''checksums''
        then (case ue_fetch env (as_URL x) of Inl _ \<Rightarrow> acc
              | Inr resp \<Rightarrow> listed_checksum (\<lambda>f. Contains f name) (text_lines (re_Body resp)) acc)
        else acc)"

fun first_command :: "tar_entry list \<Rightarrow> go_error option \<Rightarrow> bytes \<Rightarrow> go_error + bytes" where
  "first_command [] err data = (case err of Some e \<Rightarrow> Inl e | None \<Rightarrow> Inr data)"
| "first_command (h # hs) err data =
     (if Base (te_Path h) = ''infrapilot'' then read_limited 134217728 (te_Data h) (te_ReadErr h)
      else first_command hs err data)"

definition extract_command :: "up_env \<Rightarrow> bytes \<Rightarrow> go_error + bytes" where
  "extract_command env data =
     (if 2 < length data \<and> data ! 0 = CHR 0x1F \<and> data ! 1 = CHR 0x8B
      then (case ue_untar env data of Inl e \<Rightarrow> Inl e | Inr (entries, err) \<Rightarrow> first_command entries err data)
      else Inr data)"

definition fetch_command :: "up_env \<Rightarrow> Release \<Rightarrow> go_error + bytes" where
  "fetch_command env release =
     (case List.find (\<lambda>a. as_Name a = AssetName env \<or> HasPrefix (as_Name a) (AssetName env @ ''.'')) (rl_Assets release) of
        None \<Rightarrow> Inl (StdErr OtherOS (''release has no asset for '' @ ue_arch env))
      | Some a \<Rightarrow>
          res_bind (download env (as_URL a) 134217728) (\<lambda>data.
            let checksum = gather_checksum env (as_Name a) (rl_Assets release) []
            in if checksum = [] \<or> \<not> VerifySHA256 (ue_sha256 env) data checksum
               then Inl (StdErr OtherOS ''download checksum verification failed'')
               else extract_command env data))"

definition Install :: "up_env \<Rightarrow> Release \<Rightarrow> string \<Rightarrow> bool \<Rightarrow> up_files \<Rightarrow> up_files \<times> go_error option" where
  "Install env release binaryPath confirm fs =
     (if \<not> confirm then (fs, Some (StdErr OtherOS ''update requires explicit confirmation''))
      else (case fetch_command env release of
        Inl e \<Rightarrow> (fs, Some e)
      | Inr data \<Rightarrow>
          (let flt = ue_fault env; backup = binaryPath @ ''.backup'';
               tmp = temp_path (Dir binaryPath) (ue_rand env []);
               restore = (\<lambda>fs. snd (rename_file (flt (OpUndoRename [])) backup binaryPath fs))
           in case flt OpMakeDir of Some e \<Rightarrow> (fs, Some e) | None \<Rightarrow>
             (case rename_file (flt (OpBackup [])) binaryPath backup fs of
                (Some e, _) \<Rightarrow> (fs, Some (FmtErr (''backup current binary: '' @ Error e) e))
              | (None, fs1) \<Rightarrow>
                  (case create_temp (flt (OpTemp [])) tmp fs1 of
                     (Some e, _) \<Rightarrow> (restore fs1, Some e)
                   | (None, fs2) \<Rightarrow>
                       (let wr = flt (OpWriteTemp []);
                            prepared = first_error [wr, flt (OpChmodTemp [])];
                            fs3 = fs2(tmp \<mapsto> (if wr = None then data else ue_partial env [],
                                              if prepared = None then 0x1ED else 0x180));
                            err = first_error [prepared, flt (OpCloseTemp [])];
                            (err4, fs4) = (if err = None then rename_file (flt (OpPlace [])) tmp binaryPath fs3 else (err, fs3));
                            fs5 = (if err4 = None then fs4 else restore fs4)
                        in (remove_file (flt (OpDropTemp [])) tmp fs5, err4)))))))"

section \<open>Where the files are\<close>

definition dir_prefix :: "string \<Rightarrow> string" where
  "dir_prefix dir = ''/'' @ (if clean_comps dir = [] then [] else Join (clean_comps dir) ''/'' @ ''/'')"

definition last_comp :: "string \<Rightarrow> string" where
  "last_comp p = rev (takeWhile (\<lambda>c. c \<noteq> CHR ''/'') (rev p))"

lemma join_path_down:
  assumes "IsAbs dir" "down_comp n"
  shows "join_path dir n = dir_prefix dir @ n"
proof -
  have pn: "path_comps n = [n]" and dd: "n \<noteq> ''..''"
    using assms(2) by (auto simp: down_comp_def plain_comp_def path_comps_def Split_absent)
  have "clean_comps (join_path dir n) = clean_comps dir @ [n]"
    unfolding clean_comps_join [OF assms(1)] pn using dd by simp
  moreover have "join_path dir n = ''/'' @ Join (clean_comps (join_path dir n)) ''/''"
    using Clean_join [OF assms(1), of n] IsAbs_join [OF assms(1), of n] by (metis Clean_def)
  ultimately show ?thesis by (simp add: dir_prefix_def Join_append)
qed

lemma last_comp_append: "CHR ''/'' \<notin> set n \<Longrightarrow> last_comp (p @ CHR ''/'' # n) = n"
proof -
  assume "CHR ''/'' \<notin> set n"
  then have "takeWhile (\<lambda>c. c \<noteq> CHR ''/'') (rev n) = rev n"
    by (auto simp: takeWhile_eq_all_conv)
  then show ?thesis
    unfolding last_comp_def by (simp only: rev.simps rev_append append_assoc takeWhile_tail append.simps simp_thms not_True_eq_False if_False rev_rev_ident takeWhile.simps)
qed

lemma last_comp_under: "CHR ''/'' \<notin> set n \<Longrightarrow> last_comp (dir_prefix dir @ n) = n"
  using last_comp_append [of n "[]"] last_comp_append [of n "''/'' @ Join (clean_comps dir) ''/''"]
  by (simp add: dir_prefix_def)

lemma last_comp_temp: "last_comp (temp_path dir k) = ''.infrapilot-update-'' @ show_nat k"
proof -
  have ns: "CHR ''/'' \<notin> set (''.infrapilot-update-'' @ show_nat k)"
    using show_nat_digits [of k] by (auto simp: is_digit_def)
  show ?thesis
  proof (cases "dir \<noteq> [] \<and> last dir = CHR ''/''")
    case True
    then obtain d where "dir = d @ [CHR ''/'']" by (metis append_butlast_last_id)
    with True last_comp_append [OF ns, of d] show ?thesis by (simp add: temp_path_def)
  next
    case False
    then show ?thesis using last_comp_append [OF ns, of dir] by (auto simp: temp_path_def)
  qed
qed

lemma binary_names_down: "n \<in> set binary_names \<Longrightarrow> down_comp n \<and> CHR ''/'' \<notin> set n"
  by (auto simp: binary_names_def down_comp_def plain_comp_def)

text \<open>Targets, backups and temporary files of the three binaries never meet.\<close>

lemma update_paths_apart:
  assumes "IsAbs dir" "n \<in> set binary_names" "m \<in> set binary_names"
  shows "target_path dir n = target_path dir m \<longleftrightarrow> n = m"
    "backup_path dir n = backup_path dir m \<longleftrightarrow> n = m"
    "target_path dir n \<noteq> backup_path dir m" "backup_path dir m \<noteq> target_path dir n"
    "target_path dir n \<noteq> temp_path dir k" "temp_path dir k \<noteq> target_path dir n"
    "backup_path dir n \<noteq> temp_path dir k" "temp_path dir k \<noteq> backup_path dir n"
proof -
  have t: "target_path dir x = dir_prefix dir @ x" if "x \<in> set binary_names" for x
    using that assms(1) binary_names_down [of x] by (simp add: target_path_def join_path_down)
  have lt: "last_comp (target_path dir x) = x" if "x \<in> set binary_names" for x
    using that binary_names_down [of x] by (simp add: t last_comp_under)
  have lb: "last_comp (backup_path dir x) = x @ ''.update-backup''" if "x \<in> set binary_names" for x
  proof -
    have "CHR ''/'' \<notin> set (x @ ''.update-backup'')" using binary_names_down [OF that] by simp
    from last_comp_under [OF this, of dir] show ?thesis by (simp add: backup_path_def t [OF that])
  qed
  have ne: "x \<noteq> y @ ''.update-backup''" "hd x \<noteq> CHR ''.''" "hd (x @ ''.update-backup'') \<noteq> CHR ''.''"
    if "x \<in> set binary_names" "y \<in> set binary_names" for x y
    using that by (auto simp: binary_names_def)
  show "target_path dir n = target_path dir m \<longleftrightarrow> n = m" "backup_path dir n = backup_path dir m \<longleftrightarrow> n = m"
    using assms(2,3) by (simp_all add: backup_path_def t)
  show tb: "target_path dir n \<noteq> backup_path dir m" using lt [OF assms(2)] lb [OF assms(3)] ne(1) [OF assms(2,3)] by metis
  then show "backup_path dir m \<noteq> target_path dir n" by metis
  have hd: "hd (last_comp (temp_path dir k)) = CHR ''.''" by (simp add: last_comp_temp)
  show tt: "target_path dir n \<noteq> temp_path dir k" using lt [OF assms(2)] hd ne(2) [OF assms(2,2)] by metis
  then show "temp_path dir k \<noteq> target_path dir n" by metis
  show bt: "backup_path dir n \<noteq> temp_path dir k" using lb [OF assms(2)] hd ne(3) [OF assms(2,2)] by metis
  then show "temp_path dir k \<noteq> backup_path dir n" by metis
qed


section \<open>One round, the loop and the rollback\<close>

lemma rename_file_simps:
  "rename_file None a b fs =
     (case fs a of None \<Rightarrow> (Some no_file, fs) | Some f \<Rightarrow> (None, (fs(a := None))(b \<mapsto> f)))"
  "rename_file (Some e) a b fs = (Some e, fs)"
  by (simp_all add: rename_file_def)

lemma rename_file_ok: "rename_file flt a b fs = (None, fs') \<Longrightarrow> \<exists>f. fs a = Some f \<and> fs' = (fs(a := None))(b \<mapsto> f)"
  by (auto simp: rename_file_def split: option.splits)

lemma rename_file_err: "rename_file flt a b fs = (Some e, fs') \<Longrightarrow> fs' = fs"
  by (auto simp: rename_file_def split: option.splits)

lemma remove_file_other: "q \<noteq> a \<Longrightarrow> remove_file flt a fs q = fs q"
  by (simp add: remove_file_def split: option.splits)

lemma first_error_None: "first_error es = None \<longleftrightarrow> set es \<subseteq> {None}"
  by (induction es rule: first_error.induct) auto

lemma not_Some_pair: "(\<forall>a b. x \<noteq> Some (a, b)) \<longleftrightarrow> x = None"
  by (cases x) auto

lemma place_binary_ok:
  assumes "place_binary env dir name data fs = (None, fs')" "target_path dir name \<noteq> temp_path dir (ue_rand env name)"
  shows "fs' (target_path dir name) = Some (data, 0x1ED)"
    and "q \<noteq> target_path dir name \<Longrightarrow> fs' q = fs q"
proof -
  from assms(1) have fs: "fs' = fs(target_path dir name \<mapsto> (data, 0x1ED))"
    using assms(2)
    by (auto simp: place_binary_def create_temp_def Let_def remove_file_def rename_file_def
        first_error_None not_Some_pair split: option.splits if_splits prod.splits intro!: ext)
  show "fs' (target_path dir name) = Some (data, 0x1ED)" by (simp add: fs)
  show "q \<noteq> target_path dir name \<Longrightarrow> fs' q = fs q" by (simp add: fs)
qed

lemma place_binary_err:
  assumes "place_binary env dir name data fs = (Some e, fs')" "q \<noteq> temp_path dir (ue_rand env name)"
  shows "fs' q = fs q"
  using assms
  by (auto simp: place_binary_def create_temp_def Let_def remove_file_other
      split: option.splits if_splits prod.splits dest!: rename_file_err)

text \<open>The files a round for one binary may touch.\<close>

definition round_paths :: "up_env \<Rightarrow> string \<Rightarrow> string \<Rightarrow> string set" where
  "round_paths env dir name =
     {target_path dir name, backup_path dir name, temp_path dir (ue_rand env name)}"

definition round_effect :: "string \<Rightarrow> string \<Rightarrow> bytes \<Rightarrow> up_files \<Rightarrow> round_result \<Rightarrow> up_files \<Rightarrow> bool" where
  "round_effect dir name data fs r fs' \<longleftrightarrow>
     (case r of
        NoBackup e \<Rightarrow> fs' (target_path dir name) = fs (target_path dir name)
      | NotPlaced e \<Rightarrow> fs' (target_path dir name) = None
          \<and> fs (target_path dir name) \<noteq> None \<and> fs' (backup_path dir name) = fs (target_path dir name)
      | Placed \<Rightarrow> fs' (target_path dir name) = Some (data, 0x1ED)
          \<and> fs (target_path dir name) \<noteq> None \<and> fs' (backup_path dir name) = fs (target_path dir name))"

lemma install_round_cases:
  assumes "install_round env dir name data fs = (r, fs')" "IsAbs dir" "name \<in> set binary_names"
  shows "\<forall>q. q \<notin> round_paths env dir name \<longrightarrow> fs' q = fs q"
    and "round_effect dir name data fs r fs'"
proof -
  note apart = update_paths_apart [OF assms(2,3,3)]
  let ?fs1 = "remove_file (ue_fault env (OpStale name)) (backup_path dir name) fs"
  obtain err fs2 where rn: "rename_file (ue_fault env (OpBackup name)) (target_path dir name)
      (backup_path dir name) ?fs1 = (err, fs2)" by (cases "rename_file (ue_fault env (OpBackup name)) (target_path dir name)
      (backup_path dir name) ?fs1")
  have one: "(\<forall>q. q \<notin> round_paths env dir name \<longrightarrow> fs' q = fs q) \<and> round_effect dir name data fs r fs'"
  proof (cases err)
    case (Some e)
    with rn assms(1) have "r = NoBackup e" "fs' = ?fs1"
      by (auto simp: install_round_def Let_def dest: rename_file_err)
    then show ?thesis using apart by (auto simp: round_effect_def round_paths_def remove_file_other)
  next
    case None
    with rn obtain f where f: "fs (target_path dir name) = Some f"
      and fs2: "fs2 = (?fs1(target_path dir name := None))(backup_path dir name \<mapsto> f)"
      using apart by (auto simp: remove_file_other dest!: rename_file_ok)
    obtain perr fs3 where pl: "place_binary env dir name data fs2 = (perr, fs3)" by (cases "place_binary env dir name data fs2")
    with rn None assms(1) have r: "r = (case perr of Some e \<Rightarrow> NotPlaced e | None \<Rightarrow> Placed)" "fs' = fs3"
      by (auto simp: install_round_def Let_def split: option.splits)
    show ?thesis
    proof (cases perr)
      case (Some e)
      note same = place_binary_err [OF pl [unfolded Some]]
      show ?thesis
        using r Some apart f same by (auto simp: fs2 round_effect_def round_paths_def remove_file_other)
    next
      case None
      note placed = place_binary_ok [OF pl [unfolded None] apart(5)]
      show ?thesis
        using r None apart f placed by (auto simp: fs2 round_effect_def round_paths_def remove_file_other)
    qed
  qed
  then show "\<forall>q. q \<notin> round_paths env dir name \<longrightarrow> fs' q = fs q" by blast
  from one show "round_effect dir name data fs r fs'" by blast
qed


text \<open>
  What the loop leaves: the binaries before the stop are replaced and backed up; the one it stopped at
  is either as it was or only in its backup; the rest is as it was.
\<close>

definition replaced :: "string \<Rightarrow> (string \<rightharpoonup> bytes) \<Rightarrow> up_files \<Rightarrow> up_files \<Rightarrow> string \<Rightarrow> bool" where
  "replaced dir files fs fs' n \<longleftrightarrow>
     fs' (target_path dir n) = Some (entry_data files n, 0x1ED)
   \<and> fs (target_path dir n) \<noteq> None \<and> fs' (backup_path dir n) = fs (target_path dir n)"

definition untouched :: "string \<Rightarrow> up_files \<Rightarrow> up_files \<Rightarrow> string \<Rightarrow> bool" where
  "untouched dir fs fs' n \<longleftrightarrow> fs' (target_path dir n) = fs (target_path dir n)"

definition only_backup :: "string \<Rightarrow> up_files \<Rightarrow> up_files \<Rightarrow> string \<Rightarrow> bool" where
  "only_backup dir fs fs' n \<longleftrightarrow>
     fs' (target_path dir n) = None \<and> fs (target_path dir n) \<noteq> None
   \<and> fs' (backup_path dir n) = fs (target_path dir n)"

lemma round_paths_apart:
  assumes "IsAbs dir" "n \<in> set binary_names" "m \<in> set binary_names" "n \<noteq> m"
  shows "target_path dir n \<notin> round_paths env dir m" "backup_path dir n \<notin> round_paths env dir m"
  using update_paths_apart [OF assms(1,2,3)] update_paths_apart [OF assms(1,3,2)] assms(4)
  by (auto simp: round_paths_def)

lemma install_loop_frame:
  assumes "install_loop env dir files names p = (err, p')" "IsAbs dir" "set names \<subseteq> set binary_names"
    "q \<notin> (\<Union>n \<in> set names. round_paths env dir n)"
  shows "pg_files p' q = pg_files p q"
  using assms
proof (induction names arbitrary: p)
  case (Cons n names)
  obtain r fs1 where rd: "install_round env dir n (entry_data files n) (pg_files p) = (r, fs1)"
    by (cases "install_round env dir n (entry_data files n) (pg_files p)")
  have "fs1 q = pg_files p q" using install_round_cases(1) [OF rd] Cons.prems by simp
  with Cons rd show ?case by (auto split: round_result.splits)
qed simp

lemma install_loop_done:
  assumes "install_loop env dir files names p = (None, p')" "IsAbs dir" "set names \<subseteq> set binary_names"
    "distinct names"
  shows "pg_installed p' = pg_installed p @ names \<and> pg_backups p' = pg_backups p @ names
    \<and> (\<forall>n \<in> set names. replaced dir files (pg_files p) (pg_files p') n)"
  using assms
proof (induction names arbitrary: p)
  case (Cons n names)
  obtain r fs1 where rd: "install_round env dir n (entry_data files n) (pg_files p) = (r, fs1)"
    by (cases "install_round env dir n (entry_data files n) (pg_files p)")
  with Cons.prems have r: "r = Placed" by (auto split: round_result.splits)
  let ?p1 = "\<lparr>pg_backups = pg_backups p @ [n], pg_installed = pg_installed p @ [n], pg_files = fs1\<rparr>"
  have rest: "install_loop env dir files names ?p1 = (None, p')" using Cons.prems(1) rd r by simp
  note IH = Cons.IH [OF rest]
  have n: "n \<in> set binary_names" "n \<notin> set names" using Cons.prems by auto
  note rc = install_round_cases [OF rd Cons.prems(2) n(1)]
  have keep: "pg_files p' (target_path dir n) = fs1 (target_path dir n)"
    "pg_files p' (backup_path dir n) = fs1 (backup_path dir n)"
    using install_loop_frame [OF rest Cons.prems(2)] round_paths_apart [OF Cons.prems(2) n(1)] n Cons.prems(3) by fastforce+
  have first: "replaced dir files (pg_files p) (pg_files p') n"
    using rc(2) r keep by (simp add: replaced_def round_effect_def)
  have later: "replaced dir files (pg_files p) (pg_files p') m" if m: "m \<in> set names" for m
  proof -
    have "replaced dir files fs1 (pg_files p') m" using IH Cons.prems m by simp
    moreover have "fs1 (target_path dir m) = pg_files p (target_path dir m)"
      using rc(1) round_paths_apart [OF Cons.prems(2) _ n(1), of m] m n Cons.prems(3) by auto
    ultimately show ?thesis by (simp add: replaced_def)
  qed
  show ?case using IH Cons.prems first later by simp
qed simp

lemma install_loop_stopped:
  assumes "install_loop env dir files names p = (Some e, p')" "IsAbs dir" "set names \<subseteq> set binary_names"
    "distinct names"
  shows "\<exists>before bad after. names = before @ bad # after \<and> pg_installed p' = pg_installed p @ before
    \<and> (\<forall>n \<in> set before. replaced dir files (pg_files p) (pg_files p') n)
    \<and> (untouched dir (pg_files p) (pg_files p') bad \<or> only_backup dir (pg_files p) (pg_files p') bad)
    \<and> (\<forall>n \<in> set after. untouched dir (pg_files p) (pg_files p') n)"
  using assms
proof (induction names arbitrary: p)
  case (Cons n names)
  obtain r fs1 where rd: "install_round env dir n (entry_data files n) (pg_files p) = (r, fs1)"
    by (cases "install_round env dir n (entry_data files n) (pg_files p)")
  have n: "n \<in> set binary_names" "n \<notin> set names" using Cons.prems by auto
  note rc = install_round_cases [OF rd Cons.prems(2) n(1)]
  have same: "fs1 (target_path dir m) = pg_files p (target_path dir m)" if "m \<in> set names" for m
    using rc(1) round_paths_apart [OF Cons.prems(2) _ n(1), of m] that n Cons.prems(3) by auto
  show ?case
  proof (cases "r = Placed")
    case False
    then have p': "pg_files p' = fs1" "pg_installed p' = pg_installed p"
      using Cons.prems(1) rd by (auto split: round_result.splits)
    have "untouched dir (pg_files p) fs1 n \<or> only_backup dir (pg_files p) fs1 n"
      using rc(2) False by (auto simp: round_effect_def untouched_def only_backup_def split: round_result.splits)
    moreover have "\<forall>m \<in> set names. untouched dir (pg_files p) fs1 m"
      using same by (simp add: untouched_def)
    ultimately show ?thesis by (intro exI [of _ "[]"] exI [of _ n] exI [of _ names]) (simp add: p')
  next
    case True
    let ?p1 = "\<lparr>pg_backups = pg_backups p @ [n], pg_installed = pg_installed p @ [n], pg_files = fs1\<rparr>"
    have rest: "install_loop env dir files names ?p1 = (Some e, p')" using Cons.prems(1) rd True by simp
    from Cons.IH [OF rest] Cons.prems obtain before bad after where
      s: "names = before @ bad # after" "pg_installed p' = pg_installed p @ n # before"
      and b: "\<forall>m \<in> set before. replaced dir files fs1 (pg_files p') m"
      and d: "untouched dir fs1 (pg_files p') bad \<or> only_backup dir fs1 (pg_files p') bad"
      and a: "\<forall>m \<in> set after. untouched dir fs1 (pg_files p') m" by auto
    have keep: "pg_files p' (target_path dir n) = fs1 (target_path dir n)"
      "pg_files p' (backup_path dir n) = fs1 (backup_path dir n)"
      using install_loop_frame [OF rest Cons.prems(2)] round_paths_apart [OF Cons.prems(2) n(1)] n Cons.prems(3) by fastforce+
    have "replaced dir files (pg_files p) (pg_files p') n"
      using rc(2) True keep by (simp add: replaced_def round_effect_def)
    with b a d s same show ?thesis
      by (intro exI [of _ "n # before"] exI [of _ bad] exI [of _ after])
        (auto simp: replaced_def untouched_def only_backup_def)
  qed
qed simp


lemma undo_one_restores:
  assumes "ue_fault env (OpUndoRename n) = None" "fs (backup_path dir n) = Some f"
    "target_path dir n \<noteq> backup_path dir n"
  shows "undo_one env dir n fs (target_path dir n) = Some f"
    and "q \<noteq> target_path dir n \<Longrightarrow> q \<noteq> backup_path dir n \<Longrightarrow> undo_one env dir n fs q = fs q"
  using assms by (auto simp: undo_one_def Let_def rename_file_simps remove_file_other)

lemma undo_all:
  assumes "IsAbs dir" "set ns \<subseteq> set binary_names" "distinct ns"
    "\<forall>n \<in> set ns. ue_fault env (OpUndoRename n) = None \<and> fs (backup_path dir n) \<noteq> None"
  shows "(\<forall>n \<in> set ns. fold (undo_one env dir) ns fs (target_path dir n) = fs (backup_path dir n))
    \<and> (\<forall>q. (\<forall>n \<in> set ns. q \<noteq> target_path dir n \<and> q \<noteq> backup_path dir n)
          \<longrightarrow> fold (undo_one env dir) ns fs q = fs q)"
  using assms
proof (induction ns arbitrary: fs)
  case (Cons n ns)
  then obtain f where f: "fs (backup_path dir n) = Some f" by auto
  have n: "n \<in> set binary_names" "n \<notin> set ns" using Cons.prems by auto
  note apart = update_paths_apart [OF Cons.prems(1) n(1)]
  have fl: "ue_fault env (OpUndoRename n) = None" using Cons.prems by simp
  note one = undo_one_restores [of env n fs dir f, OF fl f apart(3) [OF n(1)]]
  let ?fs1 = "undo_one env dir n fs"
  have keep: "?fs1 (backup_path dir m) = fs (backup_path dir m)" if "m \<in> set ns" for m
    using one(2) that apart(2,4) [of m] n Cons.prems by (metis insert_iff list.simps(15) subsetD)
  have IH: "(\<forall>m \<in> set ns. fold (undo_one env dir) ns ?fs1 (target_path dir m) = ?fs1 (backup_path dir m))
    \<and> (\<forall>q. (\<forall>m \<in> set ns. q \<noteq> target_path dir m \<and> q \<noteq> backup_path dir m)
          \<longrightarrow> fold (undo_one env dir) ns ?fs1 q = ?fs1 q)"
    using Cons.prems keep by (intro Cons.IH) auto
  have "fold (undo_one env dir) ns ?fs1 (target_path dir n) = ?fs1 (target_path dir n)"
    using IH apart(1,3) n Cons.prems by (metis insert_iff list.simps(15) subsetD)
  then show ?case using IH one Cons.prems keep f by auto
qed simp

section \<open>What an update guarantees\<close>

text \<open>The archive the release publishes for this machine, with its SHA-256 in the list of checksums.\<close>

definition verified_archive :: "up_env \<Rightarrow> Release \<Rightarrow> bytes \<Rightarrow> bool" where
  "verified_archive env release archive \<longleftrightarrow>
     (\<exists>a \<in> set (rl_Assets release). \<exists>c \<in> set (rl_Assets release). \<exists>sums.
        as_Name a = AssetName env \<and> download env (as_URL a) 268435456 = Inr archive
      \<and> as_Name c = ''checksums.txt'' \<and> download env (as_URL c) 2097152 = Inr sums
      \<and> (\<exists>line \<in> set (text_lines sums). 2 \<le> length (Fields line)
           \<and> TrimPrefix (Fields line ! 1) ''*'' = AssetName env
           \<and> EqualFold (hex_text (ue_sha256 env archive)) (Fields line ! 0)))"

lemma pick_asset_from: "pick_asset name as acc = acc \<or> (pick_asset name as acc \<in> set as \<and> as_Name (pick_asset name as acc) = name)"
proof (induction "as" arbitrary: acc)
  case (Cons a rest)
  then show ?case
    using Cons.IH [of acc] Cons.IH [of a] by (cases "as_Name a = name") fastforce+
qed simp

lemma listed_checksum_from:
  "listed_checksum want lines acc = acc
   \<or> (\<exists>line \<in> set lines. 2 \<le> length (Fields line) \<and> want (Fields line ! 1) \<and> listed_checksum want lines acc = Fields line ! 0)"
proof (induction lines arbitrary: acc)
  case (Cons line rest)
  then show ?case
    using Cons.IH [of "if 2 \<le> length (Fields line) \<and> want (Fields line ! 1) then Fields line ! 0 else acc"]
    by (auto simp: Let_def)
qed simp

lemma verified_binaries_verified:
  assumes "verified_binaries env release = Inr files"
  shows "\<exists>archive. verified_archive env release archive \<and> read_binaries env archive = Inr files"
proof -
  let ?none = "\<lparr>as_Name = [], as_URL = []\<rparr>"
  let ?a = "pick_asset (AssetName env) (rl_Assets release) ?none"
  let ?c = "pick_asset ''checksums.txt'' (rl_Assets release) ?none"
  let ?want = "\<lambda>f. TrimPrefix f ''*'' = as_Name ?a"
  from assms obtain archive sums where
    url: "as_URL ?a \<noteq> []" "as_URL ?c \<noteq> []"
    and dl: "download env (as_URL ?a) 268435456 = Inr archive" "download env (as_URL ?c) 2097152 = Inr sums"
    and sum: "listed_checksum ?want (text_lines sums) [] \<noteq> []"
      "VerifySHA256 (ue_sha256 env) archive (listed_checksum ?want (text_lines sums) [])"
    and rd: "read_binaries env archive = Inr files"
    by (auto simp: verified_binaries_def Let_def res_bind_eq_Inr split: if_splits)
  have a: "?a \<in> set (rl_Assets release)" "as_Name ?a = AssetName env"
    using pick_asset_from [of "AssetName env" "rl_Assets release" ?none] url(1) by auto
  have c: "?c \<in> set (rl_Assets release)" "as_Name ?c = ''checksums.txt''"
    using pick_asset_from [of "''checksums.txt''" "rl_Assets release" ?none] url(2) by auto
  from listed_checksum_from [of ?want "text_lines sums" "[]"] sum(1) obtain line where
    line: "line \<in> set (text_lines sums)" "2 \<le> length (Fields line)" "?want (Fields line ! 1)"
      "listed_checksum ?want (text_lines sums) [] = Fields line ! 0" by auto
  have "Fields line ! 0 \<in> set (Fields line)" using line(2) by (intro nth_mem) linarith
  then have "TrimSpace (Fields line ! 0) = Fields line ! 0"
    using Fields_no_space TrimSpace_no_space by blast
  with sum(2) line(4) have "EqualFold (hex_text (ue_sha256 env archive)) (Fields line ! 0)"
    by (simp add: VerifySHA256_def)
  then have "verified_archive env release archive"
    unfolding verified_archive_def using a c dl line by (metis (no_types, lifting))
  with rd show ?thesis by blast
qed

lemma run_each_None:
  "run_each env cmd svcs log = (None, log') \<Longrightarrow> log' = log @ map cmd svcs"
  by (induction svcs arbitrary: log) (fastforce simp: run_command_def split: option.splits)+

lemma check_services_ok:
  "check_services env md log = (None, log') \<Longrightarrow>
     log' = log @ map restart_cmd (md_Services md) @ map active_cmd (md_Services md) @ [doctor_cmd (md_BinaryDir md)]
   \<and> ue_run env (log @ map restart_cmd (md_Services md) @ map active_cmd (md_Services md)) (doctor_cmd (md_BinaryDir md)) = None"
  by (auto simp: check_services_def run_command_def split: option.splits prod.splits dest!: run_each_None)

lemma drop_backups_other:
  "\<forall>n \<in> set ns. q \<noteq> backup_path dir n \<Longrightarrow>
     fold (\<lambda>n. remove_file (flt n) (backup_path dir n)) ns fs q = fs q"
  by (induction ns arbitrary: fs) (auto simp: remove_file_other)


lemma InstallAll_verified:
  assumes "InstallAll env release md st = (st', r)"
  shows "(st' = st \<and> r \<noteq> None) \<or>
    (ue_root env \<and> (\<exists>archive files. verified_archive env release archive \<and> read_binaries env archive = Inr files
       \<and> verified_binaries env release = Inr files))"
  using assms verified_binaries_verified [of env release]
  by (auto simp: InstallAll_def split: if_splits sum.splits)

lemma InstallAll_done:
  assumes "InstallAll env release md st = (st', None)" "verified_binaries env release = Inr files"
    "IsAbs (md_BinaryDir md)"
  shows "(\<forall>n \<in> set binary_names. up_files st' (target_path (md_BinaryDir md) n) = Some (entry_data files n, 0x1ED))
    \<and> (\<forall>q. q \<notin> (\<Union>n \<in> set binary_names. round_paths env (md_BinaryDir md) n) \<longrightarrow> up_files st' q = up_files st q)
    \<and> up_log st' = up_log st @ map restart_cmd (md_Services md) @ map active_cmd (md_Services md)
                     @ [doctor_cmd (md_BinaryDir md)]"
proof -
  let ?dir = "md_BinaryDir md"
  let ?p0 = "\<lparr>pg_backups = [], pg_installed = [], pg_files = up_files st\<rparr>"
  obtain err p where lp: "install_loop env ?dir files binary_names ?p0 = (err, p)"
    by (cases "install_loop env ?dir files binary_names ?p0")
  obtain serr log where sv: "check_services env md (up_log st) = (serr, log)"
    by (cases "check_services env md (up_log st)")
  have none: "err = None" "serr = None"
    using assms lp sv by (auto simp: InstallAll_def rollback_def Let_def split: if_splits option.splits)
  have st': "st' = \<lparr>up_files = fold (\<lambda>n. remove_file (ue_fault env (OpDropBackup n)) (backup_path ?dir n))
                   (pg_backups p) (pg_files p), up_log = log\<rparr>"
    using assms lp sv none by (auto simp: InstallAll_def Let_def split: if_splits)
  have dn: "distinct binary_names" by (simp add: binary_names_def)
  note placed = install_loop_done [OF lp [unfolded none] assms(3) order.refl dn]
  have bk: "pg_backups p = binary_names" using placed by simp
  have "up_files st' (target_path ?dir n) = Some (entry_data files n, 0x1ED)" if n: "n \<in> set binary_names" for n
  proof -
    have "up_files st' (target_path ?dir n) = pg_files p (target_path ?dir n)"
      unfolding st' by (simp only: up_state.simps, rule drop_backups_other)
        (use bk update_paths_apart(3) [OF assms(3) n] in auto)
    with placed n show ?thesis by (simp add: replaced_def)
  qed
  moreover have "up_files st' q = up_files st q"
    if q: "q \<notin> (\<Union>n \<in> set binary_names. round_paths env ?dir n)" for q
  proof -
    have "up_files st' q = pg_files p q"
      unfolding st' by (simp only: up_state.simps, rule drop_backups_other) (use bk q in \<open>auto simp: round_paths_def\<close>)
    with install_loop_frame [OF lp assms(3) order.refl q] show ?thesis by simp
  qed
  moreover have "up_log st' = up_log st @ map restart_cmd (md_Services md) @ map active_cmd (md_Services md) @ [doctor_cmd ?dir]"
    using check_services_ok [OF sv [unfolded none]] by (simp add: st')
  ultimately show ?thesis by blast
qed

lemma rollback_restores:
  assumes "IsAbs dir" "set ns \<subseteq> set binary_names" "distinct ns"
    "\<forall>n \<in> set ns. replaced dir files fs fs1 n" "\<forall>n \<in> set ns. ue_fault env (OpUndoRename n) = None"
  shows "\<forall>n \<in> set ns. untouched dir fs (fold (undo_one env dir) ns fs1) n"
    and "n \<in> set binary_names \<Longrightarrow> n \<notin> set ns \<Longrightarrow>
           fold (undo_one env dir) ns fs1 (target_path dir n) = fs1 (target_path dir n)
         \<and> fold (undo_one env dir) ns fs1 (backup_path dir n) = fs1 (backup_path dir n)"
proof -
  have bk: "\<forall>n \<in> set ns. ue_fault env (OpUndoRename n) = None \<and> fs1 (backup_path dir n) \<noteq> None"
    using assms(4,5) by (simp add: replaced_def)
  note u = undo_all [OF assms(1,2,3) bk]
  show "\<forall>n \<in> set ns. untouched dir fs (fold (undo_one env dir) ns fs1) n"
    using u assms(4) by (simp add: untouched_def replaced_def)
  assume n: "n \<in> set binary_names" "n \<notin> set ns"
  have "\<forall>m \<in> set ns. target_path dir n \<noteq> target_path dir m \<and> target_path dir n \<noteq> backup_path dir m"
    "\<forall>m \<in> set ns. backup_path dir n \<noteq> target_path dir m \<and> backup_path dir n \<noteq> backup_path dir m"
    using n assms(2) update_paths_apart [OF assms(1) n(1)] update_paths_apart(4) [OF assms(1) _ n(1)] by blast+
  with u show "fold (undo_one env dir) ns fs1 (target_path dir n) = fs1 (target_path dir n)
         \<and> fold (undo_one env dir) ns fs1 (backup_path dir n) = fs1 (backup_path dir n)" by blast
qed

lemma InstallAll_failed:
  assumes "InstallAll env release md st = (st', Some e)" "IsAbs (md_BinaryDir md)"
    "\<forall>n \<in> set binary_names. ue_fault env (OpUndoRename n) = None"
  shows "\<exists>bad \<in> set binary_names. \<forall>n \<in> set binary_names.
           untouched (md_BinaryDir md) (up_files st) (up_files st') n
         \<or> n = bad \<and> only_backup (md_BinaryDir md) (up_files st) (up_files st') n"
proof -
  let ?dir = "md_BinaryDir md"
  show ?thesis
  proof (cases "\<not> ue_root env \<or> is_err (verified_binaries env release)")
    case True
    then have "st' = st" using assms(1) by (auto simp: InstallAll_def split: sum.splits if_splits)
    then show ?thesis by (auto simp: untouched_def binary_names_def)
  next
    case False
    then obtain files where vb: "verified_binaries env release = Inr files" and root: "ue_root env"
      by (auto simp: is_ok_iff)
    let ?p0 = "\<lparr>pg_backups = [], pg_installed = [], pg_files = up_files st\<rparr>"
    obtain err p where lp: "install_loop env ?dir files binary_names ?p0 = (err, p)"
      by (cases "install_loop env ?dir files binary_names ?p0")
    have fs': "up_files st' = fold (undo_one env ?dir) (pg_installed p) (pg_files p)"
      using assms(1) vb root lp
      by (auto simp: InstallAll_def rollback_def Let_def split: option.splits prod.splits)
    have dn: "distinct binary_names" by (simp add: binary_names_def)
    show ?thesis
    proof (cases err)
      case None
      from install_loop_done [OF lp [unfolded None] assms(2) order.refl dn] have
        "pg_installed p = binary_names" "\<forall>n \<in> set binary_names. replaced ?dir files (up_files st) (pg_files p) n" by simp_all
      with rollback_restores(1) [OF assms(2) order.refl dn _ assms(3), of files "up_files st" "pg_files p"] fs'
      show ?thesis by (auto simp: binary_names_def)
    next
      case (Some e')
      from install_loop_stopped [OF lp [unfolded Some] assms(2) order.refl dn] obtain before bad after where
        s: "binary_names = before @ bad # after" "pg_installed p = before"
        and b: "\<forall>n \<in> set before. replaced ?dir files (up_files st) (pg_files p) n"
        and d: "untouched ?dir (up_files st) (pg_files p) bad \<or> only_backup ?dir (up_files st) (pg_files p) bad"
        and a: "\<forall>n \<in> set after. untouched ?dir (up_files st) (pg_files p) n" by auto
      have sub: "set before \<subseteq> set binary_names" "distinct before" "bad \<notin> set before" "set after \<inter> set before = {}"
        using dn unfolding s(1) by auto
      have fl: "\<forall>n \<in> set before. ue_fault env (OpUndoRename n) = None" using assms(3) sub(1) by blast
      note rr = rollback_restores [OF assms(2) sub(1,2) b fl, folded s(2), folded fs']
      have "untouched ?dir (up_files st) (up_files st') n" if "n \<in> set after" for n
      proof -
        have "n \<in> set binary_names" "n \<notin> set before" using that sub(4) unfolding s(1) by auto
        with rr(2) [of n] a that s(2) show ?thesis by (simp add: untouched_def)
      qed
      moreover have "untouched ?dir (up_files st) (up_files st') bad \<or> only_backup ?dir (up_files st) (up_files st') bad"
      proof -
        have "bad \<in> set binary_names" unfolding s(1) by simp
        with rr(2) [of bad] d sub(3) s(2) show ?thesis by (simp add: untouched_def only_backup_def)
      qed
      ultimately show ?thesis using rr(1) unfolding s by (intro bexI [of _ bad]) auto
    qed
  qed
qed


text \<open>The single-binary installer does put the old binary back whenever it fails.\<close>

lemma Install_restores:
  assumes "Install env release bin True fs = (fs', Some e)" "ue_fault env (OpUndoRename []) = None"
    "bin \<noteq> temp_path (Dir bin) (ue_rand env [])" "bin @ ''.backup'' \<noteq> temp_path (Dir bin) (ue_rand env [])"
  shows "fs' bin = fs bin"
  using assms
  by (auto simp: Install_def Let_def create_temp_def rename_file_simps remove_file_other
      split: sum.splits option.splits if_splits prod.splits dest!: rename_file_err rename_file_ok)

section \<open>A concrete update\<close>

definition toy_release :: Release where
  "toy_release = \<lparr>rl_TagName = ''v0.5.0'', rl_Name = [], rl_Body = [],
     rl_Assets = [\<lparr>as_Name = ''infrapilot-linux-amd64'', as_URL = ''a''\<rparr>, \<lparr>as_Name = ''checksums.txt'', as_URL = ''c''\<rparr>]\<rparr>"

definition toy_up_env :: "(up_op \<Rightarrow> go_error option) \<Rightarrow> up_env" where
  "toy_up_env flt = \<lparr>ue_root = True, ue_arch = ''amd64'',
     ue_fetch = (\<lambda>u. Inr \<lparr>re_Status = 200, re_StatusText = ''200 OK'',
        re_Body = (if u = ''c'' then ''4b infrapilot-linux-amd64'' else ''archive''), re_ReadErr = None\<rparr>),
     ue_sha256 = (\<lambda>_. ''K''),
     ue_untar = (\<lambda>_. Inr (map (\<lambda>n. \<lparr>te_Path = n, te_Data = ''new'', te_ReadErr = None\<rparr>) binary_names, None)),
     ue_fault = flt, ue_rand = (\<lambda>_. 7), ue_partial = (\<lambda>_. []), ue_run = (\<lambda>_ _. None)\<rparr>"

definition toy_up_state :: up_state where
  "toy_up_state = \<lparr>up_files = [''/usr/local/bin/infrapilot'' \<mapsto> (''old'', 0x1ED),
      ''/usr/local/bin/infrapilot-agent'' \<mapsto> (''old'', 0x1ED), ''/usr/local/bin/infrapilot-web'' \<mapsto> (''old'', 0x1ED)],
     up_log = []\<rparr>"

text \<open>Placing the second binary fails.\<close>

definition place_fault :: "up_op \<Rightarrow> go_error option" where
  "place_fault op = (if op = OpPlace ''infrapilot-agent'' then Some (StdErr OtherOS ''no space left on device'') else None)"

lemma toy_names:
  "Base ''infrapilot'' = ''infrapilot''" "Base ''infrapilot-agent'' = ''infrapilot-agent''"
  "Base ''infrapilot-web'' = ''infrapilot-web''"
  "text_lines ''4b infrapilot-linux-amd64'' = [''4b infrapilot-linux-amd64'']"
  "Fields ''4b infrapilot-linux-amd64'' = [''4b'', ''infrapilot-linux-amd64'']"
  "TrimPrefix ''infrapilot-linux-amd64'' ''*'' = ''infrapilot-linux-amd64''"
  "VerifySHA256 (\<lambda>_. ''K'') x ''4b''"
  by code_simp+

lemma toy_verified:
  "verified_binaries (toy_up_env flt) toy_release =
     Inr [''infrapilot'' \<mapsto> ''new'', ''infrapilot-agent'' \<mapsto> ''new'', ''infrapilot-web'' \<mapsto> ''new'']"
  by (simp add: verified_binaries_def toy_up_env_def toy_release_def AssetName_def download_def read_limited_def
      read_binaries_def binary_names_def entry_data_def toy_names)

lemma toy_paths:
  "target_path ''/usr/local/bin'' ''infrapilot'' = ''/usr/local/bin/infrapilot''"
  "target_path ''/usr/local/bin'' ''infrapilot-agent'' = ''/usr/local/bin/infrapilot-agent''"
  "target_path ''/usr/local/bin'' ''infrapilot-web'' = ''/usr/local/bin/infrapilot-web''"
  "temp_path ''/usr/local/bin'' 7 = ''/usr/local/bin/.infrapilot-update-7''"
  by code_simp+

lemmas toy_install = InstallAll_def toy_verified default_metadata_def toy_up_state_def toy_paths backup_path_def
  binary_names_def entry_data_def install_round_def place_binary_def create_temp_def rename_file_def remove_file_def
  check_services_def run_command_def rollback_def undo_one_def place_fault_def Let_def

lemma toy_root: "ue_root (toy_up_env flt)" "ue_fault (toy_up_env flt) = flt" "ue_run (toy_up_env flt) = (\<lambda>_ _. None)"
  "ue_rand (toy_up_env flt) = (\<lambda>_. 7)" "ue_partial (toy_up_env flt) = (\<lambda>_. [])"
  by (simp_all add: toy_up_env_def)

lemma toy_update_ok: "snd (InstallAll (toy_up_env (\<lambda>_. None)) toy_release default_metadata toy_up_state) = None"
  by (simp add: toy_install toy_root)

lemma toy_update_fails: "snd (InstallAll (toy_up_env place_fault) toy_release default_metadata toy_up_state) \<noteq> None"
  by (simp add: toy_install toy_root)

lemma default_dir_abs: "IsAbs (md_BinaryDir default_metadata)"
  by (simp add: default_metadata_def)


section \<open>Properties\<close>

text \<open>
  An update either reports an error and leaves the machine as it was, or works from an archive the release
  publishes for this machine and whose SHA-256 the release's checksum list names. When it reports no
  error, the three binaries are the archive's with mode 0755, no file other than the binaries, their
  backups and the temporary files has changed, and every service was restarted, then found active, before
  the new binary's own checks ran.
\<close>

theorem update_installs_verified_release:
  assumes "InstallAll env release md st = (st', r)" "IsAbs (md_BinaryDir md)"
  shows "(st' = st \<and> r \<noteq> None) \<or>
    (\<exists>archive files. verified_archive env release archive \<and> read_binaries env archive = Inr files \<and>
      (r = None \<longrightarrow>
         (\<forall>n \<in> set binary_names. up_files st' (target_path (md_BinaryDir md) n) = Some (entry_data files n, 0x1ED))
       \<and> (\<forall>q. q \<notin> (\<Union>n \<in> set binary_names. round_paths env (md_BinaryDir md) n) \<longrightarrow> up_files st' q = up_files st q)
       \<and> up_log st' = up_log st @ map restart_cmd (md_Services md) @ map active_cmd (md_Services md)
                        @ [doctor_cmd (md_BinaryDir md)]))"
proof -
  from InstallAll_verified [OF assms(1)] show ?thesis
  proof
    assume "ue_root env \<and> (\<exists>archive files. verified_archive env release archive
      \<and> read_binaries env archive = Inr files \<and> verified_binaries env release = Inr files)"
    then obtain archive files where "verified_archive env release archive" "read_binaries env archive = Inr files"
      "verified_binaries env release = Inr files" by blast
    with InstallAll_done [of env release md st st' files] assms show ?thesis by blast
  qed blast
qed

theorem update_installs_verified_release_witness:
  "\<exists>st' archive. InstallAll (toy_up_env (\<lambda>_. None)) toy_release default_metadata toy_up_state = (st', None)
     \<and> verified_archive (toy_up_env (\<lambda>_. None)) toy_release archive"
proof -
  let ?r = "InstallAll (toy_up_env (\<lambda>_. None)) toy_release default_metadata toy_up_state"
  have eq: "?r = (fst ?r, None)" using toy_update_ok by (simp add: prod_eq_iff)
  from update_installs_verified_release [OF eq default_dir_abs] eq show ?thesis by (metis (no_types, lifting))
qed

text \<open>
  C18. A failed update is rolled back, as long as renaming backups works: whatever other call or command failed,
  every binary is as it was before, except possibly one, which then is missing from its place and only
  in its backup. The exception is the binary whose replacement failed: the rollback visits only the
  binaries already replaced.
\<close>

theorem failed_update_rolls_back:
  assumes "InstallAll env release md st = (st', Some e)" "IsAbs (md_BinaryDir md)"
    "\<forall>n \<in> set binary_names. ue_fault env (OpUndoRename n) = None"
  shows "\<exists>bad \<in> set binary_names. \<forall>n \<in> set binary_names.
           untouched (md_BinaryDir md) (up_files st) (up_files st') n
         \<or> n = bad \<and> only_backup (md_BinaryDir md) (up_files st) (up_files st') n"
  using assms by (rule InstallAll_failed)

theorem failed_update_rolls_back_witness:
  "\<exists>st' e. InstallAll (toy_up_env place_fault) toy_release default_metadata toy_up_state = (st', Some e)
     \<and> (\<exists>bad \<in> set binary_names. \<forall>n \<in> set binary_names.
           untouched ''/usr/local/bin'' (up_files toy_up_state) (up_files st') n
         \<or> n = bad \<and> only_backup ''/usr/local/bin'' (up_files toy_up_state) (up_files st') n)"
proof -
  let ?r = "InstallAll (toy_up_env place_fault) toy_release default_metadata toy_up_state"
  obtain e where eq: "?r = (fst ?r, Some e)" using toy_update_fails by (auto simp: prod_eq_iff)
  have "\<forall>n \<in> set binary_names. ue_fault (toy_up_env place_fault) (OpUndoRename n) = None"
    by (simp add: toy_root place_fault_def)
  from failed_update_rolls_back [OF eq default_dir_abs this] eq show ?thesis
    by (auto simp: default_metadata_def)
qed

text \<open>The exception happens: after this failed update the Agent's binary is gone from its place.\<close>

lemma rollback_leaves_binary_missing:
  "up_files (fst (InstallAll (toy_up_env place_fault) toy_release default_metadata toy_up_state))
     ''/usr/local/bin/infrapilot-agent'' = None"
  by (simp add: toy_install toy_root)

text \<open>
  C19. The version comparison is the lexicographic order of the three leading numbers, absent ones counting as
  zero; so what an update offers always lies above what is installed, and no chain of offered updates
  comes back to a version.
\<close>

theorem compare_is_lexicographic:
  "(Compare a b < 0 \<longleftrightarrow> ord_class.lexordp (version_key a) (version_key b))
   \<and> (Compare a b = 0 \<longleftrightarrow> version_key a = version_key b)
   \<and> (versions.offered a rs \<longrightarrow> distinct rs \<and> a \<notin> set rs)"
proof -
  have "compare_parts pa pb is < 0 \<longleftrightarrow> ord_class.lexordp (map (version_part pa) is) (map (version_part pb) is)" for pa pb "is"
    by (induction "is") (auto simp: Let_def)
  then show ?thesis
    using Compare_zero_iff versions.offered_distinct by (auto simp: Compare_def version_key_def)
qed


theorem compare_is_lexicographic_witness:
  "distinct [''v0.5.0'', ''v0.6'', ''v1.0.0''] \<and> ''0.4.1'' \<notin> set [''v0.5.0'', ''v0.6'', ''v1.0.0'']"
proof -
  have "Compare ''0.4.1'' ''v0.5.0'' = -1" "Compare ''v0.5.0'' ''v0.6'' = -1" "Compare ''v0.6'' ''v1.0.0'' = -1"
    by code_simp+
  then have "versions.offered ''0.4.1'' [''v0.5.0'', ''v0.6'', ''v1.0.0'']" by simp
  with compare_is_lexicographic [of "''0.4.1''" "''0.4.1''" "[''v0.5.0'', ''v0.6'', ''v1.0.0'']"] show ?thesis by blast
qed

end
