(* ===== verification/Cli_Manage.thy ===== *)
theory Cli_Manage
  imports Cli_Identity Update
begin

text \<open>
  The commands that manage services and the installation: \<open>internal/cli/service.go\<close> over the service manager
  (\<open>Services\<close>) and \<open>internal/cli/update.go\<close> over the updater (\<open>Update\<close>), with the reading of confirmations.
\<close>

section \<open>Confirmations\<close>

text \<open>
  The standard input is the list of what its reads give. \<open>bufio.NewReader(in).ReadString\<close> takes reads until one
  holds a newline; the bytes behind the newline stay in the buffer of that reader and are lost with it. At the end
  of the input it gives what there was.
\<close>

type_synonym reads = "string list"

fun read_line :: "reads \<Rightarrow> string \<times> reads" where
  "read_line [] = ([], [])"
| "read_line (c # cs) =
     (if CHR 0x0A \<in> set c then (takeWhile (\<lambda>x. x \<noteq> CHR 0x0A) c @ newline, cs)
      else (case read_line cs of (l, rest) \<Rightarrow> (c @ l, rest)))"

section \<open>Services\<close>

definition service_usage :: "string \<Rightarrow> go_error" where
  "service_usage msg = New KindUsage ''cli.service'' msg"

definition past_tense :: "string \<Rightarrow> string" where
  "past_tense a =
     (if a = ''start'' then ''started'' else if a = ''stop'' then ''stopped'' else if a = ''restart'' then ''restarted''
      else if a = ''enable'' then ''enabled'' else if a = ''disable'' then ''disabled'' else [])"

definition service_verb :: "'m Backend \<Rightarrow> string \<Rightarrow> string \<Rightarrow> 'm \<Rightarrow> 'm \<times> go_error option" where
  "service_verb B a name =
     (if a = ''start'' then Manager_Start B name else if a = ''stop'' then Manager_Stop B name
      else if a = ''restart'' then Manager_Restart B name else if a = ''enable'' then Manager_Enable B name
      else Manager_Disable B name)"

definition service_list :: "'m Backend \<Rightarrow> 'm \<Rightarrow> 'm cli_result" where
  "service_list B m =
     (case Manager_List B m of (m', Inl e) \<Rightarrow> (m', [], Some e) | (m', Inr items) \<Rightarrow> (m', writeServices items, None))"

definition service_status :: "'m Backend \<Rightarrow> string \<Rightarrow> 'm \<Rightarrow> 'm cli_result" where
  "service_status B name m =
     (case Manager_Status B name m of (m', Inl e) \<Rightarrow> (m', [], Some e) | (m', Inr item) \<Rightarrow> (m', writeService item, None))"

definition service_act :: "'m Backend \<Rightarrow> string \<Rightarrow> string \<Rightarrow> 'm \<Rightarrow> 'm cli_result" where
  "service_act B a name m =
     (case service_verb B a name m of
        (m', Some e) \<Rightarrow> (m', [], Some e)
      | (m', None) \<Rightarrow> (m', ''Service '' @ name @ '' '' @ past_tense a @ newline, None))"

definition service_logs :: "'m Backend \<Rightarrow> string \<Rightarrow> int \<Rightarrow> 'm \<Rightarrow> 'm cli_result" where
  "service_logs B name lines m =
     (case Manager_Logs B name lines m of
        (m', Inl e) \<Rightarrow> (m', [], Some e)
      | (m', Inr logs) \<Rightarrow> (m', logs @ (if HasSuffix logs newline then [] else newline), None))"

definition logs_usage :: go_error where
  "logs_usage = service_usage ''usage: infrapilot service logs <service> [--lines N]''"

definition runService :: "'m Backend \<Rightarrow> string list \<Rightarrow> 'm \<Rightarrow> 'm cli_result" where
  "runService B args m =
     (case args of
        [] \<Rightarrow> (m, [], Some (service_usage ''service subcommand is required''))
      | sub # rest \<Rightarrow>
          if sub = ''list'' then
            (if rest \<noteq> [] then (m, [], Some (service_usage ''service list takes no arguments''))
             else service_list B m)
          else if sub = ''status'' then
            (case rest of
               [name] \<Rightarrow> service_status B name m
             | _ \<Rightarrow> (m, [], Some (service_usage ''usage: infrapilot service status <service>'')))
          else if sub \<in> {''start'', ''stop'', ''restart'', ''enable'', ''disable''} then
            (case rest of
               [name] \<Rightarrow> service_act B sub name m
             | _ \<Rightarrow> (m, [], Some (service_usage (''usage: infrapilot service '' @ sub @ '' <service>''))))
          else if sub = ''logs'' then
            (case rest of
               [name] \<Rightarrow> service_logs B name 50 m
             | [name, flag, num] \<Rightarrow>
                 if flag = ''--lines''
                 then (case Atoi num of None \<Rightarrow> (m, [], Some (New KindValidation ''cli.service'' ''lines must be a number''))
                       | Some n \<Rightarrow> service_logs B name n m)
                 else (m, [], Some logs_usage)
             | _ \<Rightarrow> (m, [], Some logs_usage))
          else (m, [], Some (service_usage (''unknown service subcommand '' @ Quote sub))))"

section \<open>Updates\<close>

record update_input =
  ui_env :: up_env
  ui_files :: "string \<Rightarrow> go_error + bytes"
  ui_links :: "string \<Rightarrow> string"
  ui_executable :: "go_error + string"

definition show_bool :: "bool \<Rightarrow> string" where
  "show_bool b = (if b then ''true'' else ''false'')"

definition update_error :: "Kind \<Rightarrow> string \<Rightarrow> go_error" where
  "update_error k msg = New k ''cli.update'' msg"

definition update_usage :: string where
  "update_usage = ''infrapilot update [status|--check|--yes]''"

definition version_lines :: "Release \<Rightarrow> string" where
  "version_lines r =
     ''Current version: '' @ Version @ newline @ ''Latest version: '' @ rl_TagName r @ newline
     @ ''Update available: '' @ show_bool (Compare Version (rl_TagName r) < 0) @ newline"

text \<open>What follows the confirmation.\<close>

definition install_update :: "update_input \<Rightarrow> Release \<Rightarrow> up_state \<Rightarrow> up_state cli_result" where
  "install_update ui release st =
     (case ui_executable ui of Inl e \<Rightarrow> (st, [], Some e)
      | Inr executable \<Rightarrow>
          (case Detect (ui_files ui) (ui_links ui) MetadataPath executable of
             Inl e \<Rightarrow> (st, [], Some (wrap_err KindUnsupported ''cli.update'' ''cannot update this installation'' e))
           | Inr md \<Rightarrow>
               (case InstallAll (ui_env ui) release md st of
                  (st', Some e) \<Rightarrow> (st', [], Some (wrap_err KindInternal ''cli.update'' ''installation failed'' e))
                | (st', None) \<Rightarrow> (st', ''InfraPilot updated to '' @ rl_TagName release @ ''.'' @ newline, None))))"

definition runUpdate :: "update_input \<Rightarrow> cli_env \<Rightarrow> reads option \<Rightarrow> string list \<Rightarrow> up_state \<Rightarrow> up_state cli_result" where
  "runUpdate ui env inp args st =
     (let first = (case args of [] \<Rightarrow> [] | a # _ \<Rightarrow> a) in
      if args \<noteq> [] \<and> first = ''--help'' then (st, ''Usage: '' @ update_usage @ newline, None)
      else if \<not> ud_Enabled (cf_Update (de_Config env))
      then (st, [], Some (update_error KindPermission ''updates are disabled; enable update.enabled in configuration''))
      else (case latest (ui_env ui) [] of
        Inl e \<Rightarrow> (st, [], Some (wrap_err KindInternal ''cli.update'' ''unable to check releases'' e))
      | Inr release \<Rightarrow>
          if args \<noteq> [] \<and> first = ''status'' then (st, version_lines release, None)
          else if args \<noteq> [] \<and> (first = ''check'' \<or> first = ''--check'')
          then (st, version_lines release @ ''Changelog:'' @ newline @ rl_Body release @ newline, None)
          else if 0 \<le> Compare Version (rl_TagName release) then (st, ''InfraPilot is up to date.'' @ newline, None)
          else
            (let yes = (args \<noteq> [] \<and> first = ''--yes'');
                 asked = ''Update available: '' @ rl_TagName release @ newline @ rl_Body release @ newline
                         @ (if yes then [] else ''Type YES to install: '')
             in if \<not> yes \<and> inp = None
                then (st, asked, Some (update_error KindPermission ''confirmation input is unavailable''))
                else if TrimSpace (if yes then ''YES'' else fst (read_line (the inp))) \<noteq> ''YES''
                then (st, asked, Some (update_error KindPermission ''update cancelled''))
                else if args \<noteq> [] \<and> first \<noteq> ''--yes''
                then (st, asked, Some (update_error KindUsage (''usage: '' @ update_usage)))
                else (case install_update ui release st of (st', out, err) \<Rightarrow> (st', asked @ out, err)))))"

section \<open>What the commands change\<close>

lemma read_line_one: "CHR 0x0A \<notin> set l \<Longrightarrow> read_line ((l @ CHR 0x0A # rest) # cs) = (l @ newline, cs)"
  by (auto simp: takeWhile_append)

lemma length_read_line: "length (snd (read_line cs)) \<le> length cs"
  by (induction cs rule: read_line.induct) (auto split: prod.splits)

definition verb_op :: "string \<Rightarrow> string \<Rightarrow> service_call" where
  "verb_op a name =
     (if a = ''start'' then StartIt name else if a = ''stop'' then StopIt name
      else if a = ''restart'' then RestartIt name else if a = ''enable'' then EnableIt name else DisableIt name)"

lemma service_verb_op: "fst (service_verb B a name m) = manager_op B (verb_op a name) m"
  by (simp add: service_verb_def verb_op_def)

lemma service_ops:
  "fst (service_list B m) = manager_op B ListAll m"
  "fst (service_status B name m) = manager_op B (StatusOf name) m"
  "fst (service_act B a name m) = manager_op B (verb_op a name) m"
  "fst (service_logs B name n m) = manager_op B (LogsOf name n) m"
  by (auto simp: service_list_def service_status_def service_act_def service_logs_def
      simp flip: service_verb_op split: prod.splits sum.splits option.splits)

text \<open>A run of \<open>service\<close> makes one call of the manager, or none.\<close>

lemma runService_op: "fst (runService B args m) \<in> insert m (range (\<lambda>op. manager_op B op m))" (is "_ \<in> ?calls")
proof -
  have "fst (service_list B m) \<in> ?calls" "fst (service_status B name m) \<in> ?calls"
    "fst (service_act B a name m) \<in> ?calls" "fst (service_logs B name n m) \<in> ?calls" for a name n
    unfolding service_ops by (rule insertI2, rule rangeI)+
  moreover have "m \<in> ?calls" by simp
  ultimately show ?thesis
    unfolding runService_def by (simp del: insert_iff split: list.splits option.splits)
qed

text \<open>What an update has gone through before it changes anything.\<close>

definition update_consent :: "update_input \<Rightarrow> cli_env \<Rightarrow> reads option \<Rightarrow> string list \<Rightarrow> Release \<Rightarrow> bool" where
  "update_consent ui env inp args release \<longleftrightarrow>
     ud_Enabled (cf_Update (de_Config env)) \<and> latest (ui_env ui) [] = Inr release \<and> Compare Version (rl_TagName release) < 0
     \<and> (case args of [] \<Rightarrow> (\<exists>cs. inp = Some cs \<and> TrimSpace (fst (read_line cs)) = ''YES'') | a # _ \<Rightarrow> a = ''--yes'')"

lemma runUpdate_cases:
  assumes "runUpdate ui env inp args st = (st', out, err)"
  shows "(st' = st \<and> (err = None \<longrightarrow> \<not> (\<exists>release. update_consent ui env inp args release)))
    \<or> (\<exists>release asked o2. update_consent ui env inp args release \<and> install_update ui release st = (st', o2, err) \<and> out = asked @ o2)"
proof (cases "latest (ui_env ui) []")
  case (Inl e)
  with assms show ?thesis by (auto simp: runUpdate_def Let_def update_consent_def split: if_splits list.splits)
next
  case (Inr release)
  have yes: "TrimSpace ''YES'' = ''YES''" by code_simp
  obtain st2 o2 err2 where i: "install_update ui release st = (st2, o2, err2)" by (cases "install_update ui release st")
  show ?thesis
  proof (cases "update_consent ui env inp args release")
    case True
    then have "\<exists>asked. (st', out, err) = (st2, asked @ o2, err2)"
      using assms Inr i yes by (auto simp: runUpdate_def Let_def update_consent_def split: list.splits if_splits)
    with True i show ?thesis by blast
  next
    case False
    then have "st' = st" "\<not> (\<exists>r. update_consent ui env inp args r)"
      using assms Inr i yes
      by (auto simp: runUpdate_def Let_def update_consent_def split: list.splits if_splits)
    then show ?thesis by simp
  qed
qed


lemma install_update_done:
  assumes "install_update ui release st = (st', out, None)"
  shows "\<exists>exe md archive files. ui_executable ui = Inr exe \<and> Detect (ui_files ui) (ui_links ui) MetadataPath exe = Inr md
    \<and> verified_archive (ui_env ui) release archive \<and> read_binaries (ui_env ui) archive = Inr files
    \<and> (\<forall>n \<in> set binary_names. up_files st' (target_path (md_BinaryDir md) n) = Some (entry_data files n, 0x1ED))"
proof -
  obtain exe where x: "ui_executable ui = Inr exe" using assms by (auto simp: install_update_def split: sum.splits)
  obtain md where d: "Detect (ui_files ui) (ui_links ui) MetadataPath exe = Inr md"
    using assms x by (auto simp: install_update_def split: sum.splits)
  have i: "InstallAll (ui_env ui) release md st = (st', None)"
    using assms x d by (auto simp: install_update_def split: prod.splits option.splits)
  have "IsAbs (md_BinaryDir md)" using Detect_absolute [OF d] by simp
  from update_installs_verified_release [OF i this] x d show ?thesis by auto
qed

section \<open>Properties\<close>

text \<open>
  C37. \<open>infrapilot update\<close> changes the installation only when updates are enabled, the latest release is newer than
  this version, and \<open>--yes\<close> is the first argument or, with no argument, the first line of the input is YES. Asked so, it
  reports success only with the three binaries of an archive whose checksum the release lists in place.
\<close>

theorem update_asks_then_verifies:
  assumes "runUpdate ui env inp args st = (st', out, err)"
  shows "(st' \<noteq> st \<longrightarrow> (\<exists>release. update_consent ui env inp args release)) \<and>
    (\<forall>release. update_consent ui env inp args release \<and> err = None \<longrightarrow>
      (\<exists>exe md archive files. ui_executable ui = Inr exe \<and> Detect (ui_files ui) (ui_links ui) MetadataPath exe = Inr md
        \<and> verified_archive (ui_env ui) release archive \<and> read_binaries (ui_env ui) archive = Inr files
        \<and> (\<forall>n \<in> set binary_names. up_files st' (target_path (md_BinaryDir md) n) = Some (entry_data files n, 0x1ED))))"
proof (intro conjI allI impI)
  from runUpdate_cases [OF assms] show "\<exists>release. update_consent ui env inp args release" if "st' \<noteq> st" using that by blast
next
  fix release assume a: "update_consent ui env inp args release \<and> err = None"
  with runUpdate_cases [OF assms] obtain r asked o2 where
    r: "update_consent ui env inp args r" "install_update ui r st = (st', o2, None)" by auto
  have "r = release" using r(1) a by (auto simp: update_consent_def)
  with install_update_done [OF r(2)] show "\<exists>exe md archive files. ui_executable ui = Inr exe
      \<and> Detect (ui_files ui) (ui_links ui) MetadataPath exe = Inr md
      \<and> verified_archive (ui_env ui) release archive \<and> read_binaries (ui_env ui) archive = Inr files
      \<and> (\<forall>n \<in> set binary_names. up_files st' (target_path (md_BinaryDir md) n) = Some (entry_data files n, 0x1ED))" by simp
qed

definition release_text :: string where
  "release_text = Marshal (JObj [(''tag_name'', JStr ''v0.5.0''), (''assets'', JArr (map
     (\<lambda>(n, u). JObj [(''name'', JStr n), (''browser_download_url'', JStr u)])
     [(''infrapilot-linux-amd64'', ''a''), (''checksums.txt'', ''c'')]))])"

definition toy_update :: update_input where
  "toy_update = \<lparr>ui_env = (toy_up_env (\<lambda>_. None))\<lparr>ue_fetch := (\<lambda>u.
       if u = ''a'' \<or> u = ''c'' then ue_fetch (toy_up_env (\<lambda>_. None)) u
       else Inr \<lparr>re_Status = 200, re_StatusText = ''200 OK'', re_Body = release_text, re_ReadErr = None\<rparr>)\<rparr>,
     ui_files = (\<lambda>_. Inl no_file), ui_links = id, ui_executable = Inr ''/usr/local/bin/infrapilot''\<rparr>"

definition toy_updating :: cli_env where
  "toy_updating = toy_cli\<lparr>de_Config := (de_Config toy_cli)\<lparr>cf_Update := (cf_Update (de_Config toy_cli))\<lparr>ud_Enabled := True\<rparr>\<rparr>\<rparr>"

lemma toy_latest: "latest (ui_env toy_update) [] = Inr toy_release"
  by code_simp

lemma toy_newer: "Compare Version ''v0.5.0'' < 0" "TrimSpace ''YES'' = ''YES''"
  by code_simp+

lemma toy_consent: "update_consent toy_update toy_updating None [''--yes''] toy_release"
  using toy_latest toy_newer by (simp add: update_consent_def toy_updating_def toy_release_def)

lemma toy_update_verified: "verified_binaries (ui_env toy_update) toy_release =
    Inr [''infrapilot'' \<mapsto> ''new'', ''infrapilot-agent'' \<mapsto> ''new'', ''infrapilot-web'' \<mapsto> ''new'']"
  by (simp add: verified_binaries_def toy_update_def toy_up_env_def toy_release_def AssetName_def download_def read_limited_def
      read_binaries_def binary_names_def entry_data_def toy_names)

lemma toy_install_all: "snd (InstallAll (ui_env toy_update) toy_release default_metadata toy_up_state) = None"
proof -
  have "ue_root (ui_env toy_update)" "ue_fault (ui_env toy_update) = (\<lambda>_. None)" "ue_run (ui_env toy_update) = (\<lambda>_ _. None)"
    "ue_rand (ui_env toy_update) = (\<lambda>_. 7)" "ue_partial (ui_env toy_update) = (\<lambda>_. [])"
    by (simp_all add: toy_update_def toy_root)
  then show ?thesis by (simp add: toy_install toy_update_verified)
qed

lemma toy_update_runs: "\<exists>st' out. runUpdate toy_update toy_updating None [''--yes''] toy_up_state = (st', out, None)"
proof -
  obtain st' where i: "InstallAll (ui_env toy_update) toy_release default_metadata toy_up_state = (st', None)"
    using toy_install_all by (cases "InstallAll (ui_env toy_update) toy_release default_metadata toy_up_state") simp
  have "Detect (ui_files toy_update) (ui_links toy_update) MetadataPath ''/usr/local/bin/infrapilot'' = Inr default_metadata"
    by (simp add: Detect_def LoadMetadata_def toy_update_def)
  with i have "install_update toy_update toy_release toy_up_state = (st', ''InfraPilot updated to v0.5.0.'' @ newline, None)"
    by (simp add: install_update_def toy_release_def) (simp add: toy_update_def)
  then show ?thesis
    using toy_latest toy_newer by (simp add: runUpdate_def toy_updating_def toy_release_def Let_def)
qed

theorem update_asks_then_verifies_witness:
  "\<exists>st' out (md :: Metadata_t) archive. runUpdate toy_update toy_updating None [''--yes''] toy_up_state = (st', out, None)
     \<and> verified_archive (ui_env toy_update) toy_release archive
     \<and> up_files st' (target_path (md_BinaryDir md) ''infrapilot'') \<noteq> None"
proof -
  obtain st' out where r: "runUpdate toy_update toy_updating None [''--yes''] toy_up_state = (st', out, None)"
    using toy_update_runs by blast
  have n: "''infrapilot'' \<in> set binary_names" by (simp add: binary_names_def)
  from conjunct2 [OF update_asks_then_verifies [OF r], THEN spec, of toy_release] toy_consent
  obtain exe and md :: Metadata_t and archive files where
    v: "verified_archive (ui_env toy_update) toy_release archive"
    "\<forall>n \<in> set binary_names. up_files st' (target_path (md_BinaryDir md) n) = Some (entry_data files n, 0x1ED)" by blast
  from bspec [OF v(2) n] have "up_files st' (target_path (md_BinaryDir md) ''infrapilot'') \<noteq> None" by simp
  with r v(1) show ?thesis by blast
qed

end
