(* ===== verification/Cli_Web.thy ===== *)
theory Cli_Web
  imports Cli_Manage
begin

unbundle bit_operations_syntax

text \<open>
  The panel from the command line, \<open>internal/cli/web.go\<close> and \<open>internal/cli/web_setup.go\<close>: the service of the panel, the setup with
  its question, the public address and the saved bind address.
\<close>

section \<open>Addresses\<close>

text \<open>
  \<open>net.ParseIP\<close>, as far as it accepts a text. In a group of an IPv4 address: its value, its digits, and the groups
  before it.
\<close>

fun v4_groups :: "nat \<Rightarrow> nat \<Rightarrow> nat \<Rightarrow> string \<Rightarrow> bool" where
  "v4_groups val n pos [] \<longleftrightarrow> pos = 3"
| "v4_groups val n pos (c # s) \<longleftrightarrow>
     (if is_digit c
      then \<not> (n = 1 \<and> val = 0) \<and> val * 10 + (ord c - 48) \<le> 255 \<and> v4_groups (val * 10 + (ord c - 48)) (n + 1) pos s
      else c = CHR ''.'' \<and> 0 < n \<and> s \<noteq> [] \<and> pos \<noteq> 3 \<and> v4_groups 0 0 (pos + 1) s)"

definition is_hex :: "char \<Rightarrow> bool" where
  "is_hex c \<longleftrightarrow> is_digit c \<or> (97 \<le> ord c \<and> ord c \<le> 102) \<or> (65 \<le> ord c \<and> ord c \<le> 70)"

text \<open>The end of an IPv6 address with \<open>k\<close> groups to fill: an ellipsis stands for at least one group.\<close>

definition v6_end :: "nat \<Rightarrow> bool \<Rightarrow> bool" where
  "v6_end k ellipsis \<longleftrightarrow> ellipsis = (0 < k)"

fun v6_groups :: "nat \<Rightarrow> bool \<Rightarrow> string \<Rightarrow> bool" where
  "v6_groups 0 ellipsis s \<longleftrightarrow> s = [] \<and> \<not> ellipsis"
| "v6_groups (Suc k) ellipsis s \<longleftrightarrow>
     (let d = takeWhile is_hex s in
      d \<noteq> [] \<and> length d \<le> 4 \<and>
      (case dropWhile is_hex s of
         [] \<Rightarrow> v6_end k ellipsis
       | c # r \<Rightarrow>
           if c = CHR ''.'' then (ellipsis \<or> k = 1) \<and> 1 \<le> k \<and> v4_groups 0 0 0 s \<and> v6_end (k - 1) ellipsis
           else c = CHR '':'' \<and> r \<noteq> [] \<and>
             (if hd r = CHR '':'' then \<not> ellipsis \<and> (if tl r = [] then v6_end k True else v6_groups k True (tl r))
              else v6_groups k ellipsis r)))"

definition valid_v6 :: "string \<Rightarrow> bool" where
  "valid_v6 s \<longleftrightarrow> CHR ''%'' \<notin> set s \<and>
     (if HasPrefix s ''::'' then drop 2 s = [] \<or> v6_groups 8 True (drop 2 s) else v6_groups 8 False s)"

definition ParseIP_ok :: "string \<Rightarrow> bool" where
  "ParseIP_ok s \<longleftrightarrow>
     (case List.find (\<lambda>c. c \<in> {CHR ''.'', CHR '':'', CHR ''%''}) s of
        None \<Rightarrow> False
      | Some c \<Rightarrow> if c = CHR ''.'' then v4_groups 0 0 0 s else if c = CHR '':'' then valid_v6 s else False)"

section \<open>The machine of the panel commands\<close>

text \<open>
  A YAML value as the decoder gives it: a text, a map with text keys, or anything else. The codec is that of the YAML
  package: decoding may give a nil map.
\<close>

datatype yaml_value = YText string | YMap "string \<Rightarrow> yaml_value option" | YOther string

type_synonym yaml_map = "string \<Rightarrow> yaml_value option"

record yaml_codec =
  yc_Unmarshal :: "bytes \<Rightarrow> go_error + yaml_map option"
  yc_Marshal :: "yaml_map \<Rightarrow> go_error + bytes"

text \<open>
  \<open>we_run\<close> answers a command given those run before, \<open>we_fetch\<close> a GET with what the body gives, \<open>we_count\<close> the
  error of the count query, and \<open>we_write\<close> is the failure of a write with what the file then holds, if it was opened.
\<close>

record web_env =
  we_sk :: sk_env
  we_look :: "string \<Rightarrow> bool"
  we_run :: "command list \<Rightarrow> runner"
  we_fetch :: "string \<Rightarrow> go_error + bytes"
  we_yaml :: yaml_codec
  we_read :: "go_error option"
  we_mkdir :: "go_error option"
  we_write :: "(go_error \<times> bytes option) option"
  we_umask :: nat
  we_count :: "go_error option"

text \<open>The machine, the files with their permission bits, and the commands run on services and firewalls.\<close>

record web_state =
  wb_machine :: machine
  wb_files :: up_files
  wb_log :: "command list"

section \<open>The public address\<close>

definition ip_endpoints :: "string list" where
  "ip_endpoints = [''https://api.ipify.org'', ''https://ifconfig.me/ip'']"

fun first_address :: "(string \<Rightarrow> go_error + bytes) \<Rightarrow> string list \<Rightarrow> string" where
  "first_address fetch [] = []"
| "first_address fetch (u # us) =
     (case fetch u of Inl _ \<Rightarrow> first_address fetch us
      | Inr body \<Rightarrow>
          (let ip = TrimSpace (take 64 body) in if ParseIP_ok ip then ip else first_address fetch us))"

definition detectPublicIP :: "web_env \<Rightarrow> string" where
  "detectPublicIP we = first_address (we_fetch we) ip_endpoints"

definition publicIP :: "web_env \<Rightarrow> string" where
  "publicIP we = (let ip = detectPublicIP we in if ip = [] then ''unavailable'' else ip)"

section \<open>The saved address\<close>

text \<open>Assigning to an entry of a nil map panics.\<close>

definition set_bind :: "string \<Rightarrow> yaml_map \<Rightarrow> yaml_map" where
  "set_bind bind doc =
     (let web = (case doc ''web'' of Some (YMap m) \<Rightarrow> m | _ \<Rightarrow> Map.empty)
      in doc(''web'' \<mapsto> YMap (web(''bind_address'' \<mapsto> YText bind))))"

definition write_config :: "web_env \<Rightarrow> string \<Rightarrow> bytes \<Rightarrow> up_files \<Rightarrow> up_files \<times> go_error option" where
  "write_config we path data fs =
     (let mode = (case fs path of Some (_, m) \<Rightarrow> m | None \<Rightarrow> 0x1A0 - (0x1A0 AND we_umask we)) in
      case we_mkdir we of Some e \<Rightarrow> (fs, Some e)
      | None \<Rightarrow>
          (case we_write we of
             None \<Rightarrow> (fs(path \<mapsto> (data, mode)), None)
           | Some (e, None) \<Rightarrow> (fs, Some e)
           | Some (e, Some partial) \<Rightarrow> (fs(path \<mapsto> (partial, mode)), Some e)))"

text \<open>A file that cannot be read counts as empty.\<close>

definition read_root :: "web_env \<Rightarrow> string \<Rightarrow> up_files \<Rightarrow> go_error + yaml_map option" where
  "read_root we path fs =
     (case (we_read we, fs path) of
        (None, Some (data, _)) \<Rightarrow> if TrimSpace data \<noteq> [] then yc_Unmarshal (we_yaml we) data else Inr (Some Map.empty)
      | _ \<Rightarrow> Inr (Some Map.empty))"

definition saveBind :: "web_env \<Rightarrow> string \<Rightarrow> string \<Rightarrow> up_files \<Rightarrow> up_files \<times> go_error option call" where
  "saveBind we path bind fs =
     (case read_root we path fs of
        Inl e \<Rightarrow> (fs, Return (Some e))
      | Inr None \<Rightarrow> (fs, Panic ''assignment to entry in nil map'')
      | Inr (Some doc) \<Rightarrow>
          (case yc_Marshal (we_yaml we) (set_bind bind doc) of
             Inl e \<Rightarrow> (fs, Return (Some e))
           | Inr encoded \<Rightarrow> (case write_config we path encoded fs of (fs', r) \<Rightarrow> (fs', Return r))))"

section \<open>Setup\<close>

type_synonym web_result = "web_state \<times> string \<times> go_error option call"

definition web_port :: int where "web_port = 8090"

definition yesNo :: "bool \<Rightarrow> string" where
  "yesNo v = (if v then ''connected'' else ''not found'')"

definition agreed :: "string \<Rightarrow> bool" where
  "agreed line \<longleftrightarrow> EqualFold (TrimSpace line) ''y'' \<or> EqualFold (TrimSpace line) ''yes''"

definition firewall_rules :: "string \<Rightarrow> command list" where
  "firewall_rules detected =
     (if detected = ''ufw'' then [[''ufw'', ''allow'', ''8090/tcp'']]
      else if detected = ''firewalld''
      then [[''firewall-cmd'', ''--permanent'', ''--add-port=8090/tcp''], [''firewall-cmd'', ''--reload'']] else [])"

text \<open>
  The answers: the text of the questions, the address to bind, and the firewall commands. The second question has a
  reader of its own.
\<close>

definition ask_exposure :: "fw_info \<Rightarrow> reads \<Rightarrow> string \<times> string \<times> command list" where
  "ask_exposure fw inp =
     (let (line, rest) = read_line inp; asked = ''Expose Web Panel to network? (y/N): '' in
      if \<not> agreed line then (asked, ''127.0.0.1'', [])
      else if fw_Detected fw \<noteq> [] \<and> fw_Status fw = ''blocked''
      then (asked @ ''Port 8090 is blocked by firewall. Allow access? (y/N): '', ''0.0.0.0'',
            if agreed (fst (read_line rest)) then firewall_rules (fw_Detected fw) else [])
      else (asked, ''0.0.0.0'', []))"

definition setup_report :: "string \<Rightarrow> string \<Rightarrow> string" where
  "setup_report bind public =
     newline @ ''InfraPilot Web Setup Complete'' @ newline @ newline @ ''Authentication: Enabled'' @ newline
     @ ''Security: Ed25519 challenge-response'' @ newline
     @ ''Panel URL: http://'' @ (if bind = ''0.0.0.0'' \<and> public \<noteq> ''unavailable'' then public else ''127.0.0.1'')
     @ '':8090'' @ newline"

definition detected_firewall :: "web_env \<Rightarrow> web_state \<Rightarrow> fw_info" where
  "detected_firewall we st = DetectWith (we_look we) (we_run we (wb_log st)) web_port"

definition runWebSetup :: "web_env \<Rightarrow> cli_env \<Rightarrow> reads option \<Rightarrow> web_state \<Rightarrow> web_result" where
  "runWebSetup we env inp st =
     (let title = ''InfraPilot Web Setup'' @ newline in
      case inp of None \<Rightarrow> (st, title, Return (Some (StdErr OtherOS ''interactive confirmation is required'')))
      | Some cs \<Rightarrow>
          (let dir = identityDir env;
               identityOK = is_ok (Load dir (sk_files (we_sk we)) (m_id (wb_machine st) dir));
               fw = detected_firewall we st;
               public = publicIP we;
               (asked, bind, rules) = ask_exposure fw cs;
               out = title @ ''Device identity: '' @ yesNo identityOK @ newline
                     @ ''Firewall: '' @ fw_Detected fw @ '' ('' @ fw_Status fw @ '')'' @ newline
                     @ ''Public address: '' @ public @ newline @ asked;
               st1 = st\<lparr>wb_log := wb_log st @ rules\<rparr>
           in case saveBind we (ConfigFile (de_Paths env)) bind (wb_files st1) of
                (fs, Panic p) \<Rightarrow> (st1\<lparr>wb_files := fs\<rparr>, out, Panic p)
              | (fs, Return (Some e)) \<Rightarrow> (st1\<lparr>wb_files := fs\<rparr>, out, Return (Some e))
              | (fs, Return None) \<Rightarrow>
                  (st1\<lparr>wb_files := fs, wb_log := fst (Restart_web (we_run we (wb_log st1)) (wb_log st1))\<rparr>,
                   out @ setup_report bind public, Return None)))"

section \<open>The subcommands\<close>

definition web_usage :: "string \<Rightarrow> go_error" where
  "web_usage msg = New KindUsage ''cli.web'' msg"

definition DefaultAddress :: string where "DefaultAddress = ''127.0.0.1:8090''"

text \<open>An action of the manager, with what is printed when it worked.\<close>

definition web_act ::
  "(runner \<Rightarrow> command list \<Rightarrow> command list \<times> go_error option) \<Rightarrow> web_env \<Rightarrow> string \<Rightarrow> web_state \<Rightarrow> web_result" where
  "web_act f we done_text st =
     (case f (we_run we (wb_log st)) (wb_log st) of
        (lg, Some e) \<Rightarrow> (st\<lparr>wb_log := lg\<rparr>, [], Return (Some e))
      | (lg, None) \<Rightarrow> (st\<lparr>wb_log := lg\<rparr>, done_text, Return None))"

text \<open>The number of active devices, \<open>unknown\<close> without the database, and 0 when the query fails.\<close>

definition active_devices :: "go_error option \<Rightarrow> world \<Rightarrow> nat" where
  "active_devices fault w =
     (case sf_identity (file_of (w_disk w)) of
        None \<Rightarrow> 0
      | Some d \<Rightarrow> if fault = None then length (filter (\<lambda>r. dr_status r = ''active'') (db_devices d)) else 0)"

definition paired_text :: "web_env \<Rightarrow> cli_env \<Rightarrow> machine \<Rightarrow> machine \<times> string" where
  "paired_text we env m =
     (case openIdentityDB (sk_open (we_sk we)) env (m_world m) of
        (w, Inl _) \<Rightarrow> (m\<lparr>m_world := w\<rparr>, ''unknown'')
      | (w, Inr h) \<Rightarrow> (m\<lparr>m_world := close_db h w\<rparr>, show_nat (active_devices (we_count we) w)))"

definition web_status :: "web_env \<Rightarrow> cli_env \<Rightarrow> web_state \<Rightarrow> web_result" where
  "web_status we env st =
     (case Status_web (we_run we (wb_log st)) (wb_log st) of
        (lg, v, Some e) \<Rightarrow> (st\<lparr>wb_log := lg\<rparr>, [], Return (Some e))
      | (lg, v, None) \<Rightarrow>
          (let st1 = st\<lparr>wb_log := lg\<rparr>; fw = detected_firewall we st1;
               bind = (if cf_BindAddress (de_Config env) \<noteq> [] then cf_BindAddress (de_Config env) else ''127.0.0.1'');
               (m, paired) = paired_text we env (wb_machine st)
           in (st1\<lparr>wb_machine := m\<rparr>,
               ''InfraPilot Web'' @ newline @ newline @ ''Service: '' @ TrimSpace v @ newline
               @ ''Local: http://127.0.0.1:8090'' @ newline @ ''Public: http://'' @ publicIP we @ '':8090'' @ newline
               @ ''Binding: '' @ bind @ newline @ ''Authentication: Enabled'' @ newline
               @ ''Paired Devices: '' @ paired @ newline @ ''Session Timeout: 15 minutes'' @ newline
               @ ''Firewall: '' @ fw_Detected fw @ '' ('' @ fw_Status fw @ '')'' @ newline
               @ ''Web Port: '' @ Itoa (fw_Port fw) @ newline, Return None)))"

definition web_logs :: "web_env \<Rightarrow> web_state \<Rightarrow> web_result" where
  "web_logs we st =
     (case Logs_web (we_run we (wb_log st)) (wb_log st) of
        (lg, v, Some e) \<Rightarrow> (st\<lparr>wb_log := lg\<rparr>, [], Return (Some e))
      | (lg, v, None) \<Rightarrow> (st\<lparr>wb_log := lg\<rparr>, v, Return None))"

definition start_usage :: string where
  "start_usage = ''usage: infrapilot web start [background]''"

definition runWeb :: "web_env \<Rightarrow> cli_env \<Rightarrow> reads option \<Rightarrow> string list \<Rightarrow> web_state \<Rightarrow> web_result" where
  "runWeb we env inp args st =
     (let refuse = (\<lambda>msg. (st, [], Return (Some (web_usage msg)))) in
      case args of
        [] \<Rightarrow> refuse ''web subcommand is required''
      | sub # rest \<Rightarrow>
          if sub = ''setup'' then (if rest \<noteq> [] then refuse ''web setup takes no arguments'' else runWebSetup we env inp st)
          else if sub = ''start'' then
            (case rest of
               [] \<Rightarrow> web_act Start_web we (''InfraPilot Web started'' @ newline @ ''Address: http://'' @ DefaultAddress @ newline) st
             | [mode] \<Rightarrow>
                 if mode \<noteq> ''background'' then refuse (''unknown web start mode '' @ Quote mode)
                 else web_act Start_web we (''InfraPilot Web started in background'' @ newline @ ''Service: running'' @ newline) st
             | _ \<Rightarrow> refuse start_usage)
          else if sub = ''stop'' then
            (if rest \<noteq> [] then refuse ''web stop takes no arguments'' else web_act Stop_web we (''InfraPilot Web stopped'' @ newline) st)
          else if sub = ''restart'' then
            (if rest \<noteq> [] then refuse ''web restart takes no arguments''
             else web_act Restart_web we (''InfraPilot Web restarted'' @ newline) st)
          else if sub = ''enable'' \<or> sub = ''disable'' then
            (if rest \<noteq> [] then refuse (''web '' @ sub @ '' takes no arguments'')
             else web_act (if sub = ''enable'' then Enable_web else Disable_web) we (''InfraPilot Web '' @ sub @ ''ed'' @ newline) st)
          else if sub = ''status'' then
            (if rest \<noteq> [] then refuse ''web status takes no arguments'' else web_status we env st)
          else if sub = ''url'' then
            (if rest \<noteq> [] then refuse ''web url takes no arguments''
             else (st, ''InfraPilot Web Panel'' @ newline @ newline @ ''Open:'' @ newline @ ''http://'' @ DefaultAddress @ newline
                     @ newline @ ''The URL does not replace device authentication.'' @ newline, Return None))
          else if sub = ''tls'' then
            (if rest \<noteq> [''status''] then refuse ''usage: infrapilot web tls status''
             else (st, ''InfraPilot Web TLS'' @ newline @ newline @ ''Status: Not configured'' @ newline
                     @ ''HTTPS enablement is reserved for a future release.'' @ newline, Return None))
          else if sub = ''logs'' then
            (if rest \<noteq> [] then refuse ''web logs takes no arguments'' else web_logs we st)
          else refuse (''unknown web subcommand '' @ Quote sub))"

section \<open>What an address may hold\<close>

definition addr_char :: "char \<Rightarrow> bool" where
  "addr_char c \<longleftrightarrow> is_hex c \<or> c = CHR ''.'' \<or> c = CHR '':''"

lemma v4_chars: "v4_groups val n pos s \<Longrightarrow> list_all addr_char s"
  by (induction val n pos s rule: v4_groups.induct) (auto simp: addr_char_def is_hex_def split: if_splits)

lemma list_all_hex_then:
  assumes "list_all addr_char (dropWhile is_hex s)"
  shows "list_all addr_char s"
proof -
  have "list_all addr_char (takeWhile is_hex s)" by (auto simp: list_all_iff addr_char_def dest: set_takeWhileD)
  with assms have "list_all addr_char (takeWhile is_hex s @ dropWhile is_hex s)" by (simp only: list_all_append)
  then show ?thesis by simp
qed

lemma v6_chars: "v6_groups k ell s \<Longrightarrow> list_all addr_char s"
proof (induction k ell s rule: v6_groups.induct)
  case (2 k ell s)
  show ?case
  proof (cases "dropWhile is_hex s")
    case Nil
    show ?thesis by (rule list_all_hex_then) (simp add: Nil)
  next
    case (Cons c r)
    show ?thesis
    proof (cases "c = CHR ''.''")
      case True
      with "2.prems" Cons show ?thesis by (auto simp: Let_def intro: v4_chars)
    next
      case False
      with "2.prems" Cons have c: "c = CHR '':''" "r \<noteq> []" by (auto simp: Let_def)
      have "list_all addr_char r"
      proof (cases "hd r = CHR '':''")
        case True
        have "list_all addr_char (tl r)"
          using "2.IH"(1) [OF refl Cons False True] "2.prems" Cons False True by (auto simp: Let_def split: if_splits)
        with True c(2) show ?thesis by (cases r) (simp_all add: addr_char_def)
      next
        case F: False
        with "2.IH"(2) [OF refl Cons False F] "2.prems" Cons False show ?thesis by (auto simp: Let_def)
      qed
      with Cons c(1) have "list_all addr_char (dropWhile is_hex s)" by (simp add: addr_char_def)
      then show ?thesis by (rule list_all_hex_then)
    qed
  qed
qed simp

lemma ParseIP_chars:
  assumes "ParseIP_ok s"
  shows "list_all addr_char s"
proof -
  have "list_all addr_char s" if "valid_v6 s"
  proof (cases "HasPrefix s ''::''")
    case True
    then obtain r where s: "s = CHR '':'' # CHR '':'' # r" by (auto simp: HasPrefix_def prefix_def)
    with that True have "r = [] \<or> v6_groups 8 True r" by (simp add: valid_v6_def)
    with s show ?thesis using v6_chars by (auto simp: addr_char_def)
  next
    case False
    with that show ?thesis by (auto simp: valid_v6_def intro: v6_chars)
  qed
  with assms show ?thesis by (auto simp: ParseIP_ok_def intro: v4_chars split: option.splits if_splits)
qed

lemma ParseIP_examples:
  "ParseIP_ok ''192.168.1.1''" "ParseIP_ok ''::''" "ParseIP_ok ''2001:db8::1''" "ParseIP_ok ''::ffff:1.2.3.4''" "ParseIP_ok ''1:2:3:4:5:6:7:8''"
  "\<not> ParseIP_ok ''1.2.3''" "\<not> ParseIP_ok ''01.2.3.4''" "\<not> ParseIP_ok ''1.2.3.256''" "\<not> ParseIP_ok ''1::2::3''"
  "\<not> ParseIP_ok ''1:2:3:4:5:6:7''" "\<not> ParseIP_ok ''1:2:3:4:5:6:7:8::''" "\<not> ParseIP_ok ''fe80::1%eth0''" "\<not> ParseIP_ok []"
  by code_simp+

lemma first_address_ok: "first_address fetch us = [] \<or> ParseIP_ok (first_address fetch us)"
  by (induction us) (auto simp: Let_def split: sum.splits)

lemma detectPublicIP_ok: "publicIP we \<noteq> ''unavailable'' \<Longrightarrow> ParseIP_ok (publicIP we)"
  using first_address_ok [of "we_fetch we" ip_endpoints] by (auto simp: publicIP_def detectPublicIP_def Let_def split: if_splits)


section \<open>What setup changes\<close>

lemma web_of_set_bind:
  "\<exists>w. set_bind bind doc ''web'' = Some (YMap w) \<and> w ''bind_address'' = Some (YText bind)
    \<and> (\<forall>k. k \<noteq> ''bind_address'' \<longrightarrow> w k = (case doc ''web'' of Some (YMap m) \<Rightarrow> m k | _ \<Rightarrow> None))"
  "k \<noteq> ''web'' \<Longrightarrow> set_bind bind doc k = doc k"
  by (auto simp: set_bind_def Let_def split: option.splits yaml_value.splits)

lemma write_config_cases:
  assumes "write_config we path data fs = (fs', r)"
  shows "(\<forall>q. q \<noteq> path \<longrightarrow> fs' q = fs q) \<and> (r = None \<longrightarrow> (\<exists>mode. fs' path = Some (data, mode)
    \<and> (\<forall>old m. fs path = Some (old, m) \<longrightarrow> mode = m)))"
  using assms by (auto simp: write_config_def Let_def split: option.splits prod.splits)

lemma saveBind_cases:
  assumes "saveBind we path bind fs = (fs', r)"
  shows "(\<forall>q. q \<noteq> path \<longrightarrow> fs' q = fs q) \<and> (r = Return None \<longrightarrow>
    (\<exists>doc data mode. read_root we path fs = Inr (Some doc) \<and> yc_Marshal (we_yaml we) (set_bind bind doc) = Inr data
       \<and> fs' path = Some (data, mode) \<and> (\<forall>old m. fs path = Some (old, m) \<longrightarrow> mode = m)))"
proof (cases "read_root we path fs")
  case (Inr x)
  show ?thesis
  proof (cases x)
    case (Some doc)
    show ?thesis
    proof (cases "yc_Marshal (we_yaml we) (set_bind bind doc)")
      case (Inr data)
      obtain fs2 r2 where w: "write_config we path data fs = (fs2, r2)" by (cases "write_config we path data fs")
      with assms Inr Some \<open>read_root we path fs = Inr x\<close> have "fs' = fs2" "r = Return r2" by (simp_all add: saveBind_def)
      with write_config_cases [OF w] Inr Some \<open>read_root we path fs = Inr x\<close> show ?thesis by auto
    qed (use assms Inr Some in \<open>auto simp: saveBind_def\<close>)
  qed (use assms Inr in \<open>auto simp: saveBind_def\<close>)
qed (use assms in \<open>auto simp: saveBind_def\<close>)

definition restart_web_cmd :: command where
  "restart_web_cmd = [''systemctl'', ''restart'', web_unit]"

definition bind_answered :: "reads \<Rightarrow> string" where
  "bind_answered cs =
     (let answer = TrimSpace (fst (read_line cs))
      in if EqualFold answer ''y'' \<or> EqualFold answer ''yes'' then ''0.0.0.0'' else ''127.0.0.1'')"

text \<open>The question about the firewall is never asked: no firewall is found blocked.\<close>

lemma ask_exposure_unblocked:
  "ask_exposure (detected_firewall we st) cs = (''Expose Web Panel to network? (y/N): '', bind_answered cs, [])"
  using firewall_never_blocked [of "we_look we" "we_run we (wb_log st)" web_port]
  by (auto simp: ask_exposure_def bind_answered_def agreed_def detected_firewall_def Let_def split: prod.splits)

lemma setup_report_address:
  assumes "publicIP we = ''unavailable'' \<or> ParseIP_ok (publicIP we)"
  shows "\<exists>addr. list_all addr_char addr \<and> suffix (''Panel URL: http://'' @ addr @ '':8090'' @ newline) (setup_report bind (publicIP we))"
proof (cases "bind = ''0.0.0.0'' \<and> publicIP we \<noteq> ''unavailable''")
  case True
  with assms have "list_all addr_char (publicIP we)" by (auto intro: ParseIP_chars)
  with True show ?thesis
    by (intro exI [of _ "publicIP we"] conjI) (auto simp: setup_report_def suffix_def)
next
  case False
  have "list_all addr_char ''127.0.0.1''" by code_simp
  with False show ?thesis
    by (intro exI [of _ "''127.0.0.1''"] conjI) (auto simp: setup_report_def suffix_def)
qed

lemma runWebSetup_cases:
  assumes "runWebSetup we env (Some cs) st = (st', out, r)"
  shows "\<exists>fs. saveBind we (ConfigFile (de_Paths env)) (bind_answered cs) (wb_files st) = (fs, r) \<and> wb_files st' = fs
    \<and> wb_machine st' = wb_machine st \<and> wb_log st' = wb_log st @ (if r = Return None then [restart_web_cmd] else [])
    \<and> (r = Return None \<longrightarrow> suffix (setup_report (bind_answered cs) (publicIP we)) out)"
proof -
  obtain fs x where s: "saveBind we (ConfigFile (de_Paths env)) (bind_answered cs) (wb_files st) = (fs, x)"
    by (cases "saveBind we (ConfigFile (de_Paths env)) (bind_answered cs) (wb_files st)")
  have "fst (Restart_web run log) = log @ [restart_web_cmd]" for run log
    by (simp add: Restart_web_def manager_action_def restart_web_cmd_def Let_def)
  with assms s show ?thesis
    by (auto simp: runWebSetup_def ask_exposure_unblocked Let_def suffix_def split: call.splits option.splits)
qed


section \<open>Properties\<close>

text \<open>
  What is relied on of the YAML package: it reads back what it wrote.
\<close>

definition yaml_ok :: "yaml_codec \<Rightarrow> bool" where
  "yaml_ok yc \<longleftrightarrow> (\<forall>doc data. yc_Marshal yc doc = Inr data \<longrightarrow> yc_Unmarshal yc data = Inr (Some doc))"

text \<open>
  C38. \<open>infrapilot web setup\<close> exposes the panel exactly when the first line of the input is y or yes: on success the
  configuration file reads back as it was but for \<open>web.bind_address\<close>, which is the address answered, with its permissions
  kept; the one command run restarts the panel; and the printed URL names an address of hex digits, dots and colons
  whatever the address services answered. However it ends, no other file changes and no firewall is touched.
\<close>

theorem web_setup_binds_as_answered:
  assumes "runWebSetup we env (Some cs) st = (st', out, r)" "yaml_ok (we_yaml we)"
  shows "(\<forall>q. q \<noteq> ConfigFile (de_Paths env) \<longrightarrow> wb_files st' q = wb_files st q) \<and> wb_machine st' = wb_machine st
    \<and> wb_log st' \<in> {wb_log st, wb_log st @ [restart_web_cmd]}
    \<and> (r = Return None \<longrightarrow> (\<exists>data mode old doc w addr. wb_files st' (ConfigFile (de_Paths env)) = Some (data, mode)
        \<and> (\<forall>d m. wb_files st (ConfigFile (de_Paths env)) = Some (d, m) \<longrightarrow> mode = m)
        \<and> read_root we (ConfigFile (de_Paths env)) (wb_files st) = Inr (Some old)
        \<and> yc_Unmarshal (we_yaml we) data = Inr (Some doc) \<and> (\<forall>k. k \<noteq> ''web'' \<longrightarrow> doc k = old k)
        \<and> doc ''web'' = Some (YMap w) \<and> w ''bind_address'' = Some (YText (bind_answered cs))
        \<and> (\<forall>k. k \<noteq> ''bind_address'' \<longrightarrow> w k = (case old ''web'' of Some (YMap m) \<Rightarrow> m k | _ \<Rightarrow> None))
        \<and> list_all addr_char addr \<and> suffix (''Panel URL: http://'' @ addr @ '':8090'' @ newline) out))"
proof -
  let ?path = "ConfigFile (de_Paths env)"
  obtain fs where s: "saveBind we ?path (bind_answered cs) (wb_files st) = (fs, r)" and st': "wb_files st' = fs"
    "wb_machine st' = wb_machine st" "wb_log st' = wb_log st @ (if r = Return None then [restart_web_cmd] else [])"
    "r = Return None \<longrightarrow> suffix (setup_report (bind_answered cs) (publicIP we)) out"
    using runWebSetup_cases [OF assms(1)] by blast
  note c = saveBind_cases [OF s]
  have ok: "\<exists>data mode old doc w addr. wb_files st' ?path = Some (data, mode)
        \<and> (\<forall>d m. wb_files st ?path = Some (d, m) \<longrightarrow> mode = m)
        \<and> read_root we ?path (wb_files st) = Inr (Some old)
        \<and> yc_Unmarshal (we_yaml we) data = Inr (Some doc) \<and> (\<forall>k. k \<noteq> ''web'' \<longrightarrow> doc k = old k)
        \<and> doc ''web'' = Some (YMap w) \<and> w ''bind_address'' = Some (YText (bind_answered cs))
        \<and> (\<forall>k. k \<noteq> ''bind_address'' \<longrightarrow> w k = (case old ''web'' of Some (YMap m) \<Rightarrow> m k | _ \<Rightarrow> None))
        \<and> list_all addr_char addr \<and> suffix (''Panel URL: http://'' @ addr @ '':8090'' @ newline) out"
    if r: "r = Return None"
  proof -
    obtain old data mode where d: "read_root we ?path (wb_files st) = Inr (Some old)"
      "yc_Marshal (we_yaml we) (set_bind (bind_answered cs) old) = Inr data"
      "fs ?path = Some (data, mode)" "\<forall>d m. wb_files st ?path = Some (d, m) \<longrightarrow> mode = m"
      using c r by blast
    obtain addr where a: "list_all addr_char addr"
      "suffix (''Panel URL: http://'' @ addr @ '':8090'' @ newline) (setup_report (bind_answered cs) (publicIP we))"
      using setup_report_address [of we] detectPublicIP_ok by blast
    have "yc_Unmarshal (we_yaml we) data = Inr (Some (set_bind (bind_answered cs) old))"
      using assms(2) d(2) by (simp add: yaml_ok_def)
    moreover have "suffix (''Panel URL: http://'' @ addr @ '':8090'' @ newline) out"
      using a(2) st'(4) r by (blast intro: suffix_order.trans)
    moreover obtain w where "set_bind (bind_answered cs) old ''web'' = Some (YMap w)"
      "w ''bind_address'' = Some (YText (bind_answered cs))"
      "\<forall>k. k \<noteq> ''bind_address'' \<longrightarrow> w k = (case old ''web'' of Some (YMap m) \<Rightarrow> m k | _ \<Rightarrow> None)"
      using web_of_set_bind(1) [of "bind_answered cs" old] by blast
    ultimately show ?thesis
      using d st'(1) a(1) web_of_set_bind(2) [of _ "bind_answered cs" old] by blast
  qed
  show ?thesis using c st' ok by simp
qed

text \<open>A codec of one document, and a machine without a configuration file.\<close>

definition bound_doc :: yaml_map where
  "bound_doc = set_bind ''0.0.0.0'' Map.empty"

definition toy_yaml :: yaml_codec where
  "toy_yaml = \<lparr>yc_Unmarshal = (\<lambda>_. Inr (Some bound_doc)),
     yc_Marshal = (\<lambda>doc. if doc = bound_doc then Inr ''web: {bind_address: 0.0.0.0}'' else Inl (StdErr OtherOS ''unsupported''))\<rparr>"

definition toy_web :: web_env where
  "toy_web = \<lparr>we_sk = toy_sk, we_look = (\<lambda>_. False), we_run = (\<lambda>_ _. ([], None)), we_fetch = (\<lambda>_. Inr ''203.0.113.7''),
     we_yaml = toy_yaml, we_read = None, we_mkdir = None, we_write = None, we_umask = 0x12, we_count = None\<rparr>"

definition toy_web_state :: web_state where
  "toy_web_state = \<lparr>wb_machine = toy_machine, wb_files = Map.empty, wb_log = []\<rparr>"

definition yes_reads :: reads where
  "yes_reads = [''Yes'' @ newline]"

lemma toy_answer: "bind_answered yes_reads = ''0.0.0.0''"
  by code_simp

theorem web_setup_binds_as_answered_witness:
  "\<exists>st' out data mode w. runWebSetup toy_web toy_cli (Some yes_reads) toy_web_state = (st', out, Return None)
     \<and> wb_files st' ''/etc/infrapilot/config.yaml'' = Some (data, mode)
     \<and> bound_doc ''web'' = Some (YMap w) \<and> w ''bind_address'' = Some (YText ''0.0.0.0'')"
proof -
  have ok: "yaml_ok (we_yaml toy_web)" by (simp add: yaml_ok_def toy_web_def toy_yaml_def)
  note bind = toy_answer
  have path: "ConfigFile (de_Paths toy_cli) = ''/etc/infrapilot/config.yaml''" by (simp add: toy_cli_def toy_paths_t_def)
  obtain st' out r where run: "runWebSetup toy_web toy_cli (Some yes_reads) toy_web_state = (st', out, r)"
    by (cases "runWebSetup toy_web toy_cli (Some yes_reads) toy_web_state")
  have "snd (saveBind toy_web (ConfigFile (de_Paths toy_cli)) ''0.0.0.0'' Map.empty) = Return None"
    by (simp add: saveBind_def read_root_def write_config_def toy_web_def toy_yaml_def bound_doc_def Let_def)
  then have r: "r = Return None"
    using runWebSetup_cases [OF run] by (elim exE conjE) (simp add: bind toy_web_state_def)
  from web_setup_binds_as_answered [OF run ok] r bind path obtain data mode doc w where
    "wb_files st' ''/etc/infrapilot/config.yaml'' = Some (data, mode)" "yc_Unmarshal (we_yaml toy_web) data = Inr (Some doc)"
    "doc ''web'' = Some (YMap w)" "w ''bind_address'' = Some (YText ''0.0.0.0'')" by auto
  then show ?thesis using run r by (auto simp: toy_web_def toy_yaml_def)
qed

text \<open>
  A document that decodes to a nil map makes the setup panic after its question, and a configuration that cannot be read is
  replaced by the bind address alone.
\<close>

lemma setup_panics_on_nil_map:
  assumes "we_read we = None" "wb_files st (ConfigFile (de_Paths env)) = Some (data, mode)" "TrimSpace data \<noteq> []"
    "yc_Unmarshal (we_yaml we) data = Inr None"
  shows "snd (snd (runWebSetup we env (Some cs) st)) = Panic ''assignment to entry in nil map''"
  using assms by (simp add: runWebSetup_def ask_exposure_unblocked saveBind_def read_root_def Let_def)

lemma unreadable_config_is_replaced:
  assumes "we_read we = Some e" "we_mkdir we = None" "we_write we = None"
    "yc_Marshal (we_yaml we) (set_bind bind Map.empty) = Inr data"
  shows "\<exists>mode. saveBind we path bind fs = (fs(path \<mapsto> (data, mode)), Return None)"
  using assms by (auto simp: saveBind_def read_root_def write_config_def Let_def)

text \<open>What \<open>enable\<close> and \<open>disable\<close> say.\<close>

lemma enable_is_misspelt:
  assumes "we_run we = (\<lambda>_ _. ([], None))"
  shows "fst (snd (runWeb we env inp [''enable''] st)) = ''InfraPilot Web enableed'' @ newline"
  using assms by (simp add: runWeb_def web_act_def Enable_web_def manager_action_def Let_def)

end
