(* ===== verification/Cli_Uninstall.thy ===== *)
theory Cli_Uninstall
  imports Cli_Manage
begin

text \<open>
  Removal, \<open>internal/cli/uninstall.go\<close>: the confirmations, the services and binaries, and with \<open>--purge\<close> the contents of
  the data and configuration directories.
\<close>

section \<open>The files\<close>

text \<open>
  The file system as the list of its files and directories by the components of their absolute path, without
  symbolic links.
\<close>

datatype node = FileNode bytes | DirNode

type_synonym tree = "(string list \<times> node) list"

definition remove_node :: "go_error option \<Rightarrow> string list \<Rightarrow> tree \<Rightarrow> tree" where
  "remove_node fault p t =
     (if fault \<noteq> None \<or> (\<exists>q \<in> set (map fst t). strict_prefix p q) then t else filter (\<lambda>(q, _). q \<noteq> p) t)"

text \<open>\<open>os.RemoveAll\<close>: a failure leaves some of what is below.\<close>

type_synonym remove_all_fault = "(go_error \<times> (string list \<Rightarrow> bool)) option"

definition remove_all :: "remove_all_fault \<Rightarrow> string list \<Rightarrow> tree \<Rightarrow> tree \<times> go_error option" where
  "remove_all fault p t =
     (case fault of None \<Rightarrow> (filter (\<lambda>(q, _). \<not> prefix p q) t, None)
      | Some (e, stays) \<Rightarrow> (filter (\<lambda>(q, _). \<not> prefix p q \<or> stays q) t, Some e))"

text \<open>The names in a directory, in their order.\<close>

definition entry_names :: "string list \<Rightarrow> tree \<Rightarrow> string list" where
  "entry_names dir t =
     sort (remdups (map (\<lambda>q. q ! length dir) (filter (strict_prefix dir) (map fst t))))"

record uninstall_env =
  un_cwd :: string
  un_remove :: "string list \<Rightarrow> go_error option"
  un_stat :: "string \<Rightarrow> go_error option"
  un_read_dir :: "string \<Rightarrow> go_error option"
  un_remove_all :: "string list \<Rightarrow> remove_all_fault"

text \<open>The components of the absolute path that a path means.\<close>

definition locate :: "uninstall_env \<Rightarrow> string \<Rightarrow> string list" where
  "locate ue p = clean_comps (if IsAbs p then p else join_path (un_cwd ue) p)"

section \<open>Removing a directory's contents\<close>

text \<open>The path of an entry is that of its directory with its name.\<close>

fun remove_entries :: "uninstall_env \<Rightarrow> string list \<Rightarrow> string list \<Rightarrow> tree \<Rightarrow> tree \<times> go_error option" where
  "remove_entries ue dir [] t = (t, None)"
| "remove_entries ue dir (name # names) t =
     (case remove_all (un_remove_all ue (dir @ [name])) (dir @ [name]) t of
        (t', Some e) \<Rightarrow> (t', Some e)
      | (t', None) \<Rightarrow> remove_entries ue dir names t')"

definition removeContents :: "uninstall_env \<Rightarrow> string \<Rightarrow> tree \<Rightarrow> tree \<times> go_error option" where
  "removeContents ue dir t =
     (let p = locate ue dir;
          found = (p = [] \<or> p \<in> set (map fst t));
          stat = (case un_stat ue dir of Some e \<Rightarrow> Some e | None \<Rightarrow> if found then None else Some no_file)
      in if dir = [] \<or> dir = ''/'' \<or> dir = ''.''
         then (t, Some (New KindValidation ''cli.uninstall'' ''refusing to remove an unsafe data path''))
         else if (case stat of Some e \<Rightarrow> IsNotExist e | None \<Rightarrow> False) then (t, None)
         else (case un_read_dir ue dir of Some e \<Rightarrow> (t, Some e)
               | None \<Rightarrow>
                   if \<not> found then (t, Some no_file)
                   else (case map_of t p of
                           Some (FileNode _) \<Rightarrow> (t, Some (StdErr OtherOS ''not a directory''))
                         | _ \<Rightarrow> remove_entries ue p (entry_names p t) t)))"

section \<open>The command\<close>

definition purgePhrase :: string where "purgePhrase = ''REMOVE ALL INFRAPILOT DATA''"

record installation =
  it_tree :: tree
  it_log :: "command list"

definition uninstall_help :: string where
  "uninstall_help =
     ''Usage: infrapilot uninstall [--purge]'' @ newline @ newline
     @ ''Removes InfraPilot services and binaries while preserving data by default.'' @ newline
     @ ''--purge additionally removes configuration, identity, database, and logs after exact confirmation.'' @ newline"

datatype uninstall_args = AskHelp | BadArgument string | Mode bool

fun uninstall_mode :: "string list \<Rightarrow> bool \<Rightarrow> uninstall_args" where
  "uninstall_mode [] purge = Mode purge"
| "uninstall_mode (arg # args) purge =
     (if arg = ''--help'' \<or> arg = ''-h'' then AskHelp
      else if arg = ''--purge'' then uninstall_mode args True
      else BadArgument arg)"

definition unit_names :: "string list" where
  "unit_names = [''infrapilot-web.service'', ''infrapilot-agent.service'']"

definition uninstall_commands :: "command list" where
  "uninstall_commands =
     concat (map (\<lambda>u. [[''systemctl'', ''stop'', u], [''systemctl'', ''disable'', u]]) unit_names) @ [[''systemctl'', ''daemon-reload'']]"

definition installed_files :: "string list list" where
  "installed_files =
     map (\<lambda>u. clean_comps (join_path ''/etc/systemd/system'' u)) unit_names
     @ map (\<lambda>b. clean_comps (join_path ''/usr/local/bin'' b)) binary_names"

text \<open>The results of the commands and of the removals of single files are ignored.\<close>

definition remove_installed :: "uninstall_env \<Rightarrow> installation \<Rightarrow> installation" where
  "remove_installed ue st =
     \<lparr>it_tree = fold (\<lambda>p. remove_node (un_remove ue p) p) installed_files (it_tree st),
      it_log = it_log st @ uninstall_commands\<rparr>"

definition purge_data :: "uninstall_env \<Rightarrow> cli_env \<Rightarrow> tree \<Rightarrow> tree \<times> go_error option" where
  "purge_data ue env t =
     (case removeContents ue (DataDir (de_Paths env)) t of
        (t1, Some e) \<Rightarrow> (t1, Some e)
      | (t1, None) \<Rightarrow> removeContents ue (Dir (ConfigFile (de_Paths env))) t1)"

definition permission_error :: "string \<Rightarrow> go_error" where
  "permission_error msg = New KindPermission ''cli.uninstall'' msg"

text \<open>The questions: what was asked, and the refusal.\<close>

definition ask_uninstall :: "bool \<Rightarrow> reads \<Rightarrow> string \<times> go_error option" where
  "ask_uninstall purge inp =
     (let warning = ''WARNING: InfraPilot uninstall will remove installed services and binaries.'' @ newline
            @ (if purge then ''Purge mode will also remove configuration, identities, databases, and logs.'' @ newline else [])
            @ ''Continue? Type YES to confirm: '';
          (line, rest) = read_line inp
      in if TrimSpace line \<noteq> ''YES''
         then (warning, Some (permission_error ''uninstall cancelled; type YES to confirm''))
         else if purge
         then (warning @ ''Type '' @ Quote purgePhrase @ '' to remove all InfraPilot data: '',
               if TrimSpace (fst (read_line rest)) \<noteq> purgePhrase
               then Some (permission_error ''purge cancelled; exact confirmation phrase did not match'') else None)
         else (warning, None))"

definition runUninstall :: "uninstall_env \<Rightarrow> cli_env \<Rightarrow> reads option \<Rightarrow> string list \<Rightarrow> installation \<Rightarrow> installation cli_result" where
  "runUninstall ue env inp args st =
     (case uninstall_mode args False of
        AskHelp \<Rightarrow> (st, uninstall_help, None)
      | BadArgument arg \<Rightarrow> (st, [], Some (New KindUsage ''cli.uninstall'' (''unknown argument '' @ Quote arg)))
      | Mode purge \<Rightarrow>
          (case inp of
             None \<Rightarrow> (st, [], Some (permission_error ''confirmation input is unavailable; run interactively''))
           | Some cs \<Rightarrow>
               (case ask_uninstall purge cs of
                  (asked, Some e) \<Rightarrow> (st, asked, Some e)
                | (asked, None) \<Rightarrow>
                    (let st1 = remove_installed ue st in
                     if purge
                     then (case purge_data ue env (it_tree st1) of
                             (t, Some e) \<Rightarrow> (st1\<lparr>it_tree := t\<rparr>, asked, Some e)
                           | (t, None) \<Rightarrow> (st1\<lparr>it_tree := t\<rparr>, asked @ ''InfraPilot uninstalled and all data removed.'' @ newline, None))
                     else (st1, asked @ ''InfraPilot uninstalled. Configuration, identities, databases, logs, and user data were preserved.''
                             @ newline, None)))))"

section \<open>What removal reaches\<close>

definition changed :: "tree \<Rightarrow> tree \<Rightarrow> string list set" where
  "changed t t' = {p. map_of t' p \<noteq> map_of t p}"

definition below :: "string list \<Rightarrow> string list set" where
  "below dir = {q. strict_prefix dir q}"

definition paths_of :: "tree \<Rightarrow> string list set" where
  "paths_of t = set (map fst t)"

text \<open>Every file lies in directories that are there.\<close>

definition wf_tree :: "tree \<Rightarrow> bool" where
  "wf_tree t \<longleftrightarrow> (\<forall>q \<in> paths_of t. \<forall>p. strict_prefix p q \<and> p \<noteq> [] \<longrightarrow> p \<in> paths_of t)"

lemma changed_trans: "changed t t'' \<subseteq> changed t t' \<union> changed t' t''"
  by (auto simp: changed_def)

lemma map_of_filter_keys: "map_of (filter (\<lambda>(q, _). P q) t) p = (if P p then map_of t p else None)"
  by (induction t) auto

lemma changed_filter: "changed t (filter (\<lambda>(q, _). P q) t) \<subseteq> {q. \<not> P q}"
  by (auto simp: changed_def map_of_filter_keys)

lemma paths_of_filter: "paths_of (filter (\<lambda>(q, _). P q) t) = {q \<in> paths_of t. P q}"
  by (force simp: paths_of_def)

lemma changed_remove_node: "changed t (remove_node fault p t) \<subseteq> {p}"
proof (cases "fault \<noteq> None \<or> (\<exists>q \<in> set (map fst t). strict_prefix p q)")
  case False
  have "changed t (filter (\<lambda>(q, _). q \<noteq> p) t) \<subseteq> {q. \<not> q \<noteq> p}" by (rule changed_filter)
  with False show ?thesis by (simp only: remove_node_def if_False) auto
qed (simp add: remove_node_def changed_def)

lemma wf_remove_node:
  assumes "wf_tree t"
  shows "wf_tree (remove_node fault p t)"
proof (cases "fault \<noteq> None \<or> (\<exists>q \<in> set (map fst t). strict_prefix p q)")
  case False
  then have "remove_node fault p t = filter (\<lambda>(q, _). q \<noteq> p) t" "\<forall>q \<in> paths_of t. \<not> strict_prefix p q"
    unfolding remove_node_def paths_of_def by (simp_all only: if_False) blast
  with assms show ?thesis by (auto simp: wf_tree_def paths_of_filter)
next
  case True
  then have "remove_node fault p t = t" by (simp only: remove_node_def if_True)
  with assms show ?thesis by simp
qed

lemma remove_all_cases:
  assumes "remove_all fault p t = (t', r)"
  shows "changed t t' \<subseteq> {q. prefix p q} \<and> paths_of t' \<subseteq> paths_of t
    \<and> (r = None \<longrightarrow> (\<forall>q \<in> paths_of t'. \<not> prefix p q) \<and> (wf_tree t \<longrightarrow> wf_tree t'))"
proof (cases fault)
  case None
  with assms have t': "t' = filter (\<lambda>(q, _). \<not> prefix p q) t" by (simp add: remove_all_def)
  have "wf_tree t'" if "wf_tree t"
    using that by (auto simp: t' wf_tree_def paths_of_filter)
  moreover have "changed t t' \<subseteq> {q. prefix p q}" using changed_filter [of t "\<lambda>q. \<not> prefix p q"] by (simp add: t')
  ultimately show ?thesis by (auto simp: t' paths_of_filter)
next
  case (Some a)
  obtain e stays where a: "a = (e, stays)" by (cases a)
  have "changed t (filter (\<lambda>(q, _). \<not> prefix p q \<or> stays q) t) \<subseteq> {q. prefix p q}"
    using changed_filter [of t "\<lambda>q. \<not> prefix p q \<or> stays q"] by auto
  with assms Some a show ?thesis by (auto simp: remove_all_def paths_of_filter)
qed

lemma remove_entries_cases:
  assumes "remove_entries ue dir names t = (t', r)"
  shows "changed t t' \<subseteq> below dir \<and> paths_of t' \<subseteq> paths_of t
    \<and> (r = None \<longrightarrow> (\<forall>q \<in> paths_of t'. \<forall>n \<in> set names. \<not> prefix (dir @ [n]) q) \<and> (wf_tree t \<longrightarrow> wf_tree t'))"
  using assms
proof (induction ue dir names t rule: remove_entries.induct)
  case (2 ue dir name names t)
  obtain t1 r1 where s: "remove_all (un_remove_all ue (dir @ [name])) (dir @ [name]) t = (t1, r1)"
    by (cases "remove_all (un_remove_all ue (dir @ [name])) (dir @ [name]) t")
  note c = remove_all_cases [OF s]
  have sub: "{q. prefix (dir @ [name]) q} \<subseteq> below dir"
    by (auto simp: below_def strict_prefix_def prefix_def)
  show ?case
  proof (cases r1)
    case (Some e)
    with "2.prems" s c sub show ?thesis by auto
  next
    case None
    with "2.prems" s have n: "remove_entries ue dir names t1 = (t', r)" by simp
    note ih = "2.IH" [OF s [symmetric] None n]
    have "changed t t' \<subseteq> below dir" using changed_trans [of t t' t1] c ih sub by blast
    with None c ih show ?thesis by auto
  qed
qed (simp add: changed_def)

lemma entry_names_cover:
  assumes "q \<in> paths_of t" "strict_prefix dir q"
  shows "\<exists>n \<in> set (entry_names dir t). prefix (dir @ [n]) q"
proof -
  obtain x xs where q: "q = dir @ x # xs" using assms(2) by (auto simp: strict_prefix_def prefix_def) (metis append_Nil2 list.exhaust)
  then have "x \<in> set (entry_names dir t)"
    using assms by (force simp: entry_names_def paths_of_def image_iff intro!: bexI [of _ q])
  with q show ?thesis by (intro bexI [of _ x]) (auto simp: prefix_def)
qed

definition honest_stat :: "uninstall_env \<Rightarrow> bool" where
  "honest_stat ue \<longleftrightarrow> (\<forall>d e. un_stat ue d = Some e \<longrightarrow> \<not> IsNotExist e)"

lemma removeContents_cases:
  assumes "removeContents ue dir t = (t', r)"
  shows "changed t t' \<subseteq> below (locate ue dir) \<and> paths_of t' \<subseteq> paths_of t
    \<and> (r = None \<longrightarrow> honest_stat ue \<longrightarrow> wf_tree t \<longrightarrow> wf_tree t' \<and> paths_of t' \<inter> below (locate ue dir) = {})"
proof -
  let ?p = "locate ue dir"
  let ?found = "?p = [] \<or> ?p \<in> set (map fst t)"
  have c0: "changed t t = {}" by (simp add: changed_def)
  show ?thesis
  proof (cases "remove_entries ue ?p (entry_names ?p t) t = (t', r)")
    case True
    note c = remove_entries_cases [OF True]
    have "paths_of t' \<inter> below ?p = {}" if "r = None"
    proof -
      have "q \<notin> below ?p" if q: "q \<in> paths_of t'" for q
      proof
        assume "q \<in> below ?p"
        moreover have "q \<in> paths_of t" using c q by blast
        ultimately obtain n where "n \<in> set (entry_names ?p t)" "prefix (?p @ [n]) q"
          using entry_names_cover [of q t ?p] by (auto simp: below_def)
        with c q \<open>r = None\<close> show False by blast
      qed
      then show ?thesis by blast
    qed
    with c show ?thesis by blast
  next
    case False
    with assms have t': "t' = t" "r = None \<longrightarrow> (\<exists>e. IsNotExist e \<and> un_stat ue dir = Some e) \<or> \<not> ?found"
      by (auto simp: removeContents_def Let_def split: if_splits option.splits node.splits)
    have "paths_of t \<inter> below ?p = {}" if "wf_tree t" "\<not> ?found"
      using that by (auto simp: wf_tree_def below_def paths_of_def)
    with t' c0 show ?thesis unfolding honest_stat_def by blast
  qed
qed

lemma remove_installed_cases:
  "changed (it_tree st) (it_tree (remove_installed ue st)) \<subseteq> set installed_files"
  "wf_tree (it_tree st) \<Longrightarrow> wf_tree (it_tree (remove_installed ue st))"
proof -
  have "changed t (fold (\<lambda>p. remove_node (f p) p) ps t) \<subseteq> set ps" for f t ps
  proof (induction ps arbitrary: t)
    case (Cons p ps)
    then show ?case using changed_remove_node [of t "f p" p] changed_trans by fastforce
  qed (simp add: changed_def)
  then show "changed (it_tree st) (it_tree (remove_installed ue st)) \<subseteq> set installed_files"
    by (simp add: remove_installed_def)
  have "wf_tree t \<Longrightarrow> wf_tree (fold (\<lambda>p. remove_node (f p) p) ps t)" for f t ps
    by (induction ps arbitrary: t) (simp_all add: wf_remove_node)
  then show "wf_tree (it_tree st) \<Longrightarrow> wf_tree (it_tree (remove_installed ue st))"
    by (simp add: remove_installed_def)
qed

text \<open>The directories that a purge empties.\<close>

definition purged :: "uninstall_env \<Rightarrow> cli_env \<Rightarrow> string list set" where
  "purged ue env = below (locate ue (DataDir (de_Paths env))) \<union> below (locate ue (Dir (ConfigFile (de_Paths env))))"

lemma purge_data_cases:
  assumes "purge_data ue env t = (t', r)"
  shows "changed t t' \<subseteq> purged ue env
    \<and> (r = None \<longrightarrow> honest_stat ue \<longrightarrow> wf_tree t \<longrightarrow> paths_of t' \<inter> purged ue env = {})"
proof -
  obtain t1 r1 where s: "removeContents ue (DataDir (de_Paths env)) t = (t1, r1)"
    by (cases "removeContents ue (DataDir (de_Paths env)) t")
  note c1 = removeContents_cases [OF s]
  show ?thesis
  proof (cases r1)
    case (Some e)
    with assms s c1 show ?thesis by (auto simp: purge_data_def purged_def)
  next
    case None
    with assms s have "removeContents ue (Dir (ConfigFile (de_Paths env))) t1 = (t', r)" by (simp add: purge_data_def)
    from removeContents_cases [OF this] None c1 changed_trans [of t t' t1] show ?thesis
      unfolding purged_def by blast
  qed
qed

definition uninstall_confirmed :: "reads option \<Rightarrow> bool \<Rightarrow> bool" where
  "uninstall_confirmed inp purge \<longleftrightarrow>
     (\<exists>cs. inp = Some cs \<and> TrimSpace (fst (read_line cs)) = ''YES''
        \<and> (purge \<longrightarrow> TrimSpace (fst (read_line (snd (read_line cs)))) = purgePhrase))"

lemma ask_uninstall_confirmed: "snd (ask_uninstall purge cs) = None \<longleftrightarrow> uninstall_confirmed (Some cs) purge"
  by (auto simp: ask_uninstall_def uninstall_confirmed_def Let_def split: prod.splits)

lemma runUninstall_cases:
  assumes "runUninstall ue env inp args st = (st', out, err)"
  obtains (unchanged) "st' = st" "err = None \<longrightarrow> uninstall_mode args False = AskHelp"
      "\<forall>purge. uninstall_mode args False = Mode purge \<longrightarrow> \<not> uninstall_confirmed inp purge"
  | (kept) "uninstall_mode args False = Mode False" "uninstall_confirmed inp False" "st' = remove_installed ue st" "err = None"
  | (purged) t where "uninstall_mode args False = Mode True" "uninstall_confirmed inp True"
      "purge_data ue env (it_tree (remove_installed ue st)) = (t, err)" "st' = (remove_installed ue st)\<lparr>it_tree := t\<rparr>"
proof (cases "uninstall_mode args False")
  case (Mode purge)
  show thesis
  proof (cases inp)
    case None
    with Mode assms show thesis by (intro unchanged) (auto simp: runUninstall_def uninstall_confirmed_def)
  next
    case (Some cs)
    obtain asked r where a: "ask_uninstall purge cs = (asked, r)" by (cases "ask_uninstall purge cs")
    with ask_uninstall_confirmed [of purge cs] have conf: "r = None \<longleftrightarrow> uninstall_confirmed inp purge" by (simp add: Some)
    show thesis
    proof (cases r)
      case (Some e)
      with \<open>inp = Some cs\<close> Mode a conf assms show thesis by (intro unchanged) (auto simp: runUninstall_def)
    next
      case None
      obtain t r2 where p: "purge_data ue env (it_tree (remove_installed ue st)) = (t, r2)"
        by (cases "purge_data ue env (it_tree (remove_installed ue st))")
      show thesis
      proof (cases purge)
        case True
        with None \<open>inp = Some cs\<close> Mode a conf assms p show thesis
          by (intro purged [of t]) (auto simp: runUninstall_def Let_def split: option.splits)
      next
        case False
        with None \<open>inp = Some cs\<close> Mode a conf assms show thesis by (intro kept) (auto simp: runUninstall_def Let_def)
      qed
    qed
  qed
qed (use assms in \<open>auto simp: runUninstall_def intro!: unchanged\<close>)


section \<open>Properties\<close>

text \<open>
  C36. \<open>infrapilot uninstall\<close> reaches only what it names: without the confirmations nothing changes and no command runs;
  with them, whatever calls fail, a path changes only if it is one of the five installed files or, after the
  phrase of \<open>--purge\<close>, lies in the data or the configuration directory; and a purge without an error leaves nothing in
  these two.
\<close>

theorem uninstall_reaches_only:
  assumes "runUninstall ue env inp args st = (st', out, err)"
  shows "(st' \<noteq> st \<longrightarrow> (\<exists>purge. uninstall_mode args False = Mode purge \<and> uninstall_confirmed inp purge
           \<and> it_log st' = it_log st @ uninstall_commands))
    \<and> changed (it_tree st) (it_tree st') \<subseteq>
        set installed_files \<union> (if uninstall_mode args False = Mode True \<and> uninstall_confirmed inp True then purged ue env else {})
    \<and> (uninstall_mode args False = Mode True \<and> err = None \<and> honest_stat ue \<and> wf_tree (it_tree st)
        \<longrightarrow> paths_of (it_tree st') \<inter> purged ue env = {})"
  using assms
proof (cases rule: runUninstall_cases)
  case unchanged
  then show ?thesis by (auto simp: changed_def)
next
  case kept
  with remove_installed_cases(1) [of st ue] show ?thesis by (auto simp: remove_installed_def)
next
  case (purged t)
  have "changed (it_tree st) t \<subseteq> set installed_files \<union> purged ue env"
    using changed_trans [of "it_tree st" t "it_tree (remove_installed ue st)"] remove_installed_cases(1) [of st ue]
      purge_data_cases [OF purged(3)] by blast
  with purged remove_installed_cases(2) [of st ue] purge_data_cases [OF purged(3)] show ?thesis
    by (auto simp: remove_installed_def)
qed

definition toy_uninstall :: uninstall_env where
  "toy_uninstall = \<lparr>un_cwd = ''/root'', un_remove = (\<lambda>_. None), un_stat = (\<lambda>_. None), un_read_dir = (\<lambda>_. None),
     un_remove_all = (\<lambda>_. None)\<rparr>"

definition toy_installation :: installation where
  "toy_installation =
     \<lparr>it_tree = [([''etc''], DirNode), ([''etc'', ''passwd''], FileNode ''root''), ([''etc'', ''infrapilot''], DirNode),
        ([''etc'', ''infrapilot'', ''config.yaml''], FileNode []), ([''var''], DirNode), ([''var'', ''lib''], DirNode),
        ([''var'', ''lib'', ''infrapilot''], DirNode), ([''var'', ''lib'', ''infrapilot'', ''identity.key''], FileNode ''key''),
        ([''usr''], DirNode), ([''usr'', ''local''], DirNode), ([''usr'', ''local'', ''bin''], DirNode),
        ([''usr'', ''local'', ''bin'', ''infrapilot''], FileNode ''elf'')],
      it_log = []\<rparr>"

definition typed :: reads where
  "typed = [''YES'' @ newline, purgePhrase @ newline]"

lemma toy_purge:
  "it_tree (fst (runUninstall toy_uninstall toy_cli (Some typed) [''--purge''] toy_installation)) =
     [([''etc''], DirNode), ([''etc'', ''passwd''], FileNode ''root''), ([''etc'', ''infrapilot''], DirNode),
      ([''var''], DirNode), ([''var'', ''lib''], DirNode), ([''var'', ''lib'', ''infrapilot''], DirNode),
      ([''usr''], DirNode), ([''usr'', ''local''], DirNode), ([''usr'', ''local'', ''bin''], DirNode)]"
  by code_simp

lemma toy_tree_ok: "wf_tree (it_tree toy_installation)"
  by (auto simp: wf_tree_def paths_of_def toy_installation_def strict_prefix_def prefix_Cons)

theorem uninstall_reaches_only_witness:
  "\<exists>st' out. runUninstall toy_uninstall toy_cli (Some typed) [''--purge''] toy_installation = (st', out, None)
     \<and> paths_of (it_tree st') \<inter> purged toy_uninstall toy_cli = {}"
proof -
  have "snd (snd (runUninstall toy_uninstall toy_cli (Some typed) [''--purge''] toy_installation)) = None" by code_simp
  then obtain st' out where r: "runUninstall toy_uninstall toy_cli (Some typed) [''--purge''] toy_installation = (st', out, None)"
    by (metis prod.collapse)
  have "honest_stat toy_uninstall" by (simp add: honest_stat_def toy_uninstall_def)
  with uninstall_reaches_only [OF r] r toy_tree_ok show ?thesis by simp
qed

text \<open>
  Input that arrives in one piece, as from a pipe, confirms only the first question: the rest was read with it and
  is lost.
\<close>

lemma piped_purge_is_cancelled:
  "runUninstall ue env (Some [''YES'' @ newline @ purgePhrase @ newline]) [''--purge''] st =
     (st, fst (ask_uninstall True [''YES'' @ newline @ purgePhrase @ newline]),
      Some (permission_error ''purge cancelled; exact confirmation phrase did not match''))"
proof -
  have "read_line [''YES'' @ newline @ purgePhrase @ newline] = (''YES'' @ newline, [])" "TrimSpace (''YES'' @ newline) = ''YES''"
    "TrimSpace [] \<noteq> purgePhrase" by code_simp+
  then show ?thesis by (simp add: runUninstall_def ask_uninstall_def Let_def)
qed

text \<open>
  A configuration file directly in \<open>/etc\<close>: the purge removes everything in \<open>/etc\<close>. And identities in a configured data
  directory stay, although all data is said to be removed.
\<close>

definition etc_cli :: cli_env where
  "etc_cli = toy_cli\<lparr>de_Paths := toy_paths_t\<lparr>ConfigFile := ''/etc/infrapilot.yaml''\<rparr>\<rparr>"

lemma purge_empties_foreign_directory:
  "([''etc'', ''passwd''], FileNode ''root'') \<in> set (it_tree toy_installation)
   \<and> it_tree (fst (runUninstall toy_uninstall etc_cli (Some typed) [''--purge''] toy_installation)) =
     [([''etc''], DirNode), ([''var''], DirNode), ([''var'', ''lib''], DirNode), ([''var'', ''lib'', ''infrapilot''], DirNode),
      ([''usr''], DirNode), ([''usr'', ''local''], DirNode), ([''usr'', ''local'', ''bin''], DirNode)]"
  by (rule conjI) (simp add: toy_installation_def, code_simp)

definition moved_cli :: cli_env where
  "moved_cli = toy_cli\<lparr>de_Config := (de_Config toy_cli)\<lparr>cf_Agent := (cf_Agent (de_Config toy_cli))\<lparr>ag_DataDir := ''/srv/infrapilot''\<rparr>\<rparr>\<rparr>"

lemma purge_keeps_configured_data:
  "identityDir moved_cli = ''/srv/infrapilot''
   \<and> map_of (it_tree (fst (runUninstall toy_uninstall moved_cli (Some typed) [''--purge'']
       (toy_installation\<lparr>it_tree := it_tree toy_installation @ [([''srv''], DirNode), ([''srv'', ''infrapilot''], DirNode),
          ([''srv'', ''infrapilot'', ''identity.key''], FileNode ''key'')]\<rparr>))))
       [''srv'', ''infrapilot'', ''identity.key''] = Some (FileNode ''key'')"
  by (rule conjI) code_simp+

end
