(* ===== verification/Cli.thy ===== *)
theory Cli
  imports Cli_Web Cli_Uninstall
begin

text \<open>
  The command line as a whole, \<open>internal/cli/cli.go\<close> with \<open>doctor.go\<close>, \<open>status.go\<close>, \<open>systeminfo.go\<close> and
  \<open>cmd/infrapilot/main.go\<close>: arguments, the registry of commands, their dispatch and the exit code.
\<close>

section \<open>The system and an invocation\<close>

text \<open>
  What the commands act on: the machine with the panel's files and services, the database files by their path, the units, the
  installation as an update and as a removal sees it. The database of a world is the one a command works on; between
  commands the files by path count. Databases, identity files, the configuration file and the binaries are different files. An invocation is the arguments, the input, the environment and what the machine
  answers during it.
\<close>

record 'm cli_system =
  sy_web :: web_state
  sy_disks :: "string \<Rightarrow> disk"
  sy_units :: 'm
  sy_up :: up_state
  sy_it :: installation

record invocation =
  iv_args :: "string list"
  iv_in :: "reads option"
  iv_environ :: environ
  iv_yaml :: yaml
  iv_conf :: "go_error option"
  iv_host :: host
  iv_go :: string
  iv_web :: web_env
  iv_update :: update_input
  iv_uninstall :: uninstall_env
  iv_probe :: probe

type_synonym 'm cli_outcome = "'m cli_system \<times> string \<times> go_error option call"

definition world_of :: "'m cli_system \<Rightarrow> world" where
  "world_of s = m_world (wb_machine (sy_web s))"

definition set_machine :: "machine \<Rightarrow> 'm cli_system \<Rightarrow> 'm cli_system" where
  "set_machine m s = s\<lparr>sy_web := (sy_web s)\<lparr>wb_machine := m\<rparr>\<rparr>"

definition set_world :: "world \<Rightarrow> 'm cli_system \<Rightarrow> 'm cli_system" where
  "set_world w s = set_machine ((wb_machine (sy_web s))\<lparr>m_world := w\<rparr>) s"

section \<open>One file system behind the views\<close>

text \<open>A command works on the database its configuration names.\<close>

definition db_path :: "cli_env \<Rightarrow> string" where
  "db_path env = (case DatabasePath (de_Config env) of Inl _ \<Rightarrow> [] | Inr p \<Rightarrow> p)"

definition mounted :: "cli_env \<Rightarrow> 'm cli_system \<Rightarrow> 'm cli_system" where
  "mounted env s = set_world ((world_of s)\<lparr>w_disk := sy_disks s (db_path env)\<rparr>) s"

definition unmounted :: "cli_env \<Rightarrow> 'm cli_system \<Rightarrow> 'm cli_system \<Rightarrow> 'm cli_system" where
  "unmounted env s s1 =
     set_world ((world_of s1)\<lparr>w_disk := w_disk (world_of s)\<rparr>)
       (s1\<lparr>sy_disks := (sy_disks s1)(db_path env := w_disk (world_of s1))\<rparr>)"

definition on_database :: "cli_env \<Rightarrow> ('m cli_system \<Rightarrow> 'm cli_outcome) \<Rightarrow> 'm cli_system \<Rightarrow> 'm cli_outcome" where
  "on_database env run s = (case run (mounted env s) of (s1, out, x) \<Rightarrow> (unmounted env s s1, out, x))"

text \<open>
  What a removal took from the tree of the installation is gone for every command: databases, with the sidecar files beside
  them, identity files, the panel's and the update's files, directory entries and the PID file. Their contents
  are kept here, in the tree they are nodes.
\<close>

definition gone :: "uninstall_env \<Rightarrow> tree \<Rightarrow> tree \<Rightarrow> string \<Rightarrow> bool" where
  "gone ue t t' p \<longleftrightarrow> locate ue p \<in> paths_of t \<and> locate ue p \<notin> paths_of t'"

definition no_disk :: disk where
  "no_disk = \<lparr>dk_file = None, dk_mode = 0, dk_side = []\<rparr>"

definition without :: "(string \<Rightarrow> bool) \<Rightarrow> (string \<rightharpoonup> 'a) \<Rightarrow> string \<rightharpoonup> 'a" where
  "without lost fs = (\<lambda>p. if lost p then None else fs p)"

definition key_path :: "string \<Rightarrow> string" where "key_path dir = join_path dir ''device.key''"
definition meta_path :: "string \<Rightarrow> string" where "meta_path dir = join_path dir ''device.json''"

definition lost_ids :: "(string \<Rightarrow> bool) \<Rightarrow> (string \<Rightarrow> id_files) \<Rightarrow> string \<Rightarrow> id_files" where
  "lost_ids lost ids dir =
     \<lparr>f_key = (if lost (key_path dir) then None else f_key (ids dir)),
      f_meta = (if lost (meta_path dir) then None else f_meta (ids dir))\<rparr>"

definition forget :: "cli_env \<Rightarrow> (string \<Rightarrow> bool) \<Rightarrow> 'm cli_system \<Rightarrow> 'm cli_system" where
  "forget env lost s =
     (let m = wb_machine (sy_web s); w = m_world m;
          w1 = w\<lparr>w_dirs := without lost (w_dirs w), w_pid := (if lost (PIDFile (de_Paths env)) then None else w_pid w)\<rparr>
      in s\<lparr>sy_web := (sy_web s)\<lparr>wb_machine := m\<lparr>m_world := w1, m_id := lost_ids lost (m_id m)\<rparr>,
              wb_files := without lost (wb_files (sy_web s))\<rparr>,
          sy_disks := (\<lambda>p. if lost p then no_disk else sy_disks s p),
          sy_up := (sy_up s)\<lparr>up_files := without lost (up_files (sy_up s))\<rparr>\<rparr>)"

text \<open>The other way round: the files a command made or removed are nodes made or removed in the tree.\<close>

definition tracked :: "cli_env \<Rightarrow> 'm cli_system \<Rightarrow> (string \<times> bool) list" where
  "tracked env s =
     [(db_path env, dk_file (sy_disks s (db_path env)) \<noteq> None),
      (key_path (identityDir env), f_key (m_id (wb_machine (sy_web s)) (identityDir env)) \<noteq> None),
      (meta_path (identityDir env), f_meta (m_id (wb_machine (sy_web s)) (identityDir env)) \<noteq> None),
      (ConfigFile (de_Paths env), wb_files (sy_web s) (ConfigFile (de_Paths env)) \<noteq> None)]
     @ map (\<lambda>b. (join_path ''/usr/local/bin'' b, up_files (sy_up s) (join_path ''/usr/local/bin'' b) \<noteq> None)) binary_names"

definition add_file :: "string list \<Rightarrow> tree \<Rightarrow> tree" where
  "add_file p t =
     (if p \<in> set (map fst t) then t
      else t @ map (\<lambda>q. (q, DirNode)) (filter (\<lambda>q. q \<noteq> [] \<and> q \<noteq> p \<and> q \<notin> set (map fst t)) (prefixes p)) @ [(p, FileNode [])])"

definition update_node :: "uninstall_env \<Rightarrow> (string \<times> bool) \<times> (string \<times> bool) \<Rightarrow> tree \<Rightarrow> tree" where
  "update_node ue x t =
     (case x of ((p, was), (_, is)) \<Rightarrow>
        if was = is then t else if is then add_file (locate ue p) t else filter (\<lambda>(q, _). q \<noteq> locate ue p) t)"

definition settled :: "uninstall_env \<Rightarrow> cli_env \<Rightarrow> 'm cli_system \<Rightarrow> 'm cli_system \<Rightarrow> 'm cli_system" where
  "settled ue env s s1 =
     s1\<lparr>sy_it := (sy_it s1)\<lparr>it_tree := fold (update_node ue) (zip (tracked env s) (tracked env s1)) (it_tree (sy_it s1))\<rparr>\<rparr>"

section \<open>The commands\<close>

definition commands :: "(string \<times> string) list" where
  "commands =
     [(''version'', ''Print version and platform information''),
      (''status'', ''Show the state of this installation''),
      (''doctor'', ''Check the installation and report problems''),
      (''service'', ''Inspect and manage system services''),
      (''system'', ''Show system information''),
      (''sk'', ''Create and manage secure device identities''),
      (''web'', ''Manage the local Web Panel service''),
      (''uninstall'', ''Remove InfraPilot services and binaries (preserves data)''),
      (''update'', ''Check for and install InfraPilot updates'')]"

definition runStatus :: "invocation \<Rightarrow> cli_env \<Rightarrow> 'm cli_system \<Rightarrow> 'm cli_outcome" where
  "runStatus iv env s =
     (case CollectStatus (iv_probe iv) (de_Config env) (de_Paths env) (de_ConfigErr env) (world_of s) of
        (w, status) \<Rightarrow> (set_world w s, writeStatus status, Return None))"

definition runDoctor :: "invocation \<Rightarrow> cli_env \<Rightarrow> 'm cli_system \<Rightarrow> 'm cli_outcome" where
  "runDoctor iv env s =
     (case Diagnose (iv_probe iv) env (world_of s) of
        (w, report) \<Rightarrow>
          (set_world w s, writeReport report,
           Return (if OK report then None
                   else Some (New KindValidation ''cli.doctor'' ''one or more checks failed; see the report above''))))"

definition runSystem :: "host \<Rightarrow> string list \<Rightarrow> string \<times> go_error option" where
  "runSystem h args =
     (if args \<noteq> [''info''] then ([], Some (New KindUsage ''cli.system'' ''usage: infrapilot system info''))
      else (writeSystem (Collect h), None))"

definition noArgs :: "('m cli_system \<Rightarrow> 'm cli_outcome) \<Rightarrow> string list \<Rightarrow> 'm cli_system \<Rightarrow> 'm cli_outcome" where
  "noArgs run args s =
     (if args \<noteq> []
      then (s, [], Return (Some (New KindUsage ''cli.Execute'' (''command takes no arguments, got '' @ Quote (Join args '' '')))))
      else run s)"

text \<open>A removal takes its files from every view of them.\<close>

definition removal :: "invocation \<Rightarrow> cli_env \<Rightarrow> string list \<Rightarrow> 'm cli_system \<Rightarrow> 'm cli_outcome" where
  "removal iv env args s =
     (case runUninstall (iv_uninstall iv) env (iv_in iv) args (sy_it s) of
        (i, out, r) \<Rightarrow> (forget env (gone (iv_uninstall iv) (it_tree (sy_it s)) (it_tree i)) (s\<lparr>sy_it := i\<rparr>), out, Return r))"

definition run_named :: "'m Backend \<Rightarrow> invocation \<Rightarrow> cli_env \<Rightarrow> string \<Rightarrow> string list \<Rightarrow> 'm cli_system \<Rightarrow> 'm cli_outcome" where
  "run_named B iv env name args s =
     (if name = ''version'' then noArgs (\<lambda>s. (s, runVersion (iv_host iv) (iv_go iv), Return None)) args s
      else if name = ''status'' then noArgs (on_database env (runStatus iv env)) args s
      else if name = ''doctor'' then noArgs (on_database env (runDoctor iv env)) args s
      else if name = ''service'' then
        (case runService B args (sy_units s) of (m, out, r) \<Rightarrow> (s\<lparr>sy_units := m\<rparr>, out, Return r))
      else if name = ''system'' then (case runSystem (iv_host iv) args of (out, r) \<Rightarrow> (s, out, Return r))
      else if name = ''sk'' then
        on_database env (\<lambda>s. case runSK (we_sk (iv_web iv)) env args (wb_machine (sy_web s)) of
          (m, out, r) \<Rightarrow> (set_machine m s, out, Return r)) s
      else if name = ''web'' then
        on_database env (\<lambda>s. case runWeb (iv_web iv) env (iv_in iv) args (sy_web s) of
          (w, out, r) \<Rightarrow> (s\<lparr>sy_web := w\<rparr>, out, r)) s
      else if name = ''uninstall'' then removal iv env args s
      else
        (case runUpdate (iv_update iv) env (iv_in iv) args (sy_up s) of (u, out, r) \<Rightarrow> (s\<lparr>sy_up := u\<rparr>, out, Return r)))"

section \<open>Arguments\<close>

text \<open>Every case of the loop returns, so only the first argument is looked at.\<close>

definition parse :: "string list \<Rightarrow> go_error + string \<times> string list" where
  "parse args =
     (case args of [] \<Rightarrow> Inr ([], [])
      | arg # rest \<Rightarrow>
          if arg = ''-h'' \<or> arg = ''--help'' \<or> arg = ''help'' then Inr ([], [])
          else if arg = ''-v'' \<or> arg = ''--version'' then Inr (''version'', rest)
          else if HasPrefix arg ''-'' then Inl (New KindUsage ''cli.parse'' (''unknown flag '' @ Quote arg))
          else Inr (arg, rest))"

definition lookup_command :: "string \<Rightarrow> go_error option" where
  "lookup_command name =
     (if name \<in> fst ` set commands then None
      else Some (New KindUsage ''cli.lookup'' (''unknown command '' @ Quote name)))"

definition zero_config :: config where
  "zero_config =
     \<lparr>cf_Agent = \<lparr>ag_DataDir = [], ag_ShutdownTimeout = 0, ag_HeartbeatInterval = 0\<rparr>,
      cf_Logging = \<lparr>lo_Level = [], lo_Format = []\<rparr>, cf_Storage = \<lparr>so_Path = [], so_BusyTimeout = 0\<rparr>,
      cf_BindAddress = [], cf_Update = \<lparr>ud_Enabled = False, ud_CheckInterval = 0, ud_AutoInstall = False\<rparr>,
      cf_paths = \<lparr>ConfigFile = [], DataDir = [], DevMode = False\<rparr>\<rparr>"

definition read_config :: "invocation \<Rightarrow> string \<Rightarrow> up_files \<Rightarrow> go_error + bytes" where
  "read_config iv path fs =
     (case iv_conf iv of Some e \<Rightarrow> Inl e
      | None \<Rightarrow> (case fs path of None \<Rightarrow> Inl no_file | Some (data, _) \<Rightarrow> Inr data))"

definition cli_resolve :: "invocation \<Rightarrow> up_files \<Rightarrow> go_error + cli_env" where
  "cli_resolve iv fs =
     (case ResolvePaths (iv_environ iv) of Inl e \<Rightarrow> Inl e
      | Inr paths \<Rightarrow>
          Inr (case Load_config (iv_yaml iv) (read_config iv (ConfigFile paths) fs) (iv_environ iv) paths of
                 Inl e \<Rightarrow> \<lparr>de_Config = zero_config, de_Paths = paths, de_ConfigErr = Some e\<rparr>
               | Inr cfg \<Rightarrow> \<lparr>de_Config = cfg, de_Paths = paths, de_ConfigErr = None\<rparr>))"

section \<open>Usage and execution\<close>

definition usage_line :: "string \<Rightarrow> string \<Rightarrow> string" where
  "usage_line name summary = ''  '' @ pad_right 9 name @ '' '' @ summary @ newline"

definition writeUsage :: string where
  "writeUsage =
     Product_Name @ '' '' @ Version @ '' '' @ [CHR 0xE2, CHR 0x80, CHR 0x94] @ '' self-hosted infrastructure management''
     @ newline @ newline @ ''Usage:'' @ newline @ ''  infrapilot <command> [arguments]'' @ newline @ newline
     @ ''Commands:'' @ newline @ concat (map (\<lambda>(name, summary). usage_line name summary) commands)
     @ usage_line ''help'' ''Show this help text''
     @ newline @ ''The agent runs as a service; see infrapilot-agent and installer/.'' @ newline"

text \<open>The error output and the exit code, or the panic.\<close>

definition refused :: "go_error \<Rightarrow> 'm cli_system \<Rightarrow> 'm cli_system \<times> string \<times> (string \<times> int) call" where
  "refused e s = (s, [], Return (Error e @ newline @ newline @ writeUsage, ExitCode (Some e)))"

definition report_result :: "go_error option call \<Rightarrow> (string \<times> int) call" where
  "report_result x =
     (case x of Panic p \<Rightarrow> Panic p
      | Return None \<Rightarrow> Return ([], ExitOK)
      | Return (Some e) \<Rightarrow>
          Return (Error e @ newline @ (if IsKind (Some e) KindUsage then writeUsage else []), ExitCode (Some e)))"

definition Execute :: "'m Backend \<Rightarrow> invocation \<Rightarrow> 'm cli_system \<Rightarrow> 'm cli_system \<times> string \<times> (string \<times> int) call" where
  "Execute B iv s =
     (case parse (iv_args iv) of Inl e \<Rightarrow> refused e s
      | Inr (name, rest) \<Rightarrow>
          if name = [] then (s, writeUsage, Return ([], ExitOK))
          else (case lookup_command name of Some e \<Rightarrow> refused e s
            | None \<Rightarrow>
                (case cli_resolve iv (wb_files (sy_web s)) of
                   Inl e \<Rightarrow> (s, [], Return (Error e @ newline, ExitCode (Some e)))
                 | Inr env \<Rightarrow>
                     (case run_named B iv env name rest s of (s', out, x) \<Rightarrow> (settled (iv_uninstall iv) env s s', out, report_result x)))))"

section \<open>The exit code\<close>

lemma ResolvePaths_kind: "ResolvePaths env = Inl e \<Longrightarrow> KindOf (Some e) \<noteq> KindUsage"
  by (auto simp: ResolvePaths_def res_bind_eq_Inl devDirs_def override_err_def New_def Let_def
      split: if_splits sum.splits prod.splits)

lemma cli_resolve_kind: "cli_resolve iv fs = Inl e \<Longrightarrow> KindOf (Some e) \<noteq> KindUsage"
  by (auto simp: cli_resolve_def split: sum.splits dest: ResolvePaths_kind)

lemma refusal_kinds:
  "parse args = Inl e \<Longrightarrow> IsKind (Some e) KindUsage"
  "lookup_command name = Some e \<Longrightarrow> IsKind (Some e) KindUsage"
  by (auto simp: parse_def lookup_command_def New_def IsKind_def split: list.splits if_splits)

lemma setup_panic:
  assumes "runWebSetup we env inp st = (st', out, Panic p)"
  shows "read_root we (ConfigFile (de_Paths env)) (wb_files st) = Inr None"
proof (cases inp)
  case (Some cs)
  with assms runWebSetup_cases [of we env cs st st' out "Panic p"]
  obtain fs where "saveBind we (ConfigFile (de_Paths env)) (bind_answered cs) (wb_files st) = (fs, Panic p)" by auto
  then show ?thesis by (auto simp: saveBind_def split: sum.splits option.splits prod.splits)
qed (use assms in \<open>simp add: runWebSetup_def\<close>)

lemma web_parts_return:
  "\<exists>r. snd (snd (web_act f we t st)) = Return r" "\<exists>r. snd (snd (web_status we env st)) = Return r"
  "\<exists>r. snd (snd (web_logs we st)) = Return r"
  by (auto simp: web_act_def web_status_def web_logs_def Let_def split: prod.splits option.splits)

lemma web_panic:
  assumes "snd (snd (runWeb we env inp args st)) = Panic p"
  shows "args = [''setup''] \<and> read_root we (ConfigFile (de_Paths env)) (wb_files st) = Inr None"
proof -
  have no: "snd (snd (web_act f we t st)) \<noteq> Panic p" "snd (snd (web_status we env st)) \<noteq> Panic p"
    "snd (snd (web_logs we st)) \<noteq> Panic p" for f t
    using web_parts_return(1) [of f we t st] web_parts_return(2) [of we env st] web_parts_return(3) [of we st] by auto
  have "args = [''setup''] \<and> snd (snd (runWebSetup we env inp st)) = Panic p"
    using assms no unfolding runWeb_def Let_def by (simp split: list.splits if_splits)
  then show ?thesis using setup_panic by (metis prod.collapse)
qed

lemma mounted_simps [simp]:
  "wb_files (sy_web (mounted env s)) = wb_files (sy_web s)" "wb_log (sy_web (mounted env s)) = wb_log (sy_web s)"
  "sy_units (mounted env s) = sy_units s" "sy_disks (mounted env s) = sy_disks s" "sy_up (mounted env s) = sy_up s"
  "sy_it (mounted env s) = sy_it s" "m_id (wb_machine (sy_web (mounted env s))) = m_id (wb_machine (sy_web s))"
  "world_of (mounted env s) = (world_of s)\<lparr>w_disk := sy_disks s (db_path env)\<rparr>"
  by (simp_all add: mounted_def set_world_def set_machine_def world_of_def)

lemma unmounted_mounted [simp]: "unmounted env s (mounted env s) = s"
  by (simp add: unmounted_def mounted_def set_world_def set_machine_def world_of_def)

lemma settled_same [simp]: "settled ue env s s = s"
proof -
  have "fold (update_node ue) (zip xs xs) t = t" for xs t
    by (induction xs arbitrary: t) (simp_all add: update_node_def split: prod.splits)
  then show ?thesis by (simp add: settled_def)
qed

lemma forget_nothing: "(\<And>p. \<not> lost p) \<Longrightarrow> forget env lost s = s"
  by (simp add: forget_def without_def lost_ids_def Let_def fun_eq_iff)

lemma gone_refl: "\<not> gone ue t t p"
  by (simp add: gone_def)

lemma named_returns:
  "(\<And>t. \<exists>r. snd (snd (run t)) = Return r) \<Longrightarrow> \<exists>r. snd (snd (noArgs run args s)) = Return r"
  "(\<And>t. \<exists>r. snd (snd (run t)) = Return r) \<Longrightarrow> \<exists>r. snd (snd (on_database env run s)) = Return r"
  "\<exists>r. snd (snd (runStatus iv env s)) = Return r" "\<exists>r. snd (snd (runDoctor iv env s)) = Return r"
  "\<exists>r. snd (snd (removal iv env args s)) = Return r"
  unfolding noArgs_def on_database_def runStatus_def runDoctor_def removal_def
  by (simp_all split: prod.splits) (metis snd_conv)

lemma named_panic:
  assumes "run_named B iv env name args s = (s', out, Panic p)"
  shows "name = ''web'' \<and> args = [''setup''] \<and> read_root (iv_web iv) (ConfigFile (de_Paths env)) (wb_files (sy_web s)) = Inr None"
proof -
  have x: "\<not> (\<exists>r. snd (snd (run_named B iv env name args s)) = Return r)" using assms by simp
  have n: "\<exists>r. snd (snd (noArgs (\<lambda>s. (s, t, Return None)) args s)) = Return r"
    "\<exists>r. snd (snd (noArgs (on_database env (runStatus iv env)) args s)) = Return r"
    "\<exists>r. snd (snd (noArgs (on_database env (runDoctor iv env)) args s)) = Return r"
    "\<exists>r. snd (snd (on_database env (\<lambda>s. case runSK (we_sk (iv_web iv)) env args (wb_machine (sy_web s)) of
          (m, out, r) \<Rightarrow> (set_machine m s, out, Return r)) s)) = Return r" for t
    by (intro named_returns; simp split: prod.splits)+
  have web: "name = ''web''"
  proof (rule ccontr)
    assume "name \<noteq> ''web''"
    with n named_returns(5) [of iv env args s] have "\<exists>r. snd (snd (run_named B iv env name args s)) = Return r"
      unfolding run_named_def by (simp split: prod.splits)
    with x show False by simp
  qed
  with assms have "snd (snd (runWeb (iv_web iv) env (iv_in iv) args (sy_web (mounted env s)))) = Panic p"
    by (simp add: run_named_def on_database_def split: prod.splits)
  then show ?thesis using web web_panic [of "iv_web iv" env "iv_in iv" args "sy_web (mounted env s)" p] by simp
qed

lemma ExitCode_some: "ExitCode (Some e) = (if IsKind (Some e) KindUsage then 2 else 1)"
  by (simp add: ExitCode_def exit_codes)

lemma Execute_cases:
  assumes "Execute B iv s = r"
  obtains (refused) e where "r = refused e s" "IsKind (Some e) KindUsage"
      "\<And>name rest. parse (iv_args iv) = Inr (name, rest) \<Longrightarrow> name \<notin> fst ` set commands"
  | (usage) rest where "r = (s, writeUsage, Return ([], 0))" "parse (iv_args iv) = Inr ([], rest)"
  | (unresolved) e name rest where "r = (s, [], Return (Error e @ newline, 1))" "cli_resolve iv (wb_files (sy_web s)) = Inl e"
      "parse (iv_args iv) = Inr (name, rest)" "name \<in> fst ` set commands"
  | (ran) env name rest s' out x where "cli_resolve iv (wb_files (sy_web s)) = Inr env" "parse (iv_args iv) = Inr (name, rest)"
      "name \<noteq> []" "lookup_command name = None" "run_named B iv env name rest s = (s', out, x)"
      "r = (settled (iv_uninstall iv) env s s', out, report_result x)"
proof (cases "parse (iv_args iv)")
  case (Inl e)
  with assms refusal_kinds(1) [OF Inl] show thesis by (intro refused [of e]) (simp_all add: Execute_def)
next
  case (Inr nr)
  obtain name rest where nr: "nr = (name, rest)" by (cases nr)
  show thesis
  proof (cases "name = []")
    case True
    with assms Inr nr show thesis by (intro usage [of rest]) (simp_all add: Execute_def ExitOK_def)
  next
    case ne: False
    show thesis
    proof (cases "lookup_command name")
      case (Some e)
      then have "name \<notin> fst ` set commands" by (simp add: lookup_command_def split: if_splits)
      with assms Inr nr ne Some refusal_kinds(2) [OF Some] show thesis by (intro refused [of e]) (simp_all add: Execute_def)
    next
      case None
      then have known: "name \<in> fst ` set commands" by (simp add: lookup_command_def split: if_splits)
      show thesis
      proof (cases "cli_resolve iv (wb_files (sy_web s))")
        case (Inl e)
        with cli_resolve_kind [OF Inl] have "ExitCode (Some e) = 1" by (simp add: ExitCode_some IsKind_def)
        with assms Inr nr ne None Inl known show thesis
          by (intro unresolved [of e name rest]) (simp_all add: Execute_def)
      next
        case env: (Inr env)
        obtain s' out x where "run_named B iv env name rest s = (s', out, x)" by (cases "run_named B iv env name rest s")
        with assms Inr nr ne None env show thesis
          by (intro ran [of env name rest s' out x]) (simp_all add: Execute_def)
      qed
    qed
  qed
qed


section \<open>The grammar of the arguments\<close>

text \<open>
  What the commands accept, as patterns of words; \<open>update\<close> looks at its first argument only, and at one it does not know
  last, \<open>uninstall\<close> at all of them in a loop.
\<close>

datatype word_pattern = Lit string | AnyWord

fun fits :: "word_pattern \<Rightarrow> string \<Rightarrow> bool" where
  "fits (Lit w) s \<longleftrightarrow> s = w"
| "fits AnyWord s \<longleftrightarrow> True"

definition service_grammar :: "word_pattern list list" where
  "service_grammar =
     [[Lit ''list''], [Lit ''status'', AnyWord], [Lit ''start'', AnyWord], [Lit ''stop'', AnyWord], [Lit ''restart'', AnyWord],
      [Lit ''enable'', AnyWord], [Lit ''disable'', AnyWord], [Lit ''logs'', AnyWord], [Lit ''logs'', AnyWord, Lit ''--lines'', AnyWord]]"

definition sk_grammar :: "word_pattern list list" where
  "sk_grammar =
     [[Lit ''help''], [Lit ''create''], [Lit ''replace'', AnyWord], [Lit ''list''], [Lit ''revoke'', AnyWord], [Lit ''status''],
      [Lit ''delete'', Lit ''--confirm''], [Lit ''reset'', Lit ''--confirm'']]"

definition web_grammar :: "word_pattern list list" where
  "web_grammar =
     [[Lit ''setup''], [Lit ''start''], [Lit ''start'', Lit ''background''], [Lit ''stop''], [Lit ''restart''], [Lit ''enable''],
      [Lit ''disable''], [Lit ''status''], [Lit ''url''], [Lit ''tls'', Lit ''status''], [Lit ''logs'']]"

definition in_grammar :: "word_pattern list list \<Rightarrow> string list \<Rightarrow> bool" where
  "in_grammar g args \<longleftrightarrow> list_ex (\<lambda>ps. list_all2 fits ps args) g"

definition update_words :: "string list" where
  "update_words = [''--help'', ''status'', ''check'', ''--check'', ''--yes'']"

definition well_formed :: "string list \<Rightarrow> bool" where
  "well_formed args \<longleftrightarrow>
     (case parse args of Inl _ \<Rightarrow> False
      | Inr (name, rest) \<Rightarrow>
          name = [] \<or> (name \<in> {''version'', ''status'', ''doctor''} \<and> rest = []) \<or> (name = ''service'' \<and> in_grammar service_grammar rest)
          \<or> (name = ''system'' \<and> rest = [''info'']) \<or> (name = ''sk'' \<and> in_grammar sk_grammar rest)
          \<or> (name = ''web'' \<and> in_grammar web_grammar rest) \<or> (name = ''update'' \<and> (rest = [] \<or> hd rest \<in> set update_words))
          \<or> (name = ''uninstall'' \<and> (case uninstall_mode rest False of BadArgument _ \<Rightarrow> False | _ \<Rightarrow> True)))"

lemma short_list:
  obtains "xs = []" | a where "xs = [a]" | a b where "xs = [a, b]" | a b c where "xs = [a, b, c]"
  | a b c d where "xs = [a, b, c, d]" | a b c d e ys where "xs = a # b # c # d # e # ys"
  by (metis neq_Nil_conv)

text \<open>What a refused command gives: nothing but a usage error.\<close>

definition refusal :: "'s \<Rightarrow> 's cli_result \<Rightarrow> bool" where
  "refusal s r \<longleftrightarrow> fst r = s \<and> fst (snd r) = [] \<and> IsKind (snd (snd r)) KindUsage"

lemma refusal_usage:
  "refusal m (m, [], Some (service_usage msg))" "refusal m (m, [], Some (sk_usage msg))"
  "refusal m (m, [], Some logs_usage)" "refusal m (m, [], Some (New KindUsage op msg))"
  by (simp_all add: refusal_def service_usage_def sk_usage_def logs_usage_def IsKind_def)

lemma service_malformed:
  assumes "\<not> in_grammar service_grammar args"
  shows "refusal m (runService B args m)"
  using assms
  by (cases args rule: short_list) (simp_all add: in_grammar_def service_grammar_def runService_def refusal_usage)

lemma sk_malformed:
  assumes "\<not> in_grammar sk_grammar args"
  shows "refusal m (runSK sk env args m)"
  using assms
  by (cases args rule: short_list) (simp_all add: in_grammar_def sk_grammar_def runSK_def refusal_usage Let_def)

lemma web_malformed:
  assumes "\<not> in_grammar web_grammar args"
  shows "\<exists>e. runWeb we env inp args st = (st, [], Return (Some e)) \<and> IsKind (Some e) KindUsage"
  using assms
  by (cases args rule: short_list)
    (simp_all add: in_grammar_def web_grammar_def runWeb_def web_usage_def IsKind_def Let_def)

lemma named_malformed:
  assumes "parse args = Inr (name, rest)" "name \<noteq> []" "lookup_command name = None" "\<not> well_formed args" "name \<noteq> ''update''"
  shows "\<exists>e. run_named B iv env name rest s = (s, [], Return (Some e)) \<and> IsKind (Some e) KindUsage"
proof -
  have known: "name \<in> fst ` set commands" using assms(3) by (simp add: lookup_command_def split: if_splits)
  have set_same: "t\<lparr>sy_units := sy_units t\<rparr> = t" "set_machine (wb_machine (sy_web t)) t = t" "t\<lparr>sy_web := sy_web t\<rparr> = t"
      "t\<lparr>sy_it := sy_it t\<rparr> = t" for t :: "'a cli_system"
    by (simp_all add: set_machine_def)
  have ref: "\<exists>e. x = (t, [], Some e) \<and> IsKind (Some e) KindUsage" if "refusal t x" for t :: 't and x
    using that by (cases x; cases "snd (snd x)") (auto simp: refusal_def IsKind_def)
  have "name \<in> {''version'', ''status'', ''doctor''} \<or> name = ''service'' \<or> name = ''system'' \<or> name = ''sk'' \<or> name = ''web''
      \<or> name = ''uninstall''"
    using known assms(5) by (simp add: commands_def)
  then consider "name \<in> {''version'', ''status'', ''doctor''}" | "name = ''service''" | "name = ''system''" | "name = ''sk''"
    | "name = ''web''" | "name = ''uninstall''"
    by (elim disjE) simp_all
  then show ?thesis
  proof cases
    case 1
    with assms have "rest \<noteq> []" by (auto simp: well_formed_def)
    with 1 show ?thesis by (auto simp: run_named_def noArgs_def IsKind_def)
  next
    case 2
    with assms have "\<not> in_grammar service_grammar rest" by (auto simp: well_formed_def)
    from ref [OF service_malformed [OF this, of "sy_units s" B]] 2 set_same show ?thesis by (auto simp: run_named_def)
  next
    case 3
    with assms show ?thesis by (auto simp: well_formed_def run_named_def runSystem_def IsKind_def)
  next
    case 4
    with assms have "\<not> in_grammar sk_grammar rest" by (auto simp: well_formed_def)
    from ref [OF sk_malformed [OF this, of "wb_machine (sy_web (mounted env s))" "we_sk (iv_web iv)" env]] 4 set_same
    show ?thesis by (auto simp: run_named_def on_database_def)
  next
    case 5
    with assms have "\<not> in_grammar web_grammar rest" by (auto simp: well_formed_def)
    from web_malformed [OF this, of "iv_web iv" env "iv_in iv" "sy_web (mounted env s)"] 5 set_same
    show ?thesis by (auto simp: run_named_def on_database_def)
  next
    case 6
    with assms obtain arg where "uninstall_mode rest False = BadArgument arg"
      by (cases "uninstall_mode rest False") (auto simp: well_formed_def)
    with 6 show ?thesis by (auto simp: run_named_def removal_def runUninstall_def IsKind_def gone_refl forget_nothing)
  qed
qed

text \<open>An argument \<open>update\<close> does not know is refused only where it would install: after the question was answered.\<close>

definition update_asks :: "update_input \<Rightarrow> cli_env \<Rightarrow> bool" where
  "update_asks ui env \<longleftrightarrow> ud_Enabled (cf_Update (de_Config env))
     \<and> (case latest (ui_env ui) [] of Inl _ \<Rightarrow> False | Inr release \<Rightarrow> Compare Version (rl_TagName release) < 0)"

definition says_yes :: "reads option \<Rightarrow> bool" where
  "says_yes inp \<longleftrightarrow> (case inp of None \<Rightarrow> False | Some cs \<Rightarrow> TrimSpace (fst (read_line cs)) = ''YES'')"

lemma update_malformed:
  assumes "rest \<noteq> []" "hd rest \<notin> set update_words" "runUpdate ui env inp rest st = (st', out, err)"
  shows "st' = st \<and> ((\<exists>e. err = Some e \<and> IsKind (Some e) KindUsage) \<longleftrightarrow> update_asks ui env \<and> says_yes inp)
    \<and> (update_asks ui env \<longrightarrow> suffix ''Type YES to install: '' out)"
proof -
  obtain w ws where w: "rest = w # ws" "w \<notin> set update_words" using assms(1,2) by (cases rest) auto
  have kind: "\<not> IsKind (Some (update_error KindPermission m)) KindUsage" "IsKind (Some (update_error KindUsage m)) KindUsage"
    "\<not> IsKind (Some (wrap_err KindInternal op m e)) KindUsage" for op m e
    by (simp_all add: update_error_def IsKind_def)
  show ?thesis
  proof (cases "latest (ui_env ui) []")
    case (Inl e)
    with assms(3) w kind show ?thesis
      by (auto simp: runUpdate_def update_asks_def update_words_def Let_def split: if_splits)
  next
    case (Inr release)
    have "update_asks ui env \<longleftrightarrow> ud_Enabled (cf_Update (de_Config env)) \<and> Compare Version (rl_TagName release) < 0"
      by (simp add: update_asks_def Inr)
    with assms(3) w kind Inr show ?thesis
      by (auto simp: runUpdate_def update_words_def says_yes_def suffix_def Let_def not_le split: if_splits)
  qed
qed

section \<open>Any sequence of invocations\<close>

text \<open>The devices the database file at a path trusts.\<close>

definition registry_at :: "'m cli_system \<Rightarrow> string \<Rightarrow> registry" where
  "registry_at s p = abs_registry (tables_of (file_of (sy_disks s p)))"

text \<open>
  The command lines that remove the file at a path: a confirmed \<open>uninstall\<close> whose installed files it is one of, or, purging,
  whose directories it lies in.
\<close>

definition removes :: "invocation \<Rightarrow> string \<Rightarrow> bool" where
  "removes iv p \<longleftrightarrow>
     (case (parse (iv_args iv), ResolvePaths (iv_environ iv)) of
        (Inr (name, rest), Inr paths) \<Rightarrow>
          name = ''uninstall'' \<and>
          (case uninstall_mode rest False of
             Mode purge \<Rightarrow> uninstall_confirmed (iv_in iv) purge
               \<and> (locate (iv_uninstall iv) p \<in> set installed_files
                  \<or> purge \<and> (strict_prefix (locate (iv_uninstall iv) (DataDir paths)) (locate (iv_uninstall iv) p)
                     \<or> strict_prefix (locate (iv_uninstall iv) (Dir (ConfigFile paths))) (locate (iv_uninstall iv) p)))
           | _ \<Rightarrow> False)
      | _ \<Rightarrow> False)"

text \<open>
  What a run moves along: the devices of one database stay known by their key and revoked ones revoked, handles are
  balanced, and what ran on the units was safe.
\<close>

definition cli_before :: "bool \<Rightarrow> string \<Rightarrow> 'm unit_runner \<Rightarrow> 'm cli_system \<Rightarrow> 'm cli_system \<Rightarrow> bool" where
  "cli_before b p rn s s' \<longleftrightarrow> (b \<longrightarrow> reg_le (registry_at s p) (registry_at s' p)) \<and> balanced (world_of s) (world_of s')
     \<and> runs rn safe_command (sy_units s) (sy_units s')"

lemma reg_le_trans: "reg_le R S \<Longrightarrow> reg_le S T \<Longrightarrow> reg_le R T"
  unfolding reg_le_def by metis

lemma reg_le_steps:
  "R d = None \<Longrightarrow> reg_le R (R(d \<mapsto> x))" "reg_le R (reg_revoke d R)"
  by (auto simp: reg_le_def reg_revoke_def split: option.splits bool.splits)

lemma sk_refines_le:
  assumes "sk_refines m args m' out err"
  shows "reg_le (registry_of m) (registry_of m')"
  using assms unfolding sk_refines_def
  by (auto simp: reg_le_refl reg_le_steps split: if_splits)

lemma looked_registry: "looked (m_world m) w \<Longrightarrow> registry_of (m\<lparr>m_world := w\<rparr>) = registry_of m"
  by (auto simp: looked_def registry_of_def dest: same_fileD)

lemma paired_text_keeps:
  assumes "paired_text we env m = (m', t)"
  shows "registry_of m' = registry_of m \<and> balanced (m_world m) (m_world m')"
proof -
  obtain w x where o: "openIdentityDB (sk_open (we_sk we)) env (m_world m) = (w, x)"
    by (cases "openIdentityDB (sk_open (we_sk we)) env (m_world m)")
  from openIdentityDB_cases [OF o] o assms show ?thesis
    by (cases x) (auto simp: paired_text_def registry_of_def balanced_def close_db_def)
qed

lemma web_status_keeps:
  assumes "web_status we env st = (st', out, r)"
  shows "registry_of (wb_machine st') = registry_of (wb_machine st) \<and> balanced (m_world (wb_machine st)) (m_world (wb_machine st'))"
proof -
  obtain m t where p: "paired_text we env (wb_machine st) = (m, t)" by (cases "paired_text we env (wb_machine st)")
  with paired_text_keeps [OF p] assms show ?thesis
    by (auto simp: web_status_def balanced_refl Let_def split: prod.splits option.splits)
qed

lemma web_others_keep:
  "wb_machine (fst (web_act f we t st)) = wb_machine st" "wb_machine (fst (web_logs we st)) = wb_machine st"
  "wb_machine (fst (runWebSetup we env inp st)) = wb_machine st"
proof -
  show "wb_machine (fst (runWebSetup we env inp st)) = wb_machine st"
  proof (cases inp)
    case (Some cs)
    obtain st' out r where w: "runWebSetup we env (Some cs) st = (st', out, r)" by (cases "runWebSetup we env (Some cs) st")
    with runWebSetup_cases [OF w] Some show ?thesis by auto
  qed (simp add: runWebSetup_def)
qed (auto simp: web_act_def web_logs_def split: prod.splits option.splits)

definition web_keeps :: "web_state \<Rightarrow> web_result \<Rightarrow> bool" where
  "web_keeps st r \<longleftrightarrow> registry_of (wb_machine (fst r)) = registry_of (wb_machine st)
     \<and> balanced (m_world (wb_machine st)) (m_world (wb_machine (fst r)))"

lemma runWeb_keeps: "web_keeps st (runWeb we env inp args st)"
proof -
  have "web_keeps st (web_status we env st)"
    using web_status_keeps [of we env st] by (cases "web_status we env st") (simp add: web_keeps_def)
  moreover have "web_keeps st (st, x)" "web_keeps st (web_act f we t st)" "web_keeps st (web_logs we st)"
    "web_keeps st (runWebSetup we env inp st)" for x f t
    by (simp_all add: web_keeps_def web_others_keep balanced_refl)
  ultimately show ?thesis unfolding runWeb_def Let_def by (simp split: list.splits)
qed

text \<open>A command on its database: the other databases stay, and its own moves along when the command moves it along.\<close>

lemma unmounted_simps:
  "sy_disks (unmounted env s s1) = (sy_disks s1)(db_path env := w_disk (world_of s1))"
  "world_of (unmounted env s s1) = (world_of s1)\<lparr>w_disk := w_disk (world_of s)\<rparr>"
  "sy_units (unmounted env s s1) = sy_units s1"
  by (simp_all add: unmounted_def set_world_def set_machine_def world_of_def)

lemma on_database_before:
  assumes "on_database env run s = (s', out, x)"
    and "\<And>s1 out x. run (mounted env s) = (s1, out, x) \<Longrightarrow>
      sy_disks s1 = sy_disks s \<and> sy_units s1 = sy_units s
      \<and> reg_le (registry_of (wb_machine (sy_web (mounted env s)))) (registry_of (wb_machine (sy_web s1)))
      \<and> balanced (world_of (mounted env s)) (world_of s1)"
  shows "cli_before b p rn s s'"
proof -
  obtain s1 where r: "run (mounted env s) = (s1, out, x)" and s': "s' = unmounted env s s1"
    using assms(1) by (auto simp: on_database_def split: prod.splits)
  note k = assms(2) [OF r]
  have "registry_of (wb_machine (sy_web (mounted env s))) = registry_at s (db_path env)"
    by (simp add: registry_of_def registry_at_def flip: world_of_def)
  moreover have "registry_of (wb_machine (sy_web s1)) = registry_at s' (db_path env)"
    by (simp add: registry_of_def registry_at_def s' unmounted_simps world_of_def)
  moreover have "registry_at s' p = registry_at s p" if "p \<noteq> db_path env"
    using that k by (simp add: registry_at_def s' unmounted_simps)
  ultimately show ?thesis
    using k by (cases "p = db_path env")
      (simp_all add: cli_before_def s' unmounted_simps reg_le_refl runs_refl balanced_def)
qed

lemma removal_before:
  assumes "removal iv env args s = (s', out, x)"
    and "ResolvePaths (iv_environ iv) = Inr (de_Paths env)" "parse (iv_args iv) = Inr (''uninstall'', args)" "b \<Longrightarrow> \<not> removes iv p"
  shows "cli_before b p rn s s'"
proof -
  obtain i e where u: "runUninstall (iv_uninstall iv) env (iv_in iv) args (sy_it s) = (i, out, e)"
    and s': "s' = forget env (gone (iv_uninstall iv) (it_tree (sy_it s)) (it_tree i)) (s\<lparr>sy_it := i\<rparr>)"
    using assms(1) by (auto simp: removal_def split: prod.splits)
  have "cli_before False p rn s s'"
    by (simp add: s' cli_before_def forget_def world_of_def Let_def runs_refl balanced_def)
  moreover have "registry_at s' p = registry_at s p" if b
  proof -
  have r: "\<not> (case uninstall_mode args False of Mode purge \<Rightarrow> uninstall_confirmed (iv_in iv) purge
        \<and> (locate (iv_uninstall iv) p \<in> set installed_files \<or> purge \<and> locate (iv_uninstall iv) p \<in> purged (iv_uninstall iv) env) | _ \<Rightarrow> False)"
    using assms(2,3) assms(4) [OF that] by (cases "uninstall_mode args False") (auto simp: removes_def purged_def below_def)
  have ch: "gone (iv_uninstall iv) (it_tree (sy_it s)) t' p \<Longrightarrow> locate (iv_uninstall iv) p \<in> changed (it_tree (sy_it s)) t'" for t'
    by (simp add: gone_def changed_def paths_of_def) (metis map_of_eq_None_iff)
  have "\<not> gone (iv_uninstall iv) (it_tree (sy_it s)) (it_tree i) p"
  proof (rule runUninstall_cases [OF u])
    assume "i = sy_it s"
    then show ?thesis by (simp add: gone_refl)
  next
    assume "uninstall_mode args False = Mode False" "uninstall_confirmed (iv_in iv) False" "i = remove_installed (iv_uninstall iv) (sy_it s)"
    with r ch remove_installed_cases(1) [of "sy_it s" "iv_uninstall iv"] show ?thesis by auto
  next
    fix t
    assume t: "uninstall_mode args False = Mode True" "uninstall_confirmed (iv_in iv) True"
      "purge_data (iv_uninstall iv) env (it_tree (remove_installed (iv_uninstall iv) (sy_it s))) = (t, e)"
      "i = (remove_installed (iv_uninstall iv) (sy_it s))\<lparr>it_tree := t\<rparr>"
    have "changed (it_tree (sy_it s)) t \<subseteq> set installed_files \<union> purged (iv_uninstall iv) env"
      using changed_trans [of "it_tree (sy_it s)" t "it_tree (remove_installed (iv_uninstall iv) (sy_it s))"]
        remove_installed_cases(1) [of "sy_it s" "iv_uninstall iv"] purge_data_cases [OF t(3)] by blast
    with r t ch show ?thesis by auto
  qed
  then show ?thesis by (simp add: s' registry_at_def forget_def Let_def)
  qed
  ultimately show ?thesis by (simp add: cli_before_def reg_le_refl)
qed

text \<open>One invocation.\<close>

lemma run_named_before:
  assumes "run_named (Adapter rn) iv env name args s = (s', out, x)"
    and "ResolvePaths (iv_environ iv) = Inr (de_Paths env)" "parse (iv_args iv) = Inr (name, args)" "b \<Longrightarrow> \<not> removes iv p"
  shows "cli_before b p rn s s'"
proof -
  let ?B = "Adapter rn"
  have same: "cli_before b p rn s t" if "sy_disks t = sy_disks s" "world_of t = world_of s" "sy_units t = sy_units s" for t
    using that by (simp add: cli_before_def registry_at_def reg_le_refl balanced_refl runs_refl)
  have looked: "on_database env run s = (t, o1, y) \<Longrightarrow> cli_before b p rn s t"
    if "\<And>s1 out x. run (mounted env s) = (s1, out, x) \<Longrightarrow> \<exists>w. s1 = set_world w (mounted env s) \<and> looked (world_of (mounted env s)) w"
    for run t o1 and y :: "go_error option call"
  proof (rule on_database_before)
    fix s1 out x assume "run (mounted env s) = (s1, out, x)"
    from that [OF this] obtain w where w: "s1 = set_world w (mounted env s)" "looked (world_of (mounted env s)) w" by blast
    have "world_of s1 = w" "sy_disks s1 = sy_disks s" "sy_units s1 = sy_units s"
      by (simp_all add: w(1) world_of_def set_world_def set_machine_def)
    moreover have "registry_of (wb_machine (sy_web s1)) = registry_of (wb_machine (sy_web (mounted env s)))"
      using looked_registry [OF w(2) [unfolded world_of_def [of "mounted env s"]]] by (simp add: w(1) set_world_def set_machine_def)
    moreover have "balanced (world_of (mounted env s)) w" using w(2) unfolding looked_def by blast
    ultimately show "sy_disks s1 = sy_disks s \<and> sy_units s1 = sy_units s
      \<and> reg_le (registry_of (wb_machine (sy_web (mounted env s)))) (registry_of (wb_machine (sy_web s1)))
      \<and> balanced (world_of (mounted env s)) (world_of s1)"
      by (simp only: reg_le_refl simp_thms)
  qed
  consider "name = ''version''" | "name = ''status''" | "name = ''doctor''" | "name = ''service''" | "name = ''system''"
    | "name = ''sk''" | "name = ''web''" | "name = ''uninstall''"
    | "name \<noteq> ''version''" "name \<noteq> ''status''" "name \<noteq> ''doctor''" "name \<noteq> ''service''" "name \<noteq> ''system''"
      "name \<noteq> ''sk''" "name \<noteq> ''web''" "name \<noteq> ''uninstall''" by argo
  then show ?thesis
  proof cases
    case 1
    with assms(1) same show ?thesis by (auto simp: run_named_def noArgs_def split: if_splits)
  next
    case 2
    have "\<exists>w. s1 = set_world w (mounted env s) \<and> looked (world_of (mounted env s)) w"
      if "runStatus iv env (mounted env s) = (s1, o1, y)" for s1 o1 y
      using that CollectStatus_looks by (auto simp: runStatus_def split: prod.splits)
    from looked [OF this] assms(1) 2 same show ?thesis by (auto simp: run_named_def noArgs_def split: if_splits)
  next
    case 3
    have "\<exists>w. s1 = set_world w (mounted env s) \<and> looked (world_of (mounted env s)) w"
      if "runDoctor iv env (mounted env s) = (s1, o1, y)" for s1 o1 y
      using that Diagnose_looks by (auto simp: runDoctor_def split: prod.splits)
    from looked [OF this] assms(1) 3 same show ?thesis by (auto simp: run_named_def noArgs_def split: if_splits)
  next
    case 4
    have "runs rn safe_command (sy_units s) (fst (runService ?B args (sy_units s)))"
      using runService_op [of ?B args "sy_units s"] systemd.manager_steps [of rn "sy_units s"] by (auto intro: runs_refl)
    with assms(1) 4 show ?thesis
      by (auto simp: run_named_def cli_before_def registry_at_def world_of_def reg_le_refl balanced_refl split: prod.splits)
  next
    case 5
    with assms(1) same show ?thesis by (auto simp: run_named_def split: prod.splits)
  next
    case 6
    let ?run = "\<lambda>s. case runSK (we_sk (iv_web iv)) env args (wb_machine (sy_web s)) of (m, out, r) \<Rightarrow> (set_machine m s, out, Return r)"
    have "on_database env ?run s = (s', out, x)" using assms(1) 6 by (simp add: run_named_def)
    then show ?thesis
    proof (rule on_database_before)
      fix s1 o1 y assume "?run (mounted env s) = (s1, o1, y)"
      then obtain m e where r: "runSK (we_sk (iv_web iv)) env args (wb_machine (sy_web (mounted env s))) = (m, o1, e)"
        and s1: "s1 = set_machine m (mounted env s)" by (auto split: prod.splits)
      note e = runSK_effects [OF r]
      have "reg_le (registry_of (wb_machine (sy_web (mounted env s)))) (registry_of m)" using e by (intro sk_refines_le) (rule conjunct1)
      with e show "sy_disks s1 = sy_disks s \<and> sy_units s1 = sy_units s
        \<and> reg_le (registry_of (wb_machine (sy_web (mounted env s)))) (registry_of (wb_machine (sy_web s1)))
        \<and> balanced (world_of (mounted env s)) (world_of s1)"
        by (simp add: s1 set_machine_def world_of_def del: mounted_simps(8))
    qed
  next
    case 7
    let ?run = "\<lambda>s. case runWeb (iv_web iv) env (iv_in iv) args (sy_web s) of (w, out, r) \<Rightarrow> (s\<lparr>sy_web := w\<rparr>, out, r)"
    have "on_database env ?run s = (s', out, x)" using assms(1) 7 by (simp add: run_named_def)
    then show ?thesis
    proof (rule on_database_before)
      fix s1 o1 y assume "?run (mounted env s) = (s1, o1, y)"
      then obtain w where r: "runWeb (iv_web iv) env (iv_in iv) args (sy_web (mounted env s)) = (w, o1, y)"
        and s1: "s1 = (mounted env s)\<lparr>sy_web := w\<rparr>" by (auto split: prod.splits)
      with runWeb_keeps [of "sy_web (mounted env s)" "iv_web iv" env "iv_in iv" args]
      show "sy_disks s1 = sy_disks s \<and> sy_units s1 = sy_units s
        \<and> reg_le (registry_of (wb_machine (sy_web (mounted env s)))) (registry_of (wb_machine (sy_web s1)))
        \<and> balanced (world_of (mounted env s)) (world_of s1)"
        by (simp add: web_keeps_def reg_le_refl world_of_def del: mounted_simps(8))
    qed
  next
    case 8
    with assms(1) have "removal iv env args s = (s', out, x)" by (simp add: run_named_def)
    then show ?thesis using assms(2-4) 8 by (intro removal_before) simp_all
  next
    case 9
    with assms(1) same show ?thesis by (auto simp: run_named_def world_of_def split: prod.splits)
  qed
qed

lemma settled_before: "cli_before b p rn s (settled ue env t u) = cli_before b p rn s u"
  by (simp add: cli_before_def registry_at_def settled_def world_of_def)

lemma cli_resolve_paths: "cli_resolve iv fs = Inr env \<Longrightarrow> ResolvePaths (iv_environ iv) = Inr (de_Paths env)"
  by (auto simp: cli_resolve_def split: sum.splits)

text \<open>The runs of command lines that do not remove the database at a path, as a machine.\<close>

definition cli_step :: "'m unit_runner \<Rightarrow> invocation \<Rightarrow> 'm cli_system \<Rightarrow> 'm cli_system" where
  "cli_step rn iv s = fst (Execute (Adapter rn) iv s)"

definition sparing_step :: "bool \<Rightarrow> string \<Rightarrow> 'm unit_runner \<Rightarrow> invocation \<Rightarrow> 'm cli_system \<Rightarrow> 'm cli_system" where
  "sparing_step b p rn iv s = (if b \<and> removes iv p then s else cli_step rn iv s)"

lemma sparing_steps:
  "\<forall>iv \<in> set ivs. \<not> removes iv p \<Longrightarrow> fold (sparing_step True p rn) ivs s = fold (cli_step rn) ivs s"
  "fold (sparing_step False p rn) ivs s = fold (cli_step rn) ivs s"
  by (induction ivs arbitrary: s) (simp_all add: sparing_step_def)

interpretation cli: history_machine "sparing_step b p rn" "\<lambda>_. True" "cli_before b p rn" for b p rn
proof
  fix op s
  have refl: "cli_before b p rn s s" by (simp add: cli_before_def reg_le_refl balanced_refl runs_refl)
  obtain s' out r where e: "Execute (Adapter rn) op s = (s', out, r)" by (cases "Execute (Adapter rn) op s")
  have "cli_before b p rn s s'" if no: "b \<Longrightarrow> \<not> removes op p"
  proof (rule Execute_cases [OF e])
    fix env name rest s2 out2 x
    assume "cli_resolve op (wb_files (sy_web s)) = Inr env" "parse (iv_args op) = Inr (name, rest)"
      "run_named (Adapter rn) op env name rest s = (s2, out2, x)" "(s', out, r) = (settled (iv_uninstall op) env s s2, out2, report_result x)"
    with run_named_before [of rn op env name rest s s2 out2 x b p] no cli_resolve_paths [of op "wb_files (sy_web s)" env]
    show ?thesis by (simp add: settled_before)
  qed (simp_all add: refused_def refl)
  then show "cli_before b p rn s (sparing_step b p rn op s)" using e refl unfolding sparing_step_def cli_step_def by auto
next
  fix s t u assume "cli_before b p rn s t" "cli_before b p rn t u"
  then show "cli_before b p rn s u"
    unfolding cli_before_def by (blast intro: reg_le_trans balanced_trans runs_trans)
qed (simp_all add: cli_before_def reg_le_refl balanced_refl runs_refl)

section \<open>Properties\<close>

text \<open>
  C40. The command line always ends in one of three ways: 0 with nothing on the error output, 1 with a message, or 2 with a
  message and the help text. The one exception is \<open>web setup\<close> on a configuration that decodes to a nil map, which panics.
\<close>

theorem execute_exit_codes:
  assumes "Execute B iv s = (s', out, r)"
  shows "case r of
      Return (err, code) \<Rightarrow> code \<in> {0, 1, 2} \<and> (code = 0 \<longleftrightarrow> err = []) \<and> (code = 2 \<longrightarrow> suffix writeUsage err)
    | Panic p \<Rightarrow> \<exists>env. cli_resolve iv (wb_files (sy_web s)) = Inr env \<and> parse (iv_args iv) = Inr (''web'', [''setup''])
        \<and> read_root (iv_web iv) (ConfigFile (de_Paths env)) (wb_files (sy_web s)) = Inr None"
proof -
  have nl: "xs @ newline @ ys \<noteq> []" "xs @ newline \<noteq> []" for xs ys by (simp_all add: newline_def)
  have sf: "suffix ys (xs @ zs @ ys)" "suffix ys (xs @ zs @ vs @ ys)" for xs ys zs vs :: string
    by (simp_all add: suffix_def)
  from assms show ?thesis
  proof (cases rule: Execute_cases)
    case (refused e)
    then show ?thesis using nl sf by (simp add: refused_def ExitCode_some del: append_is_Nil_conv)
  next
    case (ran env name rest s2 out2 x)
    show ?thesis
    proof (cases x)
      case (Panic p)
      with ran named_panic [of B iv env name rest s s2 out2 p] show ?thesis by (simp add: report_result_def)
    next
      case (Return oe)
      with ran nl sf show ?thesis
        by (cases oe) (simp_all add: report_result_def ExitCode_some ExitOK_def del: append_is_Nil_conv)
    qed
  qed (use nl in \<open>simp_all del: append_is_Nil_conv\<close>)
qed

text \<open>
  C39. Arguments outside the grammar of the commands never change anything of the system. An unknown flag or command is refused at
  once, with nothing on the standard output, exit code 2 and the help text after the message; so are wrong arguments of a known
  command other than \<open>update\<close>, provided the paths resolve, and when they do not, the code is 1 with that message and no help.
  \<open>update\<close> meets an argument it does not know only where it would install: it ends with code 2 and the help exactly when updates
  are enabled, there is a newer release and the question, which is then printed, was answered with YES.
\<close>

theorem malformed_arguments_are_refused:
  assumes "\<not> well_formed (iv_args iv)"
  shows "\<exists>out err code. Execute B iv s = (s, out, Return (err, code)) \<and>
    (let refused_usage = (out = [] \<and> code = 2 \<and> suffix writeUsage err) in
     case parse (iv_args iv) of
       Inl e \<Rightarrow> refused_usage
     | Inr (name, rest) \<Rightarrow>
         if name \<notin> fst ` set commands then refused_usage
         else (case cli_resolve iv (wb_files (sy_web s)) of
             Inl e \<Rightarrow> out = [] \<and> code = 1 \<and> err = Error e @ newline
           | Inr env \<Rightarrow>
               if name = ''update''
               then (code = 2 \<longleftrightarrow> update_asks (iv_update iv) env \<and> says_yes (iv_in iv))
                 \<and> (code = 2 \<longrightarrow> suffix ''Type YES to install: '' out \<and> suffix writeUsage err)
               else refused_usage))"
proof (rule Execute_cases [OF refl, of B iv s])
  fix e assume r: "Execute B iv s = refused e s" "IsKind (Some e) KindUsage"
    "\<And>name rest. parse (iv_args iv) = Inr (name, rest) \<Longrightarrow> name \<notin> fst ` set commands"
  show ?thesis
  proof (cases "parse (iv_args iv)")
    case (Inr nr)
    obtain name rest where "nr = (name, rest)" by (cases nr)
    with r Inr show ?thesis by (simp add: refused_def ExitCode_some suffix_def)
  qed (use r in \<open>simp add: refused_def ExitCode_some suffix_def\<close>)
next
  fix rest assume "parse (iv_args iv) = Inr ([], rest)"
  then have "well_formed (iv_args iv)" by (simp add: well_formed_def)
  with assms(1) show ?thesis by simp
next
  fix e name rest
  assume "cli_resolve iv (wb_files (sy_web s)) = Inl e" "Execute B iv s = (s, [], Return (Error e @ newline, 1))"
    "parse (iv_args iv) = Inr (name, rest)" "name \<in> fst ` set commands"
  then show ?thesis by auto
next
  fix env name rest s' out x
  assume r: "cli_resolve iv (wb_files (sy_web s)) = Inr env" "parse (iv_args iv) = Inr (name, rest)" "name \<noteq> []"
    "lookup_command name = None" "run_named B iv env name rest s = (s', out, x)" "Execute B iv s = (settled (iv_uninstall iv) env s s', out, report_result x)"
  then have known: "name \<in> fst ` set commands" by (simp add: lookup_command_def split: if_splits)
  show ?thesis
  proof (cases "name = ''update''")
    case False
    from named_malformed [OF r(2-4) assms False, of B iv env s] r(5,6) False known r(1,2) show ?thesis
      by (auto simp: report_result_def ExitCode_some suffix_def)
  next
    case True
    then have w: "rest \<noteq> []" "hd rest \<notin> set update_words" using assms r(2) by (auto simp: well_formed_def)
    obtain u o1 e where up: "runUpdate (iv_update iv) env (iv_in iv) rest (sy_up s) = (u, o1, e)"
      by (cases "runUpdate (iv_update iv) env (iv_in iv) rest (sy_up s)")
    note m = update_malformed [OF w up]
    have "s' = s" "out = o1" "x = Return e" using r(5) up m True by (simp_all add: run_named_def)
    with r(1,2,6) m True known show ?thesis
      by (cases e) (auto simp: report_result_def ExitCode_some ExitOK_def suffix_def)
  qed
qed

text \<open>
  C33. Whatever sequence of command lines is run, with whatever arguments, input, environment, faults and answers, and whatever
  database file is looked at: unless one of the command lines is an uninstall that was confirmed and removes that file, a
  device it trusts keeps its key and, once revoked, never becomes active again. And always, every database handle
  opened is closed, and the \<open>service\<close> commands run only safe commands on the units. A database is taken to be a file of
  its own, which is neither the configuration file nor an identity file nor an installed binary.
\<close>

theorem command_lines_keep_trust:
  shows "((\<forall>iv \<in> set ivs. \<not> removes iv p) \<longrightarrow> reg_le (registry_at s p) (registry_at (fold (cli_step rn) ivs s) p))
    \<and> balanced (world_of s) (world_of (fold (cli_step rn) ivs s))
    \<and> runs rn safe_command (sy_units s) (sy_units (fold (cli_step rn) ivs s))"
proof -
  have "reg_le (registry_at s p) (registry_at (fold (cli_step rn) ivs s) p)" if "\<forall>iv \<in> set ivs. \<not> removes iv p"
    using cli.run_before [where b = True and p = p and rn = rn and s = s and ops = ivs]
    by (simp add: cli_before_def sparing_steps(1) [OF that])
  then show ?thesis
    using cli.run_before [where b = False and p = p and rn = rn and s = s and ops = ivs]
    by (simp add: cli_before_def sparing_steps(2))
qed

definition toy_invocation :: "string list \<Rightarrow> invocation" where
  "toy_invocation args =
     \<lparr>iv_args = args, iv_in = None, iv_environ = Map.empty, iv_yaml = (\<lambda>_. Inl ''EOF''), iv_conf = None,
      iv_host = ae_host toy_agent_env, iv_go = ''go1.22'', iv_web = toy_web, iv_update = toy_update, iv_uninstall = toy_uninstall,
      iv_probe = toy_probe\<rparr>"

definition toy_db_path :: string where "toy_db_path = ''/var/lib/infrapilot/infrapilot.db''"

definition toy_disks :: "string \<Rightarrow> disk" where
  "toy_disks = (\<lambda>_. no_disk)
     (toy_db_path := \<lparr>dk_file = Some \<lparr>sf_ledger = Some [], sf_identity = Some toy_db\<rparr>, dk_mode = 0x180, dk_side = []\<rparr>)"

definition toy_system :: "nat cli_system" where
  "toy_system = \<lparr>sy_web = toy_web_state, sy_disks = toy_disks, sy_units = 0, sy_up = toy_up_state, sy_it = toy_installation\<rparr>"

lemma toy_parse: "parse [''version''] = Inr (''version'', [])" "\<not> well_formed [''sk'', ''create'', ''now'']"
  "is_ok (ResolvePaths Map.empty)"
  by code_simp+

theorem execute_exit_codes_witness:
  "\<exists>s' out err code. Execute (Adapter toy_runner) (toy_invocation [''version'']) toy_system = (s', out, Return (err, code))
     \<and> code \<in> {0, 1, 2}"
proof -
  obtain s' out r where e: "Execute (Adapter toy_runner) (toy_invocation [''version'']) toy_system = (s', out, r)"
    by (cases "Execute (Adapter toy_runner) (toy_invocation [''version'']) toy_system")
  show ?thesis
  proof (cases r)
    case (Return ec)
    obtain err code where "ec = (err, code)" by (cases ec)
    with e Return execute_exit_codes [OF e] show ?thesis by auto
  next
    case (Panic p)
    with execute_exit_codes [OF e] toy_parse(1) show ?thesis by (simp add: toy_invocation_def)
  qed
qed

theorem malformed_arguments_are_refused_witness:
  "\<exists>err. Execute (Adapter toy_runner) (toy_invocation [''sk'', ''create'', ''now'']) toy_system = (toy_system, [], Return (err, 2))"
proof -
  obtain env where "cli_resolve (toy_invocation [''sk'', ''create'', ''now'']) (wb_files (sy_web toy_system)) = Inr env"
    using toy_parse(3) by (auto simp: cli_resolve_def toy_invocation_def is_ok_iff)
  moreover have "parse [''sk'', ''create'', ''now''] = Inr (''sk'', [''create'', ''now''])" "''sk'' \<in> fst ` set commands" by code_simp+
  ultimately show ?thesis
    using malformed_arguments_are_refused [of "toy_invocation [''sk'', ''create'', ''now'']" "Adapter toy_runner" toy_system] toy_parse(2)
    by (auto simp: toy_invocation_def)
qed

text \<open>A cancelled purge, a confirmed removal without purging and a listing: the paired device stays.\<close>

definition toy_lines :: "invocation list" where
  "toy_lines =
     [toy_invocation [''uninstall'', ''--purge''], (toy_invocation [''uninstall''])\<lparr>iv_in := Some typed\<rparr>, toy_invocation [''sk'', ''list'']]"

lemma toy_lines_spare: "\<forall>iv \<in> set toy_lines. \<not> removes iv toy_db_path"
proof -
  have "parse [''uninstall'', ''--purge''] = Inr (''uninstall'', [''--purge''])" "parse [''uninstall''] = Inr (''uninstall'', [])"
    "parse [''sk'', ''list''] = Inr (''sk'', [''list''])" "uninstall_mode [''--purge''] False = Mode True"
    "uninstall_mode [] False = Mode False" "locate toy_uninstall toy_db_path \<notin> set installed_files"
    by code_simp+
  then show ?thesis
    by (simp add: toy_lines_def toy_invocation_def removes_def uninstall_confirmed_def split: sum.splits)
qed

theorem command_lines_keep_trust_witness:
  "\<exists>active. registry_at (fold (cli_step toy_runner) toy_lines toy_system) toy_db_path (id_DeviceID toy_identity) = Some (toy_seed, active)"
proof -
  have "registry_at toy_system toy_db_path (id_DeviceID toy_identity) = Some (toy_seed, True)"
    by (simp only: registry_at_def toy_system_def toy_disks_def file_of_def tables_of_def cli_system.simps fun_upd_same disk.simps
        sqlite_file.simps option.case toy_registry)
  with command_lines_keep_trust [of toy_lines toy_db_path toy_system toy_runner] toy_lines_spare show ?thesis
    unfolding reg_le_def by blast
qed

text \<open>The exit code of \<open>doctor\<close> is the one of its report, which it prints.\<close>

lemma doctor_exit_code:
  assumes "iv_args iv = [''doctor'']" "cli_resolve iv (wb_files (sy_web s)) = Inr env"
    "Diagnose (iv_probe iv) env (world_of (mounted env s)) = (w, rs)"
  shows "\<exists>s' err. Execute B iv s = (s', writeReport rs, Return (err, Report_ExitCode rs))"
proof -
  have p: "parse [''doctor''] = Inr (''doctor'', [])" "lookup_command ''doctor'' = None" by code_simp+
  show ?thesis
    using assms p
    by (cases "OK rs") (auto simp: Execute_def run_named_def noArgs_def on_database_def runDoctor_def report_result_def ExitCode_some
        Report_ExitCode_def exit_codes IsKind_def)
qed

text \<open>A confirmed purge that reports no error takes the trusted devices of every database in its directories with it.\<close>

lemma purge_forgets_devices:
  assumes "removal iv env args s = (s', out, Return None)" "uninstall_mode args False = Mode True"
    and "honest_stat (iv_uninstall iv)" "wf_tree (it_tree (sy_it s))"
    and "locate (iv_uninstall iv) p \<in> paths_of (it_tree (sy_it s))" "locate (iv_uninstall iv) p \<in> purged (iv_uninstall iv) env"
  shows "registry_at s' p = Map.empty"
proof -
  obtain i where u: "runUninstall (iv_uninstall iv) env (iv_in iv) args (sy_it s) = (i, out, None)"
    and s': "s' = forget env (gone (iv_uninstall iv) (it_tree (sy_it s)) (it_tree i)) (s\<lparr>sy_it := i\<rparr>)"
    using assms(1) by (auto simp: removal_def split: prod.splits)
  have "paths_of (it_tree i) \<inter> purged (iv_uninstall iv) env = {}"
  proof (rule runUninstall_cases [OF u])
    fix t
    assume "purge_data (iv_uninstall iv) env (it_tree (remove_installed (iv_uninstall iv) (sy_it s))) = (t, None)"
      "i = (remove_installed (iv_uninstall iv) (sy_it s))\<lparr>it_tree := t\<rparr>"
    with purge_data_cases [of "iv_uninstall iv" env _ t None] remove_installed_cases(2) [of "sy_it s" "iv_uninstall iv"] assms(3,4)
    show ?thesis by auto
  qed (use assms(2) in auto)
  with assms(5,6) have "gone (iv_uninstall iv) (it_tree (sy_it s)) (it_tree i) p" by (auto simp: gone_def)
  then show ?thesis
    by (simp add: s' registry_at_def forget_def Let_def no_disk_def file_of_def new_file_def tables_of_def abs_registry_def empty_db_def)
qed

end
