(* ===== verification/Mains.thy ===== *)
theory Mains
  imports Cli
begin

text \<open>
  The processes, \<open>cmd/infrapilot-agent/main.go\<close> and \<open>cmd/infrapilot-web/main.go\<close>: from the environment over paths and
  configuration to the Agent's run or the panel's server, and the exit code. \<open>cmd/infrapilot/main.go\<close> exits with what
  \<open>Execute\<close> of \<open>Cli\<close> returns.
\<close>

section \<open>The Agent\<close>

text \<open>
  What the process writes to its error output, in order: what \<open>fail\<close> prints before there is a logger, the records
  of the logger, whose output is \<open>os.Stderr\<close>, by level and message, and the lines of the standard logger that other
  packages use.
\<close>

datatype err_item = Printed string | Logged Level string | StdLogged string

definition main_fail :: "go_error \<Rightarrow> err_item list \<times> int" where
  "main_fail e = ([Printed (Product_Name @ '' agent: '' @ Error e @ newline)], ExitCode (Some e))"

text \<open>The records of a level that is enabled reach the output.\<close>

fun logged :: "logger \<Rightarrow> log_item \<Rightarrow> err_item list" where
  "logged lg (Note l m) = (if Enabled lg l then [Logged l m] else [])"
| "logged lg (StdLine m) = [StdLogged m]"

definition agent_output :: "logger \<Rightarrow> agent \<Rightarrow> err_item list" where
  "agent_output lg a = concat (map (logged lg) (a_log a))"

definition could_not_run :: string where "could_not_run = ''the agent could not run''"

text \<open>The end of \<open>run\<close>: an error of the Agent's run is logged and gives the exit code.\<close>

definition main_end :: "logger \<Rightarrow> agent \<Rightarrow> go_error option \<Rightarrow> err_item list \<times> int" where
  "main_end lg a r =
     (agent_output lg a @ (case r of None \<Rightarrow> [] | Some e \<Rightarrow> logged lg (Note LevelError could_not_run)), ExitCode r)"

definition agent_main ::
  "environ \<Rightarrow> yaml \<Rightarrow> (string \<Rightarrow> go_error + bytes) \<Rightarrow> agent_env \<Rightarrow> serve_event list \<Rightarrow> world
     \<Rightarrow> world \<times> err_item list \<times> int" where
  "agent_main ev yaml files env events w =
     (case ResolvePaths ev of Inl e \<Rightarrow> (w, main_fail e)
      | Inr paths \<Rightarrow>
          (case Load_config yaml (files (ConfigFile paths)) ev paths of Inl e \<Rightarrow> (w, main_fail e)
           | Inr cfg \<Rightarrow>
               (case New_logger True (lo_Level (cf_Logging cfg)) (lo_Format (cf_Logging cfg)) of Inl e \<Rightarrow> (w, main_fail e)
                | Inr lg \<Rightarrow>
                    (case Run_start env (New_agent cfg paths) w of
                       (a, w1, Returned r) \<Rightarrow> (w1, main_end lg a r)
                     | (a, w1, Serving) \<Rightarrow>
                         (case Run_stop env (serve_beats events a) w1 of (a2, w2, r) \<Rightarrow> (w2, main_end lg a2 r))))))"

section \<open>The panel\<close>

text \<open>How serving ends: an error of the listener, a closed server, or a signal with the result of the shutdown.\<close>

datatype served = ServeFailed go_error | ServerClosed | Signalled "go_error option"

definition fatal :: "go_error \<Rightarrow> string \<times> int" where
  "fatal e = (''infrapilot-web: '' @ Error e @ newline, 1)"

text \<open>
  \<open>fatal\<close> leaves the process at once: the deferred close of the database does not run. The text is what this file
  prints; the lines that the handlers log while serving are not part of it.
\<close>

definition web_main ::
  "environ \<Rightarrow> yaml \<Rightarrow> (string \<Rightarrow> go_error + bytes) \<Rightarrow> open_env \<Rightarrow> served \<Rightarrow> world \<Rightarrow> world \<times> string \<times> int" where
  "web_main ev yaml files oe ended w =
     (case ResolvePaths ev of Inl e \<Rightarrow> (w, fatal e)
      | Inr paths \<Rightarrow>
          (case Load_config yaml (files (ConfigFile paths)) ev paths of Inl e \<Rightarrow> (w, fatal e)
           | Inr cfg \<Rightarrow>
               (case openIdentityDB oe \<lparr>de_Config = cfg, de_Paths = paths, de_ConfigErr = None\<rparr> w of
                  (w1, Inl e) \<Rightarrow> (w1, fatal e)
                | (w1, Inr h) \<Rightarrow>
                    (case ended of
                       ServeFailed e \<Rightarrow> (w1, fatal e)
                     | ServerClosed \<Rightarrow> (close_db h w1, [], 0)
                     | Signalled r \<Rightarrow>
                         (close_db h w1,
                          case r of None \<Rightarrow> [] | Some e \<Rightarrow> ''infrapilot-web: graceful shutdown: '' @ Error e @ newline, 0)))))"

section \<open>How the processes end\<close>

text \<open>A configuration that loads names a level and a format of the logger.\<close>

lemma loaded_logger:
  assumes "Load_config yaml file ev paths = Inr cfg"
  shows "\<exists>lg. New_logger True (lo_Level (cf_Logging cfg)) (lo_Format (cf_Logging cfg)) = Inr lg"
  using Load_config_validated [OF assms]
  by (auto simp: Validate_None text_problems_Nil New_logger_def is_ok_iff)

text \<open>The messages of the Agent's own records; the report of a failed run is none of them.\<close>

definition agent_messages :: "string list" where
  "agent_messages =
     [''starting'', ''stopped before start-up'', ''stop requested during start-up'', ''data directory ready'',
      ''cannot read the schema version'', ''storage ready'', ''liveness recorded'', ''started'', ''heartbeat'',
      ''the database is not healthy'', ''local signing bridge unavailable'', ''shutting down'', ''stopped'',
      ''cannot close the database cleanly'', ''cannot remove the PID file'']"

definition says :: "string set \<Rightarrow> agent \<Rightarrow> bool" where
  "says std a \<longleftrightarrow> (\<forall>x \<in> set (a_log a). case x of Note l m \<Rightarrow> m \<in> set agent_messages | StdLine m \<Rightarrow> m \<in> std)"

lemma says_New [simp]: "says std (New_agent cfg paths)"
  by (simp add: says_def New_agent_def)

lemma says_db [simp]: "says std (a\<lparr>a_db := x\<rparr>) = says std a"
  by (simp add: says_def)

lemma says_note: "says std a \<Longrightarrow> m \<in> set agent_messages \<Longrightarrow> says std (note_log l m a)"
  by (auto simp: says_def note_log_def)

lemma says_notes:
  assumes "says std a"
  shows "says std (note_log l ''starting'' a)" "says std (note_log l ''stopped before start-up'' a)"
    "says std (note_log l ''stop requested during start-up'' a)" "says std (note_log l ''data directory ready'' a)"
    "says std (note_log l ''cannot read the schema version'' a)" "says std (note_log l ''storage ready'' a)"
    "says std (note_log l ''liveness recorded'' a)" "says std (note_log l ''started'' a)" "says std (note_log l ''heartbeat'' a)"
    "says std (note_log l ''the database is not healthy'' a)" "says std (note_log l ''local signing bridge unavailable'' a)"
    "says std (note_log l ''shutting down'' a)" "says std (note_log l ''stopped'' a)"
    "says std (note_log l ''cannot close the database cleanly'' a)" "says std (note_log l ''cannot remove the PID file'' a)"
  by (intro says_note [OF assms]; simp add: agent_messages_def)+

lemma closeStorage_says: "closeStorage env a w = (a', w', r) \<Longrightarrow> says std a \<Longrightarrow> says std a'"
  by (auto simp: closeStorage_def Let_def says_notes split: option.splits if_splits)

lemma openStorage_says: "openStorage env a w = (a', w', r) \<Longrightarrow> says std a \<Longrightarrow> says std a'"
  by (auto simp: openStorage_def Let_def says_notes split: option.splits sum.splits prod.splits)

lemma recordLiveness_says: "recordLiveness env a w = (a', w', r) \<Longrightarrow> says std a \<Longrightarrow> says std a'"
  by (auto simp: recordLiveness_def says_notes split: option.splits prod.splits)

lemma stopping_says: "stopping env st e a = (a', r) \<Longrightarrow> says std a \<Longrightarrow> says std a'"
  by (auto simp: stopping_def says_notes split: if_splits)

lemma Run_start_says:
  assumes "Run_start env a0 w = (a, w', res)" "says std a0"
  shows "says std a"
proof -
  let ?a = "note_log LevelInfo ''starting'' a0"
  have a: "says std ?a" using assms(2) by (rule says_notes)
  obtain dirs derr where d: "EnsureDir (ae_dirs env) (ae_umask env) (ag_DataDir (cf_Agent (a_cfg ?a))) DirMode (w_dirs w) = (dirs, derr)"
    by (cases "EnsureDir (ae_dirs env) (ae_umask env) (ag_DataDir (cf_Agent (a_cfg ?a))) DirMode (w_dirs w)")
  obtain a1 w1 oerr where o: "openStorage env (note_log LevelDebug ''data directory ready'' ?a) (w\<lparr>w_dirs := dirs\<rparr>) = (a1, w1, oerr)"
    by (cases "openStorage env (note_log LevelDebug ''data directory ready'' ?a) (w\<lparr>w_dirs := dirs\<rparr>)")
  obtain a2 w2 lerr where l: "recordLiveness env a1 w1 = (a2, w2, lerr)" by (cases "recordLiveness env a1 w1")
  obtain a3 w3 cerr where c: "closeStorage env a2 w2 = (a3, w3, cerr)" by (cases "closeStorage env a2 w2")
  have s: "says std a1" by (rule openStorage_says [OF o says_notes(4) [OF a]])
  then have s2: "says std a2" by (rule recordLiveness_says [OF l])
  then have s3: "says std a3" by (rule closeStorage_says [OF c])
  show ?thesis
    using assms(1) a s s2 s3 d o l c
    by (auto simp: Run_start_def Let_def says_notes split: if_splits option.splits prod.splits dest: stopping_says)
qed

lemma serve_beats_says:
  "says std a \<Longrightarrow> {m. BridgeLine m \<in> set evs} \<subseteq> std \<Longrightarrow> says std (serve_beats evs a)"
proof (induction evs a rule: serve_beats.induct)
  case (2 ev evs a)
  have "says std (serve_one ev a)"
  proof (cases ev)
    case (BridgeLine m)
    with 2(2,3) show ?thesis by (auto simp: says_def std_log_def)
  qed (use 2(2) in \<open>auto simp: heartbeat_def says_notes split: option.splits\<close>)
  with 2 show ?case by auto
qed simp

lemma Run_stop_says:
  assumes "Run_stop env a w = (a', w', r)" "says std a"
  shows "says std a'"
proof -
  obtain a1 w1 e where h: "shutdown env (note_log LevelInfo ''shutting down'' a) w = (a1, w1, e)"
    by (cases "shutdown env (note_log LevelInfo ''shutting down'' a) w")
  obtain a2 w2 where c: "clearLiveness env a1 w1 = (a2, w2)" by (cases "clearLiveness env a1 w1")
  have "says std a1"
    using h says_notes(12) [OF assms(2)] closeStorage_says
    by (auto simp: shutdown_def says_notes split: if_splits option.splits prod.splits)
  then have "says std a2" using c by (auto simp: clearLiveness_def says_notes split: option.splits prod.splits)
  with assms(1) h c closeStorage_says show ?thesis by (auto simp: Run_stop_def split: prod.splits)
qed

text \<open>What the error output of a run that has a logger holds.\<close>

definition log_only :: "logger \<Rightarrow> string set \<Rightarrow> err_item \<Rightarrow> bool" where
  "log_only lg std x \<longleftrightarrow> (case x of Printed _ \<Rightarrow> False | Logged l m \<Rightarrow> Enabled lg l | StdLogged m \<Rightarrow> m \<in> std)"

lemma error_enabled: "Enabled lg LevelError"
  by (cases "lg_level lg") (simp_all add: Enabled_def less_eq_Level_def)

lemma could_not_run_own: "could_not_run \<notin> set agent_messages"
  by (simp add: agent_messages_def could_not_run_def)

lemma main_end_output:
  assumes "main_end lg a r = (err, code)" "says std a"
  shows "code \<in> {0, 1, 2} \<and> (\<forall>x \<in> set err. log_only lg std x)
    \<and> (code \<noteq> 0 \<longleftrightarrow> Logged LevelError could_not_run \<in> set err)"
proof -
  have "log_only lg std x \<and> x \<noteq> Logged LevelError could_not_run" if "x \<in> set (agent_output lg a)" for x
  proof -
    from that obtain y where y: "y \<in> set (a_log a)" "x \<in> set (logged lg y)" by (auto simp: agent_output_def)
    have "case y of Note l m \<Rightarrow> m \<in> set agent_messages | StdLine m \<Rightarrow> m \<in> std" using assms(2) y(1) unfolding says_def by blast
    with y(2) could_not_run_own show ?thesis by (cases y) (auto simp: log_only_def split: if_splits)
  qed
  moreover have "ExitCode r \<in> {0, 1, 2}" "ExitCode r \<noteq> 0 \<longleftrightarrow> r \<noteq> None"
    by (cases r; auto simp: ExitCode_def exit_codes)+
  ultimately show ?thesis
    using assms(1) error_enabled [of lg] by (cases r) (auto simp: main_end_def log_only_def)
qed

section \<open>Properties\<close>

text \<open>
  C23. However the Agent's process ends, it has handed every database handle it opened to a close, which the shutdown timeout may
  leave unfinished, lost no row, and exits with 0, 1 or 2. When paths or configuration cannot be resolved it has done nothing,
  prints the one error and exits with another code than 0. Otherwise it has a logger at the configured level on the error output: all that
  is written there are records at that level or above and the lines of the bridge on the standard logger, and the exit code is
  other than 0 exactly when the report that the agent could not run, a record no level suppresses, is among them.
\<close>

theorem agent_process_ends_clean:
  assumes "agent_main ev yaml files env events w = (w', err, code)"
  shows "balanced w w' \<and> extends (file_of (w_disk w)) (file_of (w_disk w')) \<and> code \<in> {0, 1, 2}
    \<and> (if \<exists>paths cfg. ResolvePaths ev = Inr paths \<and> Load_config yaml (files (ConfigFile paths)) ev paths = Inr cfg
       then \<exists>paths cfg level. ResolvePaths ev = Inr paths \<and> Load_config yaml (files (ConfigFile paths)) ev paths = Inr cfg
           \<and> ParseLevel (lo_Level (cf_Logging cfg)) = Inr level
           \<and> (\<forall>x \<in> set err. case x of Printed _ \<Rightarrow> False | Logged l m \<Rightarrow> level \<le> l | StdLogged m \<Rightarrow> BridgeLine m \<in> set events)
           \<and> (code \<noteq> 0 \<longleftrightarrow> Logged LevelError ''the agent could not run'' \<in> set err)
       else w' = w \<and> code \<noteq> 0 \<and> (\<exists>e. err = [Printed (Product_Name @ '' agent: '' @ Error e @ newline)]))"
proof (cases "\<exists>paths cfg. ResolvePaths ev = Inr paths \<and> Load_config yaml (files (ConfigFile paths)) ev paths = Inr cfg")
  case False
  then obtain e where "w' = w" "main_fail e = (err, code)"
    using assms unfolding agent_main_def by (auto split: sum.splits)
  with False show ?thesis by (auto simp: balanced_refl extends_refl main_fail_def ExitCode_some split: if_splits)
next
  case True
  then obtain paths cfg where c: "ResolvePaths ev = Inr paths" "Load_config yaml (files (ConfigFile paths)) ev paths = Inr cfg" by blast
  obtain lg where lg: "New_logger True (lo_Level (cf_Logging cfg)) (lo_Format (cf_Logging cfg)) = Inr lg"
    using loaded_logger [OF c(2)] by blast
  then have level: "ParseLevel (lo_Level (cf_Logging cfg)) = Inr (lg_level lg)"
    by (auto simp: New_logger_def res_bind_eq_Inr)
  obtain a w1 res where s: "Run_start env (New_agent cfg paths) w = (a, w1, res)" by (cases "Run_start env (New_agent cfg paths) w")
  note l = agent_leaves_nothing_open [OF s]
  let ?std = "{m. BridgeLine m \<in> set events}"
  have sa: "says ?std a" by (rule Run_start_says [OF s says_New])
  have "\<exists>a2 r. main_end lg a2 r = (err, code) \<and> says ?std a2 \<and> balanced w w' \<and> extends (file_of (w_disk w)) (file_of (w_disk w'))"
  proof (cases res)
    case (Returned r)
    with assms c lg s l sa show ?thesis unfolding agent_main_def by auto
  next
    case Serving
    obtain a2 w2 r where t: "Run_stop env (serve_beats events a) w1 = (a2, w2, r)" by (cases "Run_stop env (serve_beats events a) w1")
    from l have "\<forall>env' events a' w2 r. Run_stop env' (serve_beats events a) w1 = (a', w2, r) \<longrightarrow> balanced w w2 \<and> w_disk w2 = w_disk w1"
      by (simp add: Serving)
    with t have "balanced w w2" "w_disk w2 = w_disk w1" by blast+
    moreover have "says ?std a2" by (rule Run_stop_says [OF t serve_beats_says [OF sa subset_refl]])
    ultimately show ?thesis using assms c lg s t l Serving unfolding agent_main_def by auto
  qed
  then obtain a2 r where m: "main_end lg a2 r = (err, code)" "says ?std a2" and w: "balanced w w'" "extends (file_of (w_disk w)) (file_of (w_disk w'))"
    by blast
  note o = main_end_output [OF m]
  have "\<forall>x \<in> set err. case x of Printed _ \<Rightarrow> False | Logged l m \<Rightarrow> lg_level lg \<le> l | StdLogged m \<Rightarrow> BridgeLine m \<in> set events"
    using o by (auto simp: log_only_def Enabled_def split: err_item.splits)
  with True c level o w show ?thesis by (auto simp: could_not_run_def)
qed

lemma toy_resolved: "ResolvePaths Map.empty = Inr toy_paths_t"
  by code_simp

theorem agent_process_ends_clean_witness:
  "\<exists>w' err code. agent_main Map.empty (\<lambda>_. Inl ''EOF'') (\<lambda>_. Inl (StdErr NotExist ''none'')) toy_agent_env
       [BridgeLine ''agent bridge connected'', BridgeFailed] toy_world = (w', err, code)
     \<and> balanced toy_world w' \<and> (code \<noteq> 0 \<longleftrightarrow> Logged LevelError ''the agent could not run'' \<in> set err)"
proof -
  let ?main = "agent_main Map.empty (\<lambda>_. Inl ''EOF'') (\<lambda>_. Inl (StdErr NotExist ''none'')) toy_agent_env
       [BridgeLine ''agent bridge connected'', BridgeFailed] toy_world"
  obtain w' err code where m: "?main = (w', err, code)" by (cases ?main)
  from toy_config agent_process_ends_clean [OF m] toy_resolved have "balanced toy_world w'"
    "code \<noteq> 0 \<longleftrightarrow> Logged LevelError ''the agent could not run'' \<in> set err" by (auto split: if_splits)
  with m show ?thesis by blast
qed

text \<open>
  The panel's process closes its database unless serving failed; then the process leaves without the deferred close.
\<close>

lemma web_process_ends:
  assumes "web_main ev yaml files oe ended w = (w', err, code)"
  shows "code \<in> {0, 1} \<and> (code = 1 \<longrightarrow> err \<noteq> []) \<and> tables_of (file_of (w_disk w')) = tables_of (file_of (w_disk w))
    \<and> (code = 0 \<longrightarrow> balanced w w') \<and> w_closed w' = w_closed w @ (if code = 0 then drop (length (w_opened w)) (w_opened w') else [])"
proof -
  have o: "tables_of (file_of (w_disk w1)) = tables_of (file_of (w_disk w)) \<and> w_closed w1 = w_closed w
      \<and> w_opened w1 = w_opened w @ (case x of Inl _ \<Rightarrow> [] | Inr h \<Rightarrow> [h])"
    if "openIdentityDB oe e w = (w1, x)" for e w1 x
    using that by (rule openIdentityDB_cases)
  show ?thesis
    using assms
    by (auto simp: web_main_def fatal_def close_db_def balanced_def split: sum.splits prod.splits served.splits dest!: o)
qed

lemma failed_server_leaves_database_open:
  assumes "ResolvePaths ev = Inr paths" "Load_config yaml (files (ConfigFile paths)) ev paths = Inr cfg"
    "openIdentityDB oe \<lparr>de_Config = cfg, de_Paths = paths, de_ConfigErr = None\<rparr> w = (w1, Inr h)"
  shows "\<exists>w'. web_main ev yaml files oe (ServeFailed e) w = (w', fatal e) \<and> w_opened w' = w_opened w @ [h] \<and> w_closed w' = w_closed w"
  using assms openIdentityDB_cases [OF assms(3)] by (simp add: web_main_def)

end
