(* ===== verification/Uptime.thy ===== *)
theory Uptime
  imports System_Info
begin

text \<open>
  The uptime from \<open>/proc/uptime\<close> to the text of \<open>FormatUptime\<close> (\<open>internal/system/system.go\<close>): the roundings to float64 on
  the way do not show.
\<close>

section \<open>The uptime shown\<close>

text \<open>What should be shown for \<open>n\<close> whole seconds.\<close>

definition uptime_text :: "nat \<Rightarrow> string" where
  "uptime_text n =
     (if 86400 \<le> n
      then show_nat (n div 86400) @ ''d '' @ show_nat (n div 3600 mod 24) @ ''h '' @ show_nat (n div 60 mod 60) @ ''m''
      else if 3600 \<le> n then show_nat (n div 3600) @ ''h '' @ show_nat (n div 60 mod 60) @ ''m''
      else if 60 \<le> n then show_nat (n div 60) @ ''m'' else show_nat n @ ''s'')"

text \<open>The nanoseconds the code computes.\<close>

definition nanos :: "nat \<Rightarrow> nat" where
  "nanos N = (case float64 N 100 of (a, b) \<Rightarrow> case float64 (a * 10 ^ 9) b of (p, q) \<Rightarrow> p div q)"

lemma nanos_close:
  assumes "N < 100 * 2 ^ 32"
  shows "nanos N \<le> N * 10 ^ 7 + 1000" "N * 10 ^ 7 \<le> nanos N + 1000"
proof -
  obtain a b where a: "float64 N 100 = (a, b)" by (cases "float64 N 100")
  obtain p q where p: "float64 (a * 10 ^ 9) b = (p, q)" by (cases "float64 (a * 10 ^ 9) b")
  have b: "0 < b" and q: "0 < q" using a p float64_pos [of N 100] float64_pos [of "a * 10 ^ 9" b] by simp_all
  define X Y where "X = real a / real b" and "Y = real p / real q"
  have x: "\<bar>X - real N / 100\<bar> \<le> real N / 100 / 2 ^ 53" using float64_real [OF a] by (simp add: X_def)
  have y: "\<bar>Y - X * 10 ^ 9\<bar> \<le> X * 10 ^ 9 / 2 ^ 53" using float64_real [OF p b] by (simp add: X_def Y_def)
  have "real N \<le> real (100 * 2 ^ 32)" using assms by (simp only: of_nat_le_iff)
  then have N: "real N \<le> 100 * 2 ^ 32" by simp
  have "nanos N = p div q" using a p by (simp add: nanos_def)
  moreover have "Y = real (p div q) + real (p mod q) / real q"
  proof -
    have "real p = real (p div q * q + p mod q)" by simp
    then show ?thesis using q by (simp only: Y_def of_nat_add of_nat_mult) (simp add: field_simps)
  qed
  moreover have "real (p mod q) / real q < 1" using q by simp
  ultimately have f: "real (nanos N) \<le> Y" "Y < real (nanos N) + 1" using q by simp_all
  have "Y \<le> real N * 10 ^ 7 + 990 \<and> real N * 10 ^ 7 \<le> Y + 990"
  proof -
    have two53: "(2 :: real) ^ 53 = 9007199254740992" "(10 :: real) ^ 9 = 1000000000" "(10 :: real) ^ 7 = 10000000"
      "(2 :: real) ^ 32 = 4294967296" by simp_all
    show ?thesis using x y N unfolding two53 by linarith
  qed
  then have "real (nanos N) \<le> real (N * 10 ^ 7 + 1000)" "real (N * 10 ^ 7) \<le> real (nanos N + 1000)"
    using f by simp_all
  then show "nanos N \<le> N * 10 ^ 7 + 1000" "N * 10 ^ 7 \<le> nanos N + 1000" by (simp_all only: of_nat_le_iff)
qed

lemma nanos_whole:
  assumes "n < 2 ^ 32"
  shows "nanos (100 * n) = n * 10 ^ 9"
proof (cases "n = 0")
  case True
  then show ?thesis by (simp add: nanos_def float64_def)
next
  case False
  have "n * 5 ^ 9 < 2 ^ 53" using assms by simp
  obtain b where b: "float64 (n * 2 ^ 0 * 100) 100 = (n * 2 ^ 0 * b, b)" "0 < b"
    using float64_exact [of n 100 0] assms False by auto
  obtain q where q: "float64 (n * 5 ^ 9 * 2 ^ 9 * b) b = (n * 5 ^ 9 * 2 ^ 9 * q, q)" "0 < q"
    using float64_exact [of "n * 5 ^ 9" b 9] \<open>n * 5 ^ 9 < 2 ^ 53\<close> b(2) False by auto
  have c: "n * 2 ^ 0 * 100 = 100 * n" "n * 2 ^ 0 * b * 10 ^ 9 = n * 5 ^ 9 * 2 ^ 9 * b" by simp_all
  show ?thesis
    unfolding nanos_def b(1) [unfolded c(1)] prod.case c(2) q(1) using q(2) by simp
qed

text \<open>Whole units of a time a little after \<open>n\<close> seconds.\<close>

lemma div_units:
  assumes "r < (10 :: nat) ^ 9"
  shows "(n * 10 ^ 9 + r) div (k * 10 ^ 9) = n div k" "(n * 10 ^ 9 + r) mod (k * 10 ^ 9) = (n mod k) * 10 ^ 9 + r"
proof -
  have "(n * 10 ^ 9 + r) div (10 ^ 9 * k) = n div k" using assms by (simp only: div_mult2_eq) simp
  then show d: "(n * 10 ^ 9 + r) div (k * 10 ^ 9) = n div k" by (simp only: mult.commute)
  show "(n * 10 ^ 9 + r) mod (k * 10 ^ 9) = (n mod k) * 10 ^ 9 + r"
    using assms mod_mult2_eq [of "n * 10 ^ 9 + r" "10 ^ 9" k] by (simp add: mult.commute)
qed

lemma whole_units_seconds:
  assumes "n < 2 ^ 32" "r + 3000 \<le> 10 ^ 9" "0 < k"
  shows "whole_units (k * 10 ^ 9) (n * 10 ^ 9 + r) = n div k"
proof -
  have r: "r < 10 ^ 9" using assms(2) by simp
  have "n div k \<le> n" by simp
  also have "\<dots> < 2 ^ 53" using assms(1) by simp
  finally have n: "n div k < 2 ^ 53" .
  have "n mod k + 1 \<le> k" using assms(3) by (simp add: Suc_le_eq)
  then have "(n mod k + 1) * 10 ^ 9 \<le> k * 10 ^ 9" by (rule mult_le_mono1)
  then have m: "(n mod k) * 10 ^ 9 + r + 3000 \<le> k * 10 ^ 9" using assms(2) by simp
  have d: "n * 10 ^ 9 + r < 2 ^ 63" using assms(1) r by simp
  show ?thesis
    using whole_units_exact [of "k * 10 ^ 9" "n * 10 ^ 9 + r"] assms(3) d n m unfolding div_units [OF r] by simp
qed

lemma FormatUptime_seconds:
  assumes "n < 2 ^ 32" "r + 3000 \<le> 10 ^ 9" "0 < n \<or> 0 < r"
  shows "FormatUptime (int (n * 10 ^ 9 + r)) = uptime_text n"
proof -
  have u: "nat Hour = 3600 * 10 ^ 9" "nat Minute = 60 * 10 ^ 9" "nat Second = 1 * 10 ^ 9"
    by (simp_all add: Hour_def Minute_def Second_def)
  have w: "whole_units (nat Hour) (n * 10 ^ 9 + r) = n div 3600" "whole_units (nat Minute) (n * 10 ^ 9 + r) = n div 60"
    "whole_units (nat Second) (n * 10 ^ 9 + r) = n"
    unfolding u using assms whole_units_seconds [OF assms(1,2), of 1] by (simp_all only: whole_units_seconds) simp
  have p: "\<not> int (n * 10 ^ 9 + r) \<le> 0" using assms(3) by auto
  have n: "n div 3600 div 24 = n div 86400" by (simp flip: div_mult2_eq)
  show ?thesis
    unfolding FormatUptime_def Let_def nat_int w if_not_P [OF p] uptime_text_def Itoa_def n by auto
qed

lemma seconds_field_cents:
  assumes "cc < 100"
  shows "seconds_field (cents_text n cc @ CHR '' '' # rest) = cents_text n cc"
proof -
  have sp: "x \<noteq> CHR '' '' \<and> \<not> is_space x" if "x \<in> set (cents_text n cc)" for x
    using cents_text_chars [OF assms that] by (auto simp: is_digit_def is_space_def)
  obtain c r where c: "cents_text n cc = c # r" "is_digit c" by (rule cents_text_hd)
  have "trim_left (cents_text n cc @ CHR '' '' # rest) = cents_text n cc @ CHR '' '' # rest"
    using c sp by (simp add: trim_left_def)
  moreover have "\<exists>t. rev (trim_left (rev (cents_text n cc @ CHR '' '' # rest))) = cents_text n cc @ t \<and> (t = [] \<or> hd t = CHR '' '')"
  proof (cases "\<forall>x \<in> set rest. is_space x")
    case True
    have "cents_text n cc \<noteq> []" using c by simp
    then have "dropWhile is_space (rev (cents_text n cc)) = rev (cents_text n cc)"
      using sp [of "last (cents_text n cc)"] by (simp add: dropWhile_eq_self_iff hd_rev)
    with True show ?thesis by (simp add: trim_left_def dropWhile_append is_space_def)
  next
    case False
    then show ?thesis by (auto simp: trim_left_def dropWhile_append3)
  qed
  ultimately obtain t where t: "TrimSpace (cents_text n cc @ CHR '' '' # rest) = cents_text n cc @ t" "t = [] \<or> hd t = CHR '' ''"
    by (auto simp: TrimSpace_def)
  show ?thesis
  proof (cases t)
    case Nil
    have "Cut (cents_text n cc) CHR '' '' = None" using sp by (auto simp: Cut_None_iff)
    with t Nil show ?thesis by (simp add: seconds_field_def)
  next
    case (Cons x u)
    have "Cut (cents_text n cc @ CHR '' '' # u) CHR '' '' = Some (cents_text n cc, u)" using sp by (intro Cut_append) auto
    with t Cons show ?thesis by (simp add: seconds_field_def)
  qed
qed

lemma uptime_cents:
  assumes "h_files h ''/proc/uptime'' = Some (cents_text n cc @ CHR '' '' # rest)" "n < 2 ^ 32" "cc < 100"
  shows "uptime h = int (nanos (100 * n + cc))"
proof -
  obtain a b where a: "float64 (100 * n + cc) 100 = (a, b)" by (cases "float64 (100 * n + cc) 100")
  obtain p q where p: "float64 (a * 10 ^ 9) b = (p, q)" by (cases "float64 (a * 10 ^ 9) b")
  have N: "100 * n + cc < 100 * 2 ^ 32" using assms(2,3) by simp
  have "nanos (100 * n + cc) = p div q" using a p by (simp add: nanos_def)
  moreover have "int (nanos (100 * n + cc)) \<le> max_int64" using nanos_close(1) [OF N] N by (simp add: max_int64_def)
  ultimately show ?thesis
    using assms a p by (simp add: uptime_def seconds_field_cents ParseFloat_cents)
qed

lemma nanos_after:
  assumes "n < 2 ^ 32" "cc < 100"
  obtains r where "nanos (100 * n + cc) = n * 10 ^ 9 + r" "r + 3000 \<le> 10 ^ 9" "0 < cc \<longrightarrow> 0 < r"
proof (cases "cc = 0")
  case True
  with that [of 0] nanos_whole [OF assms(1)] show thesis by simp
next
  case False
  have N: "100 * n + cc < 100 * 2 ^ 32" using assms by simp
  from nanos_close [OF N] False assms(2) that [of "nanos (100 * n + cc) - n * 10 ^ 9"] show thesis by simp
qed

text \<open>
  C31. The uptime is shown right. For every uptime below \<open>2 ^ 32\<close> seconds, as the kernel prints it with two decimals and
  followed by anything, the duration is at most a microsecond off, although it goes through two roundings to float64, and
  the text has exactly the days, hours, minutes or seconds of the whole seconds, although each goes through two more.
\<close>

theorem uptime_is_shown_exactly:
  assumes "h_files h ''/proc/uptime'' = Some (cents_text n cc @ CHR '' '' # rest)" "n < 2 ^ 32" "cc < 100" "0 < n \<or> 0 < cc"
  shows "FormatUptime (uptime h) = uptime_text n \<and> \<bar>uptime h - int (n * 10 ^ 9 + cc * 10 ^ 7)\<bar> \<le> 1000"
proof -
  have u: "uptime h = int (nanos (100 * n + cc))" using assms(1,2,3) by (rule uptime_cents)
  obtain r where r: "nanos (100 * n + cc) = n * 10 ^ 9 + r" "r + 3000 \<le> 10 ^ 9" "0 < cc \<longrightarrow> 0 < r"
    using assms(2,3) by (rule nanos_after)
  have "FormatUptime (uptime h) = uptime_text n"
    unfolding u r(1) using assms(2,4) r(2,3) by (intro FormatUptime_seconds) auto
  moreover have "100 * n + cc < 100 * 2 ^ 32" using assms(2,3) by simp
  from nanos_close [OF this] have "\<bar>uptime h - int (n * 10 ^ 9 + cc * 10 ^ 7)\<bar> \<le> 1000" unfolding u by simp
  ultimately show ?thesis ..
qed

theorem uptime_is_shown_exactly_witness:
  "FormatUptime (uptime \<lparr>h_GOOS = ''linux'', h_GOARCH = ''amd64'', h_NumCPU = 8, h_out_of_range = 0,
     h_files = [''/proc/uptime'' \<mapsto> ''93784.99 98765.43''], h_statfs = Map.empty\<rparr>) = ''1d 2h 3m''"
proof -
  let ?h = "\<lparr>h_GOOS = ''linux'', h_GOARCH = ''amd64'', h_NumCPU = 8, h_out_of_range = 0,
     h_files = [''/proc/uptime'' \<mapsto> ''93784.99 98765.43''], h_statfs = Map.empty\<rparr>"
  have c: "cents_text 93784 99 = ''93784.99''" "uptime_text 93784 = ''1d 2h 3m''" 
    by (simp_all add: cents_text_def uptime_text_def show_nat_eval digit_char_eval)
  then have "h_files ?h ''/proc/uptime'' = Some (cents_text 93784 99 @ CHR '' '' # ''98765.43'')" by simp
  from uptime_is_shown_exactly [OF this, THEN conjunct1] show ?thesis unfolding c(2) by simp
qed

end
