(* ===== verification/Agent_Shutdown.thy ===== *)
theory Agent_Shutdown
  imports Agent "HOL-Library.Multiset"
begin

text \<open>
  The end of the Agent's run as two threads (\<open>internal/agent/agent.go\<close>): the goroutine of \<open>shutdown\<close> that closes the
  storage, and \<open>Run\<close> itself, which waits for it or for the timeout, then removes the PID file and closes the storage
  once more. Each step holds the mutex at most once: a close takes the handle in one step and closes it in another.
\<close>

section \<open>The two threads\<close>

text \<open>The goroutine: before it took the handle, between that and the close, before it sends the result, and done.\<close>

datatype closer = Begun | Took db_handle | Closed "go_error option" | Sent

text \<open>
  \<open>Run\<close>: in the \<open>select\<close> of \<open>shutdown\<close>, before the deferred \<open>clearLiveness\<close>, before the deferred \<open>closeStorage\<close>, between taking
  the handle and closing it there, and back in its caller, each time with the result so far.
\<close>

datatype runner =
  Selecting | Deferring "go_error option" | Cleared "go_error option" | Holding db_handle "go_error option"
| Returning "go_error option"

record ending =
  en_agent :: agent
  en_world :: world
  en_closer :: closer
  en_channel :: "go_error option option"
  en_runner :: runner

text \<open>The halves of \<open>closeStorage\<close>.\<close>

definition take_handle :: "ending \<Rightarrow> ending \<times> db_handle option" where
  "take_handle s = (s\<lparr>en_agent := (en_agent s)\<lparr>a_db := None\<rparr>\<rparr>, a_db (en_agent s))"

definition close_handle :: "agent_env \<Rightarrow> db_handle \<Rightarrow> ending \<Rightarrow> ending \<times> go_error option" where
  "close_handle env h s =
     (let err = snd (Close_db (ae_close env) (Some h)) in
      (s\<lparr>en_agent := if err = None then en_agent s else note_log LevelError ''cannot close the database cleanly'' (en_agent s),
         en_world := (en_world s)\<lparr>w_closed := w_closed (en_world s) @ [h]\<rparr>\<rparr>, err))"

definition run_failed :: "go_error option \<Rightarrow> go_error option" where
  "run_failed = map_option (wrap_err KindInternal ''agent.Run'' ''the agent stopped unexpectedly'')"

inductive end_step :: "agent_env \<Rightarrow> ending \<Rightarrow> ending \<Rightarrow> bool" for env where
  closer_takes: "en_closer s = Begun \<Longrightarrow> take_handle s = (s', Some h) \<Longrightarrow> end_step env s (s'\<lparr>en_closer := Took h\<rparr>)"
| closer_finds_none: "en_closer s = Begun \<Longrightarrow> take_handle s = (s', None) \<Longrightarrow> end_step env s (s'\<lparr>en_closer := Closed None\<rparr>)"
| closer_closes: "en_closer s = Took h \<Longrightarrow> close_handle env h s = (s', err) \<Longrightarrow> end_step env s (s'\<lparr>en_closer := Closed err\<rparr>)"
| closer_sends: "en_closer s = Closed err \<Longrightarrow> end_step env s (s\<lparr>en_closer := Sent, en_channel := Some err\<rparr>)"
| runner_receives: "en_runner s = Selecting \<Longrightarrow> en_channel s = Some err \<Longrightarrow>
    end_step env s (s\<lparr>en_channel := None, en_runner := Deferring err,
      en_agent := if err = None then note_log LevelInfo ''stopped'' (en_agent s) else en_agent s\<rparr>)"
| runner_times_out: "en_runner s = Selecting \<Longrightarrow>
    end_step env s (s\<lparr>en_runner := Deferring (Some (shutdown_error (ag_ShutdownTimeout (cf_Agent (a_cfg (en_agent s))))))\<rparr>)"
| runner_clears: "en_runner s = Deferring r \<Longrightarrow> clearLiveness env (en_agent s) (en_world s) = (a, w) \<Longrightarrow>
    end_step env s (s\<lparr>en_agent := a, en_world := w, en_runner := Cleared r\<rparr>)"
| runner_takes: "en_runner s = Cleared r \<Longrightarrow> take_handle s = (s', Some h) \<Longrightarrow> end_step env s (s'\<lparr>en_runner := Holding h r\<rparr>)"
| runner_finds_none: "en_runner s = Cleared r \<Longrightarrow> take_handle s = (s', None) \<Longrightarrow>
    end_step env s (s'\<lparr>en_runner := Returning (run_failed r)\<rparr>)"
| runner_closes: "en_runner s = Holding h r \<Longrightarrow> close_handle env h s = (s', err) \<Longrightarrow>
    end_step env s (s'\<lparr>en_runner := Returning (run_failed r)\<rparr>)"

definition end_init :: "agent \<Rightarrow> world \<Rightarrow> ending" where
  "end_init a w = \<lparr>en_agent = note_log LevelInfo ''shutting down'' a, en_world = w, en_closer = Begun, en_channel = None,
     en_runner = Selecting\<rparr>"

text \<open>Runs of a number of steps, in any interleaving.\<close>

inductive end_run :: "agent_env \<Rightarrow> nat \<Rightarrow> ending \<Rightarrow> ending \<Rightarrow> bool" for env where
  end_here: "end_run env 0 s s"
| end_further: "end_run env n s t \<Longrightarrow> end_step env t u \<Longrightarrow> end_run env (Suc n) s u"

inductive_cases end_stepE: "end_step env s t"

section \<open>Every run ends\<close>

fun closer_rank :: "closer \<Rightarrow> nat" where
  "closer_rank Begun = 3" | "closer_rank (Took h) = 2" | "closer_rank (Closed r) = 1" | "closer_rank Sent = 0"

fun runner_rank :: "runner \<Rightarrow> nat" where
  "runner_rank Selecting = 4" | "runner_rank (Deferring r) = 3" | "runner_rank (Cleared r) = 2"
| "runner_rank (Holding h r) = 1" | "runner_rank (Returning r) = 0"

definition rank :: "ending \<Rightarrow> nat" where
  "rank s = closer_rank (en_closer s) + runner_rank (en_runner s)"

lemma end_step_rank: "end_step env s t \<Longrightarrow> rank t < rank s"
  by (erule end_stepE) (auto simp: rank_def take_handle_def close_handle_def Let_def)

lemma end_step_progress:
  assumes "\<nexists>t. end_step env s t"
  shows "en_closer s = Sent \<and> (\<exists>r. en_runner s = Returning r)"
proof
  show "en_closer s = Sent"
  proof (cases "en_closer s")
    case Begun
    then show ?thesis using assms closer_takes closer_finds_none by (cases "snd (take_handle s)") (metis prod.collapse)+
  next
    case (Took h)
    then show ?thesis using assms closer_closes by (metis prod.collapse)
  next
    case (Closed r)
    then show ?thesis using assms closer_sends by metis
  qed simp
  show "\<exists>r. en_runner s = Returning r"
  proof (cases "en_runner s")
    case Selecting
    then show ?thesis using assms runner_times_out by metis
  next
    case (Deferring r)
    then show ?thesis using assms runner_clears by (metis prod.collapse)
  next
    case (Cleared r)
    then show ?thesis using assms runner_takes runner_finds_none by (cases "snd (take_handle s)") (metis prod.collapse)+
  next
    case (Holding h r)
    then show ?thesis using assms runner_closes by (metis prod.collapse)
  qed simp
qed

lemma end_run_rank: "end_run env n s t \<Longrightarrow> n + rank t \<le> rank s"
  by (induction rule: end_run.induct) (auto dest: end_step_rank)

section \<open>What holds in between\<close>

definition close_result :: "agent_env \<Rightarrow> agent \<Rightarrow> go_error option" where
  "close_result env a = (case a_db a of None \<Rightarrow> None | Some h \<Rightarrow> snd (Close_db (ae_close env) (Some h)))"

definition handles :: "db_handle option \<Rightarrow> db_handle list" where
  "handles x = (case x of None \<Rightarrow> [] | Some h \<Rightarrow> [h])"

fun closer_handle :: "closer \<Rightarrow> db_handle option" where
  "closer_handle (Took h) = Some h" | "closer_handle c = None"

fun runner_handle :: "runner \<Rightarrow> db_handle option" where
  "runner_handle (Holding h r) = Some h" | "runner_handle c = None"

fun runner_result :: "runner \<Rightarrow> go_error option option" where
  "runner_result Selecting = None" | "runner_result (Deferring r) = Some (run_failed r)" | "runner_result (Cleared r) = Some (run_failed r)"
| "runner_result (Holding h r) = Some (run_failed r)" | "runner_result (Returning r) = Some r"

fun pid_removed :: "runner \<Rightarrow> bool" where
  "pid_removed Selecting = False" | "pid_removed (Deferring r) = False" | "pid_removed c = True"

definition timed_out :: "agent \<Rightarrow> go_error" where
  "timed_out a = shutdown_error (ag_ShutdownTimeout (cf_Agent (a_cfg a)))"

text \<open>The handle is in one place: open, in the hands of a thread, or closed.\<close>

definition one_place :: "agent \<Rightarrow> world \<Rightarrow> ending \<Rightarrow> bool" where
  "one_place a w s \<longleftrightarrow>
     (\<exists>cs. w_closed (en_world s) = w_closed w @ cs
       \<and> mset cs + mset (handles (closer_handle (en_closer s))) + mset (handles (runner_handle (en_runner s)))
           + mset (handles (a_db (en_agent s))) = mset (handles (a_db a)))"

definition frame_kept :: "agent_env \<Rightarrow> agent \<Rightarrow> world \<Rightarrow> ending \<Rightarrow> bool" where
  "frame_kept env a w s \<longleftrightarrow>
     a_cfg (en_agent s) = a_cfg a \<and> a_pidPath (en_agent s) = a_pidPath a
     \<and> w_dirs (en_world s) = w_dirs w \<and> w_disk (en_world s) = w_disk w \<and> w_opened (en_world s) = w_opened w
     \<and> w_pid (en_world s) = (if pid_removed (en_runner s) then fst (RemovePIDFile (ae_pid env) (a_pidPath a) (w_pid w)) else w_pid w)
     \<and> (en_closer s \<noteq> Begun \<longrightarrow> a_db (en_agent s) = None)
     \<and> (\<forall>r h. en_runner s = Returning r \<or> en_runner s = Holding h r \<longrightarrow> a_db (en_agent s) = None)"

definition results_kept :: "agent_env \<Rightarrow> agent \<Rightarrow> ending \<Rightarrow> bool" where
  "results_kept env a s \<longleftrightarrow>
     (en_runner s = Selecting \<longrightarrow>
        (en_closer s = Begun \<longrightarrow> a_db (en_agent s) = a_db a)
        \<and> (\<forall>h. en_closer s = Took h \<longrightarrow> a_db a = Some h)
        \<and> (\<forall>e. en_closer s = Closed e \<or> en_channel s = Some e \<longrightarrow> e = close_result env a))
     \<and> (case runner_result (en_runner s) of None \<Rightarrow> True
        | Some r \<Rightarrow> r = run_failed (close_result env a) \<or> r = run_failed (Some (timed_out a)))"

lemma handles_simps [simp]: "handles None = []" "handles (Some h) = [h]"
  by (simp_all add: handles_def)

lemma take_handle_eq:
  "take_handle s = (s', x) \<longleftrightarrow> s' = s\<lparr>en_agent := (en_agent s)\<lparr>a_db := None\<rparr>\<rparr> \<and> a_db (en_agent s) = x"
  by (auto simp: take_handle_def)

lemma close_handle_cases:
  assumes "close_handle env h s = (s', err)"
  shows "\<exists>a. s' = s\<lparr>en_agent := a, en_world := (en_world s)\<lparr>w_closed := w_closed (en_world s) @ [h]\<rparr>\<rparr>
    \<and> a_cfg a = a_cfg (en_agent s) \<and> a_pidPath a = a_pidPath (en_agent s) \<and> a_db a = a_db (en_agent s)
    \<and> err = snd (Close_db (ae_close env) (Some h))"
  using assms by (auto simp: close_handle_def Let_def)

lemma clearLiveness_cases:
  assumes "clearLiveness env a w = (a', w')"
  shows "a_cfg a' = a_cfg a \<and> a_pidPath a' = a_pidPath a \<and> a_db a' = a_db a
    \<and> w' = w\<lparr>w_pid := fst (RemovePIDFile (ae_pid env) (a_pidPath a) (w_pid w))\<rparr>"
  using assms by (auto simp: clearLiveness_def split: prod.splits option.splits)

lemma one_place_step: "end_step env s t \<Longrightarrow> one_place a w s \<Longrightarrow> one_place a w t"
  by (erule end_stepE) (auto simp: one_place_def take_handle_eq ac_simps dest!: close_handle_cases clearLiveness_cases)

lemma frame_step: "end_step env s t \<Longrightarrow> frame_kept env a w s \<Longrightarrow> frame_kept env a w t"
  by (erule end_stepE) (auto simp: frame_kept_def take_handle_eq dest!: close_handle_cases clearLiveness_cases)

lemma results_step: "end_step env s t \<Longrightarrow> frame_kept env a w s \<Longrightarrow> results_kept env a s \<Longrightarrow> results_kept env a t"
  by (erule end_stepE)
    (auto simp: frame_kept_def results_kept_def take_handle_eq close_result_def timed_out_def dest!: close_handle_cases clearLiveness_cases)

lemma end_init_kept: "one_place a w (end_init a w)" "frame_kept env a w (end_init a w)" "results_kept env a (end_init a w)"
  by (simp_all add: one_place_def frame_kept_def results_kept_def end_init_def)

lemma end_run_kept:
  "end_run env n s t \<Longrightarrow> s = end_init a w \<Longrightarrow> one_place a w t \<and> frame_kept env a w t \<and> results_kept env a t"
proof (induction rule: end_run.induct)
  case (end_here s)
  then show ?case by (simp add: end_init_kept)
next
  case (end_further n s t u)
  then have "one_place a w t" "frame_kept env a w t" "results_kept env a t" by simp_all
  with one_place_step frame_step results_step end_further.hyps(2) show ?case by blast
qed

section \<open>The sequential end\<close>

text \<open>\<open>Run_stop\<close> in one equation, but for what is logged.\<close>

lemma Run_stop_outcome:
  "\<exists>a'. Run_stop env a w =
     (a', w\<lparr>w_pid := fst (RemovePIDFile (ae_pid env) (a_pidPath a) (w_pid w)), w_closed := w_closed w @ handles (a_db a)\<rparr>,
      run_failed (if ae_slow env then Some (timed_out a) else close_result env a))"
  by (cases "a_db a")
    (auto simp: Run_stop_def shutdown_def closeStorage_def clearLiveness_def close_result_def run_failed_def timed_out_def Let_def
      split: option.splits prod.splits)

text \<open>A single handle is closed, or not yet.\<close>

lemma one_place_list:
  assumes "one_place a w s" "runner_handle (en_runner s) = None" "a_db (en_agent s) = None"
  shows "\<exists>cs. w_closed (en_world s) = w_closed w @ cs \<and> cs @ handles (closer_handle (en_closer s)) = handles (a_db a)"
proof -
  from assms obtain cs where cs: "w_closed (en_world s) = w_closed w @ cs"
    "mset (cs @ handles (closer_handle (en_closer s))) = mset (handles (a_db a))"
    by (auto simp: one_place_def)
  have "cs @ handles (closer_handle (en_closer s)) = handles (a_db a)"
    using cs(2) by (cases "a_db a") (simp_all only: handles_simps mset.simps mset_zero_iff mset_single_iff)
  with cs(1) show ?thesis by blast
qed

lemma close_result_slow [simp]: "close_result (env\<lparr>ae_slow := slow\<rparr>) a = close_result env a"
  by (simp add: close_result_def split: option.split)

lemma ended_as_Run_stop:
  assumes "one_place a w s" "frame_kept env a w s" "results_kept env a s" "en_closer s = Sent" "en_runner s = Returning r"
  shows "\<exists>slow a'. Run_stop (env\<lparr>ae_slow := slow\<rparr>) a w = (a', en_world s, r)"
proof -
  obtain slow where slow: "r = run_failed (if slow then Some (timed_out a) else close_result env a)"
    using assms(3,5) by (auto simp: results_kept_def intro: that [of True] that [of False])
  have "w_closed (en_world s) = w_closed w @ handles (a_db a)"
    using one_place_list [OF assms(1)] assms(2,4,5) by (auto simp: frame_kept_def)
  then have w: "en_world s = w\<lparr>w_pid := fst (RemovePIDFile (ae_pid env) (a_pidPath a) (w_pid w)), w_closed := w_closed w @ handles (a_db a)\<rparr>"
    using assms(2,5) by (simp add: frame_kept_def world.equality)
  obtain a' where "Run_stop (env\<lparr>ae_slow := slow\<rparr>) a w =
     (a', w\<lparr>w_pid := fst (RemovePIDFile (ae_pid (env\<lparr>ae_slow := slow\<rparr>)) (a_pidPath a) (w_pid w)), w_closed := w_closed w @ handles (a_db a)\<rparr>,
      run_failed (if ae_slow (env\<lparr>ae_slow := slow\<rparr>) then Some (timed_out a) else close_result (env\<lparr>ae_slow := slow\<rparr>) a))"
    using Run_stop_outcome by blast
  then have "Run_stop (env\<lparr>ae_slow := slow\<rparr>) a w = (a', en_world s, r)" by (simp add: w slow)
  then show ?thesis by blast
qed

section \<open>Properties\<close>

text \<open>
  C22. The end of a run terminates. Whatever the interleaving of \<open>Run\<close> with the goroutine that closes the storage, and whenever
  the timeout comes, there are at most seven steps, and as long as one thread has not ended some step is possible. When both
  have ended, the world and the result are those of \<open>Run_stop\<close> with the timeout before the close or after it. When \<open>Run\<close> returns,
  the handle has been closed exactly once, or is still in the hands of the goroutine.
\<close>

theorem shutdown_terminates:
  assumes "end_run env n (end_init a w) s"
  shows "n \<le> 7
    \<and> ((\<exists>t. end_step env s t) \<or> (\<exists>slow a' r. Run_stop (env\<lparr>ae_slow := slow\<rparr>) a w = (a', en_world s, r) \<and> en_runner s = Returning r))
    \<and> (\<forall>r. en_runner s = Returning r \<longrightarrow>
         (\<exists>cs. w_closed (en_world s) = w_closed w @ cs \<and> cs @ handles (closer_handle (en_closer s)) = handles (a_db a)))"
proof -
  have k: "one_place a w s" "frame_kept env a w s" "results_kept env a s" using end_run_kept [OF assms refl] by simp_all
  have "n \<le> 7" using end_run_rank [OF assms] by (simp add: rank_def end_init_def)
  moreover have "(\<exists>t. end_step env s t) \<or> (\<exists>slow a' r. Run_stop (env\<lparr>ae_slow := slow\<rparr>) a w = (a', en_world s, r) \<and> en_runner s = Returning r)"
    using end_step_progress [of env s] ended_as_Run_stop [OF k] by blast
  moreover have "\<exists>cs. w_closed (en_world s) = w_closed w @ cs \<and> cs @ handles (closer_handle (en_closer s)) = handles (a_db a)"
    if "en_runner s = Returning r" for r
    using one_place_list [OF k(1)] k(2) that by (auto simp: frame_kept_def)
  ultimately show ?thesis by blast
qed

text \<open>A run in which the timeout comes between taking the handle and closing it: \<open>Run\<close> returns first.\<close>

definition toy_handle :: db_handle where
  "toy_handle = \<lparr>dh_path = ''/var/lib/infrapilot/infrapilot.db'', dh_readOnly = False\<rparr>"

definition toy_serving :: "config \<Rightarrow> agent" where
  "toy_serving cfg = (New_agent cfg toy_paths_t)\<lparr>a_db := Some toy_handle\<rparr>"

lemma return_before_close:
  "\<exists>s r. end_run toy_agent_env 4 (end_init (toy_serving cfg) toy_world) s \<and> en_runner s = Returning r \<and> en_closer s = Took toy_handle"
proof -
  let ?s0 = "end_init (toy_serving cfg) toy_world"
  obtain s1 where 1: "end_step toy_agent_env ?s0 s1" "en_closer s1 = Took toy_handle" "en_runner s1 = Selecting" "a_db (en_agent s1) = None"
  proof (rule that [OF closer_takes])
    show "take_handle ?s0 = (fst (take_handle ?s0), Some toy_handle)" by (simp add: end_init_def take_handle_def toy_serving_def)
  qed (simp_all add: end_init_def take_handle_def)
  obtain s2 r where 2: "end_step toy_agent_env s1 s2" "en_closer s2 = Took toy_handle" "en_runner s2 = Deferring r" "a_db (en_agent s2) = None"
    by (rule that [OF runner_times_out]) (simp_all add: 1)
  obtain a w where c: "clearLiveness toy_agent_env (en_agent s2) (en_world s2) = (a, w)" by fastforce
  obtain s3 where 3: "end_step toy_agent_env s2 s3" "en_closer s3 = Took toy_handle" "en_runner s3 = Cleared r" "a_db (en_agent s3) = None"
    by (rule that [OF runner_clears [OF 2(3) c]]) (simp_all add: 2 clearLiveness_cases [OF c])
  obtain s4 where 4: "end_step toy_agent_env s3 s4" "en_closer s4 = Took toy_handle" "en_runner s4 = Returning (run_failed r)"
    by (rule that [OF runner_finds_none [OF 3(3), of "fst (take_handle s3)"]]) (simp_all add: 3 take_handle_def)
  have "end_run toy_agent_env (Suc (Suc (Suc (Suc 0)))) ?s0 s4" using 1(1) 2(1) 3(1) 4(1) by (blast intro: end_run.intros)
  with 4 show ?thesis by (auto simp: numeral_eq_Suc)
qed

theorem shutdown_terminates_witness:
  "\<exists>cfg s r. en_runner s = Returning r \<and> en_closer s = Took toy_handle \<and> w_closed (en_world s) = []
     \<and> end_run toy_agent_env 4 (end_init (toy_serving cfg) toy_world) s"
proof -
  obtain cfg s r where s: "end_run toy_agent_env 4 (end_init (toy_serving cfg) toy_world) s" "en_runner s = Returning r"
    "en_closer s = Took toy_handle"
    using return_before_close by blast
  have "a_db (toy_serving cfg) = Some toy_handle" "w_closed toy_world = []" by (simp_all add: toy_serving_def toy_world_def)
  with shutdown_terminates [OF s(1)] s(2,3) have "w_closed (en_world s) = []" by auto
  with s show ?thesis by blast
qed

end
