(* ===== verification/Spec2Isabelle.thy ===== *)
theory Spec2Isabelle
  imports Web_Views Mains Uptime Agent_Shutdown
begin

text \<open>
  InfraPilot: an agent that holds a device identity, a command line that pairs devices, and a local web
  panel that a paired device logs in to.

  \<^bold>\<open>The program.\<close> \<open>infrapilot sk create\<close> makes an Ed25519 identity (\<open>internal/identity/identity.go\<close>) and
  prints a pairing token; \<open>sk replace\<close> registers a token in the trust tables of an SQLite database. The
  Agent serves a bridge (\<open>internal/bridge\<close>) that signs challenges with the identity. The panel
  (\<open>internal/web\<close>) issues challenges, checks signatures against the registered keys
  (\<open>internal/identity/auth.go\<close>) and hands out sessions; its pages (\<open>web-ui/src\<close>, \<open>internal/web/assets/app.js\<close>)
  run the protocol in the browser and show the host description of \<open>internal/system\<close>. The command line
  (\<open>internal/cli\<close>) inspects and manages all of this: the report of \<open>doctor\<close>, the services of systemd, the
  identities, the panel, updates and removal.

  \<^bold>\<open>The theories.\<close>
  \<^item> \<open>Prelude\<close>: results as sums (\<open>Inl\<close> an error, \<open>Inr\<close> a value), panics, and the interfaces shared by
    the components as locales: machines with an invariant and a history order, key-value stores of
    short-lived values, and provenance of what only some operations make.
  \<^item> \<open>Go_Strings\<close>, \<open>Go_Float\<close>, \<open>Go_Time\<close>, \<open>Go_Duration\<close>, \<open>Base64_Url\<close>, \<open>Json\<close>, \<open>Http\<close>: what the program
    uses of Go's standard library and of the browser. Strings and bytes are lists of characters; a
    duration is the int64 of its nanoseconds, with the wrap-around of its parser; float64 is rounding to
    53 significant bits, ties to even, with its relative error and where it is exact.
  \<^item> \<open>Errors\<close>: \<open>internal/errors\<close>. \<open>Paths\<close>: \<open>internal/system/paths.go\<close>. \<open>System_Info\<close>:
    \<open>internal/system/system.go\<close>, with file modes and sizes as machine words. \<open>Uptime\<close>: from \<open>/proc/uptime\<close> to
    the text shown, through all its roundings.
  \<^item> \<open>Device_Key\<close>: the identity files and pairing tokens. Cryptography is a record of functions; what the
    code relies on is \<open>ed25519_ok\<close>: key and signature sizes, and that a signature verifies under its key.
    Every file operation and random read can fail, by a fault plan.
  \<^item> \<open>Trust_Store\<close>: the repository over the tables of migration 2 with their constraints, each SQL
    statement able to fail; refines a registry of keys with an active flag.
  \<^item> \<open>Authenticator\<close>: challenges, with Verify split at its unlock and a step relation over the
    interleavings of concurrent calls.
  \<^item> \<open>Bridge\<close>: the Agent's handlers; the locale \<open>signing_agent\<close> is what its clients rely on.
  \<^item> \<open>Web_Server\<close>: sessions, handlers and dispatch of the panel, with runs of requests of any clients.
  \<^item> \<open>Web_Client\<close>, \<open>Web_Views\<close>: the TypeScript client, the script, and the React components as trees
    with their effects as transitions; the network is a function, instantiated with the panel.
  \<^item> \<open>Web_Manager\<close>: the panel's service unit and the firewall detection.
  \<^item> \<open>Update\<close>: \<open>internal/update\<close>, from the release list to the replaced binaries over a file system whose
    every call can fail; archives and downloads are inputs.
  \<^item> \<open>Logging\<close>, \<open>Config\<close>: \<open>internal/logging\<close> with redaction, and \<open>internal/config\<close> with defaults, file,
    environment and validation; the YAML decoder is a parameter.
  \<^item> \<open>Storage\<close>: opening, pragmas, migrations and health of the database (\<open>internal/storage\<close>); a
    transaction commits or leaves nothing; SQLite's files beside a database are an answer of the
    environment, also for a read-only connection. \<open>Agent\<close>: \<open>internal/agent\<close> and the PID file of
    \<open>internal/system/process.go\<close>, Run split where it starts to serve, over a \<open>world\<close> that records
    directories, PID file, disk and the handles opened and closed. \<open>Agent_Shutdown\<close>: the stop as two threads,
    \<open>Run\<close> and the goroutine that closes the storage, as a step relation over their interleavings.
  \<^item> \<open>Services\<close>: \<open>internal/service\<close>; the locale \<open>unit_backend\<close> is the contract of a backend, interpreted on the
    systemd adapter. \<open>Doctor\<close>: \<open>internal/core\<close>, the checks, the report and the status.
  \<^item> \<open>Cli_Output\<close>, \<open>Cli_Identity\<close>, \<open>Cli_Manage\<close>, \<open>Cli_Uninstall\<close>, \<open>Cli_Web\<close>, \<open>Cli\<close>: \<open>internal/cli\<close>. What commands
    print; the \<open>sk\<close> commands over one machine, which refine the registry of \<open>Trust_Store\<close>; services and
    updates; the removal over a tree of files; the panel commands with the YAML package as a codec;
    arguments, dispatch and exit codes, over one system in which the database is the file its path names
    and a removal takes a file from every view of it. The standard input is the list of reads it will give, because
    each question makes a buffered reader of its own.
  \<^item> \<open>Mains\<close>: the processes of \<open>cmd\<close>, from the environment to the exit code, with the Agent's log on
    the error output.

  \<^bold>\<open>What is shown.\<close> Registration is single-use and revocation final under any SQL faults; a challenge is
  accepted at most once per issue in every interleaving; nothing behind the login answers without a
  login by a registered active key; opening the panel beside a paired Agent leads to the dashboard.
  An update installs what the checksum names or rolls back; a configuration that loads is usable, and an
  Agent started from it runs, is found by \<open>doctor\<close>, stops within a bounded number of steps in every
  interleaving, and hands its handle to exactly one close; migrations can be retried after any faults;
  service names never become options; what is logged does not depend on secrets. Command lines in any
  sequence keep the devices a database trusts, unless a confirmed removal takes the file; malformed ones
  change nothing; \<open>uninstall\<close> reaches only what it
  names, \<open>update\<close> asks before it installs, and \<open>web setup\<close> binds as it was answered. An uptime is shown
  exactly in spite of its roundings.
  Where the code departs from what it means to do, the departure is a theorem as well: the panics of
  discovery and signing on unexpected answers of the bridge, the files a read-only inspection leaves, the placeholders of the dashboard, signatures for scripts of any origin, a lost key file
  close, the non-atomic revocation, the unreachable firewall state, the binary an incomplete rollback
  leaves missing, durations that wrap, sizes labelled with the wrong unit, a purge that reaches foreign
  directories, and a question whose piped answer is lost.

  \<^bold>\<open>Bounds.\<close> The JSON parser runs on fuel one more than the length of its input, which its
  round-trip lemmas show to be enough for everything the program prints. Nothing else needs fuel; the
  other loops recurse on their input, and the stop of the Agent has a rank that every step lowers.
  Sizes are printed exactly as float64 prints them up to 2^53 bytes; uptimes are covered below 2^32
  seconds.

  \<^bold>\<open>Not modelled.\<close> Timeouts and shutdown of the HTTP servers, the embedded static files and the file server,
  which messages besides those of \<open>Agent\<close> are logged, symbolic links and
  several spellings of one path, Unicode case folding and spaces
  outside of ASCII, the module registry that nothing uses, packaging, and the generated bundles. The
  time limits of commands show as failing calls.
\<close>

end
